theory Spec2Isabelle
  imports Main "HOL-Library.Word"
begin

unbundle bit_operations_syntax

section \<open>Machine types and faults\<close>

text \<open>
  The embedding follows \<^verbatim>\<open>sftp.c\<close>. C \<^verbatim>\<open>unsigned\<close> and the 32-bit values
  carried in \<^verbatim>\<open>unsigned long\<close> are \<open>32 word\<close>; a C \<^verbatim>\<open>int\<close> is a HOL \<open>int\<close>,
  obtained from an unsigned value by \<open>sint\<close> (the two's complement conversion every
  supported compiler performs) and turned back by \<open>word_of_int\<close>. Bytes are \<open>8 word\<close>.
  Behaviour the C standard leaves undefined (a read or write outside a buffer, a
  dereference of \<^verbatim>\<open>NULL\<close>, a failed \<^verbatim>\<open>assert\<close>, a signed overflow) is a value of
  type \<open>fault\<close>, returned as \<open>Inl\<close>.
\<close>

type_synonym byte = "8 word"
type_synonym u32 = "32 word"

text \<open>
  Modelled from the spec: \<^verbatim>\<open>int64.h\<close> is not among the sources. "File offsets and
  sizes are 64-bit unsigned; the reference uses a handrolled pair of 32-bit words."
  \<open>uint64\<close> is a 64-bit word, \<open>uint64_make hi lo\<close> joins the two halves,
  \<open>uint64_add32\<close> adds a 32-bit value with wrap-around and \<open>uint64_compare\<close> is the
  three-way comparison.
\<close>

type_synonym uint64 = "64 word"

datatype fault = Null_deref | Out_of_bounds | Assert_failed | Signed_overflow | Diverges | Bad_pointer

definition INT_MAX :: int where
  "INT_MAX = 2147483647"

definition uint64_make :: "u32 \<Rightarrow> u32 \<Rightarrow> uint64" where
  "uint64_make hi lo = push_bit 32 (ucast hi) OR ucast lo"

definition uint64_hi :: "uint64 \<Rightarrow> u32" where
  "uint64_hi v = ucast (drop_bit 32 v)"

definition uint64_lo :: "uint64 \<Rightarrow> u32" where
  "uint64_lo v = ucast v"

definition uint64_add32 :: "uint64 \<Rightarrow> u32 \<Rightarrow> uint64" where
  "uint64_add32 x y = x + ucast y"

definition uint64_compare :: "uint64 \<Rightarrow> uint64 \<Rightarrow> int" where
  "uint64_compare a b = (if a < b then -1 else if b < a then 1 else 0)"

text \<open>
  Modelled from the spec: the macros \<^verbatim>\<open>GET_32BIT\<close> and \<^verbatim>\<open>PUT_32BIT\<close> of
  \<^verbatim>\<open>misc.h\<close> are not among the sources; the spec fixes the wire format of a u32 as
  big-endian. \<open>GET_32BIT bs off\<close> reads four bytes of the buffer \<open>bs\<close> starting at
  \<open>off\<close>; reading outside the buffer is the fault \<open>Out_of_bounds\<close>.
\<close>

definition be32 :: "byte \<Rightarrow> byte \<Rightarrow> byte \<Rightarrow> byte \<Rightarrow> u32" where
  "be32 b0 b1 b2 b3 =
     push_bit 24 (ucast b0) OR push_bit 16 (ucast b1) OR push_bit 8 (ucast b2) OR ucast b3"

definition GET_32BIT :: "byte list \<Rightarrow> nat \<Rightarrow> fault + u32" where
  "GET_32BIT bs off =
     (if off + 4 \<le> length bs
      then Inr (be32 (bs ! off) (bs ! (off + 1)) (bs ! (off + 2)) (bs ! (off + 3)))
      else Inl Out_of_bounds)"

definition PUT_32BIT :: "u32 \<Rightarrow> byte list" where
  "PUT_32BIT v = [ucast (drop_bit 24 v), ucast (drop_bit 16 v), ucast (drop_bit 8 v), ucast v]"

section \<open>Packets\<close>

text \<open>
  \<^verbatim>\<open>struct sftp_packet\<close>. \<open>pkt_data\<close> is the allocated buffer (the empty list for
  \<^verbatim>\<open>NULL\<close>); its list length is the allocated size, which the C code tracks in
  \<open>pkt_maxlen\<close>. A packet is passed by value and returned updated.
\<close>

record sftp_packet =
  pkt_data :: "byte list"
  pkt_length :: u32
  pkt_maxlen :: u32
  pkt_savedpos :: u32
  pkt_type :: int

text \<open>
  Modelled from the spec: the packet types, status codes and attribute flag bits of
  \<^verbatim>\<open>sftp.h\<close>, which is not among the sources (spec section 6).
\<close>

definition SSH_FXP_INIT :: int where "SSH_FXP_INIT = 1"
definition SSH_FXP_CLOSE :: int where "SSH_FXP_CLOSE = 4"
definition SSH_FXP_READ :: int where "SSH_FXP_READ = 5"
definition SSH_FXP_WRITE :: int where "SSH_FXP_WRITE = 6"
definition SSH_FXP_FSTAT :: int where "SSH_FXP_FSTAT = 8"
definition SSH_FXP_READDIR :: int where "SSH_FXP_READDIR = 12"
definition SSH_FXP_STATUS :: int where "SSH_FXP_STATUS = 101"
definition SSH_FXP_HANDLE :: int where "SSH_FXP_HANDLE = 102"
definition SSH_FXP_DATA :: int where "SSH_FXP_DATA = 103"
definition SSH_FXP_NAME :: int where "SSH_FXP_NAME = 104"
definition SSH_FX_OK :: int where "SSH_FX_OK = 0"
definition SSH_FX_EOF :: int where "SSH_FX_EOF = 1"

definition SSH_FILEXFER_ATTR_SIZE :: u32 where "SSH_FILEXFER_ATTR_SIZE = 0x1"
definition SSH_FILEXFER_ATTR_UIDGID :: u32 where "SSH_FILEXFER_ATTR_UIDGID = 0x2"
definition SSH_FILEXFER_ATTR_PERMISSIONS :: u32 where "SSH_FILEXFER_ATTR_PERMISSIONS = 0x4"
definition SSH_FILEXFER_ATTR_ACMODTIME :: u32 where "SSH_FILEXFER_ATTR_ACMODTIME = 0x8"
definition SSH_FILEXFER_ATTR_EXTENDED :: u32 where "SSH_FILEXFER_ATTR_EXTENDED = 0x80000000"

subsection \<open>Decoding\<close>

text \<open>
  \<^verbatim>\<open>sftp_pkt_getuint32\<close>: \<open>Inr None\<close> is the return value 0 (nothing is stored and
  the cursor stays), \<open>Inr (Some (v, pkt'))\<close> the return value 1 with \<open>v\<close> stored through
  \<^verbatim>\<open>ret\<close> and the cursor advanced. The subtraction is unsigned.
\<close>

definition sftp_pkt_getuint32 :: "sftp_packet \<Rightarrow> fault + (u32 \<times> sftp_packet) option" where
  "sftp_pkt_getuint32 pkt =
     (if pkt_length pkt - pkt_savedpos pkt < 4 then Inr None
      else case GET_32BIT (pkt_data pkt) (unat (pkt_savedpos pkt)) of
             Inl f \<Rightarrow> Inl f
           | Inr v \<Rightarrow> Inr (Some (v, pkt\<lparr>pkt_savedpos := pkt_savedpos pkt + 4\<rparr>)))"

text \<open>
  \<^verbatim>\<open>sftp_pkt_getstring\<close> returns \<open>(ret, p, length, pkt')\<close>: the return value, the
  pointer stored through \<^verbatim>\<open>p\<close> as an offset into \<open>pkt_data\<close> (\<open>None\<close> for
  \<^verbatim>\<open>NULL\<close>), the value stored through \<^verbatim>\<open>length\<close> (\<open>None\<close> when the function
  does not write it) and the packet with its cursor. The declared length is the
  wire word converted to \<^verbatim>\<open>int\<close>, and the bytes that remain are compared after the
  cast \<^verbatim>\<open>(int)(pkt->length - pkt->savedpos)\<close>.
\<close>

definition sftp_pkt_getstring ::
    "sftp_packet \<Rightarrow> fault + (int \<times> nat option \<times> int option \<times> sftp_packet)" where
  "sftp_pkt_getstring pkt =
     (if pkt_length pkt - pkt_savedpos pkt < 4 then Inr (0, None, None, pkt)
      else case GET_32BIT (pkt_data pkt) (unat (pkt_savedpos pkt)) of
             Inl f \<Rightarrow> Inl f
           | Inr v \<Rightarrow>
               (let len = sint v;
                    pkt1 = pkt\<lparr>pkt_savedpos := pkt_savedpos pkt + 4\<rparr>
                in if sint (pkt_length pkt1 - pkt_savedpos pkt1) < len \<or> len < 0
                   then Inr (0, None, Some 0, pkt1)
                   else Inr (1, Some (unat (pkt_savedpos pkt1)), Some len,
                             pkt1\<lparr>pkt_savedpos := pkt_savedpos pkt1 + word_of_int len\<rparr>)))"

text \<open>
  A packet as \<^verbatim>\<open>sftp_recv\<close> hands it out: the buffer holds at least \<open>pkt_length\<close>
  bytes and the read cursor is inside it.
\<close>

definition pkt_wf :: "sftp_packet \<Rightarrow> bool" where
  "pkt_wf pkt \<longleftrightarrow>
     unat (pkt_length pkt) \<le> length (pkt_data pkt) \<and> pkt_savedpos pkt \<le> pkt_length pkt"

text \<open>
  What becomes of the packet a function was handed: it still belongs to the caller,
  it went through \<^verbatim>\<open>sftp_pkt_free\<close> (buffer and structure), or only the structure
  was released with \<^verbatim>\<open>sfree\<close>.
\<close>

datatype pkt_fate = Pkt_kept | Pkt_freed | Pkt_struct_freed

section \<open>Requests, the registry and the error channel\<close>

text \<open>
  \<^verbatim>\<open>struct sftp_request\<close>. \<open>userdata\<close> is the \<^verbatim>\<open>void *\<close> the transfer engine
  stores: the address of a \<^verbatim>\<open>struct req\<close> in the store of section "Transfer engine",
  \<open>None\<close> for \<^verbatim>\<open>NULL\<close>.
\<close>

record sftp_request =
  req_id :: u32
  registered :: int
  userdata :: "nat option"

text \<open>
  The process-wide state of the module: the registry \<^verbatim>\<open>sftp_requests\<close> (\<open>None\<close>
  while the pointer is \<^verbatim>\<open>NULL\<close>), the error pair, and the bytes handed to the
  transport so far.

  Modelled from the spec: \<^verbatim>\<open>tree234.h\<close> is not among the sources. The registry is
  "an ordered container keyed by request id supporting indexed access by position",
  with the operations insert, remove, find-by-id, index(k) "returning the k-th element
  in id order" and count. It is a list of descriptors kept in ascending id order.

  Modelled from the spec: \<^verbatim>\<open>sftp_senddata\<close> belongs to the transport, "ordered,
  reliable": it appends to \<open>sent\<close> and returns 1.
\<close>

type_synonym tree234 = "sftp_request list"

record sftp_state =
  sftp_requests :: "tree234 option"
  fxp_error_message :: string
  fxp_errtype :: int
  sent :: "byte list"

definition fxp_internal_error :: "sftp_state \<Rightarrow> string \<Rightarrow> sftp_state" where
  "fxp_internal_error st msg = st\<lparr>fxp_error_message := msg, fxp_errtype := -1\<rparr>"

definition fxp_error :: "sftp_state \<Rightarrow> string" where
  "fxp_error st = fxp_error_message st"

definition fxp_error_type :: "sftp_state \<Rightarrow> int" where
  "fxp_error_type st = fxp_errtype st"

subsection \<open>STATUS replies\<close>

definition messages :: "string list" where
  "messages =
     [''unexpected OK response'',
      ''end of file'',
      ''no such file or directory'',
      ''permission denied'',
      ''failure'',
      ''bad message'',
      ''no connection'',
      ''connection lost'',
      ''operation unsupported'']"

text \<open>
  \<^verbatim>\<open>fxp_got_status\<close> returns its result, the state with the error pair set, and
  the packet with its cursor. \<^verbatim>\<open>fxp_errtype = ul\<close> converts the wire word to
  \<^verbatim>\<open>int\<close>; in the range test the right operand of \<^verbatim>\<open>||\<close> is only evaluated for
  a non-negative \<^verbatim>\<open>fxp_errtype\<close>, where the conversion to \<^verbatim>\<open>size_t\<close> changes
  nothing.
\<close>

definition fxp_got_status ::
    "sftp_state \<Rightarrow> sftp_packet \<Rightarrow> fault + (int \<times> sftp_state \<times> sftp_packet)" where
  "fxp_got_status st pktin =
     (let r =
        (if pkt_type pktin \<noteq> SSH_FXP_STATUS
         then Inr (st\<lparr>fxp_error_message := ''expected FXP_STATUS packet'',
                      fxp_errtype := -1\<rparr>, pktin)
         else case sftp_pkt_getuint32 pktin of
                Inl f \<Rightarrow> Inl f
              | Inr None \<Rightarrow>
                  Inr (st\<lparr>fxp_error_message := ''malformed FXP_STATUS packet'',
                          fxp_errtype := -1\<rparr>, pktin)
              | Inr (Some (ul, pkt1)) \<Rightarrow>
                  (let e = sint ul
                   in Inr (st\<lparr>fxp_error_message :=
                                  (if e < 0 \<or> int (length messages) \<le> e
                                   then ''unknown error code''
                                   else messages ! nat e),
                                fxp_errtype := e\<rparr>, pkt1)))
      in case r of
           Inl f \<Rightarrow> Inl f
         | Inr (st1, pkt1) \<Rightarrow>
             Inr (if fxp_errtype st1 = SSH_FX_OK then 1
                  else if fxp_errtype st1 = SSH_FX_EOF then 0
                  else -1, st1, pkt1))"

subsection \<open>The registry\<close>

text \<open>
  Modelled from the spec: the operations of the counted tree (see above). \<open>index234\<close>
  and \<open>find234\<close> return \<open>None\<close> for \<^verbatim>\<open>NULL\<close>; \<open>add234\<close> leaves the container
  alone when an element with the same key is present; \<open>del234\<close> removes the element
  with the key of its argument.
\<close>

definition count234 :: "tree234 \<Rightarrow> int" where
  "count234 t = int (length t)"

definition index234 :: "tree234 \<Rightarrow> int \<Rightarrow> sftp_request option" where
  "index234 t i = (if i < 0 \<or> count234 t \<le> i then None else Some (t ! nat i))"

definition find234 :: "tree234 \<Rightarrow> u32 \<Rightarrow> sftp_request option" where
  "find234 t k = find (\<lambda>r. req_id r = k) t"

definition add234 :: "tree234 \<Rightarrow> sftp_request \<Rightarrow> tree234" where
  "add234 t e = (if find234 t (req_id e) \<noteq> None then t else insort_key req_id e t)"

fun del234 :: "tree234 \<Rightarrow> u32 \<Rightarrow> tree234" where
  "del234 [] k = []"
| "del234 (r # t) k = (if req_id r = k then t else r # del234 t k)"

definition REQUEST_ID_OFFSET :: u32 where
  "REQUEST_ID_OFFSET = 256"

text \<open>
  The binary search of \<^verbatim>\<open>sftp_alloc_request\<close>, on \<^verbatim>\<open>unsigned\<close> \<open>low\<close>, \<open>high\<close>
  and \<open>mid\<close>: \<open>low\<close> starts as \<open>-1\<close>, that is \<open>0xFFFFFFFF\<close>, and the sums and
  differences wrap around. \<open>index234\<close> takes an \<^verbatim>\<open>int\<close>, and the element it returns
  is dereferenced unchecked. The result \<open>None\<close> says that the loop does not return.
\<close>

partial_function (option) alloc_search :: "tree234 \<Rightarrow> u32 \<Rightarrow> u32 \<Rightarrow> (fault + u32) option" where
  "alloc_search t low high =
     (if 1 < high - low then
        (let mid = (high + low) div 2
         in case index234 t (sint mid) of
              None \<Rightarrow> Some (Inl Null_deref)
            | Some r \<Rightarrow>
                if req_id r = mid + REQUEST_ID_OFFSET
                then alloc_search t mid high
                else alloc_search t low mid)
      else Some (Inr low))"

declare alloc_search.simps [code]

text \<open>
  \<^verbatim>\<open>sftp_alloc_request\<close> returns the new descriptor and the state with the
  descriptor in the registry. A \<^verbatim>\<open>struct sftp_request *\<close> that a caller holds
  while the request is outstanding is represented by the request's id, the key under
  which the registry holds the descriptor: \<open>sftp_register\<close> and \<open>fxp_set_userdata\<close>
  update the descriptor with that id in place.
\<close>

definition sftp_alloc_request :: "sftp_state \<Rightarrow> fault + (sftp_request \<times> sftp_state)" where
  "sftp_alloc_request st =
     (let t = (case sftp_requests st of None \<Rightarrow> [] | Some t \<Rightarrow> t);
          tsize = count234 t
      in case alloc_search t (- 1) (word_of_int tsize) of
           None \<Rightarrow> Inl Diverges
         | Some (Inl f) \<Rightarrow> Inl f
         | Some (Inr low) \<Rightarrow>
             (let i = low + 1 + REQUEST_ID_OFFSET
              in if find234 t i \<noteq> None then Inl Assert_failed
                 else (let r = \<lparr>req_id = low + 1 + REQUEST_ID_OFFSET, registered = 0,
                                 userdata = None\<rparr>
                       in Inr (r, st\<lparr>sftp_requests := Some (add234 t r)\<rparr>))))"

definition sftp_cleanup_request :: "sftp_state \<Rightarrow> sftp_state" where
  "sftp_cleanup_request st = st\<lparr>sftp_requests := None\<rparr>"

definition upd_request :: "sftp_state \<Rightarrow> u32 \<Rightarrow> (sftp_request \<Rightarrow> sftp_request) \<Rightarrow> fault + sftp_state" where
  "upd_request st k f =
     (case sftp_requests st of
        None \<Rightarrow> Inl Bad_pointer
      | Some t \<Rightarrow>
          if find234 t k = None then Inl Bad_pointer
          else Inr (st\<lparr>sftp_requests := Some (map (\<lambda>r. if req_id r = k then f r else r) t)\<rparr>))"

definition sftp_register :: "sftp_state \<Rightarrow> u32 \<Rightarrow> fault + sftp_state" where
  "sftp_register st req = upd_request st req (\<lambda>r. r\<lparr>registered := 1\<rparr>)"

definition fxp_set_userdata :: "sftp_state \<Rightarrow> u32 \<Rightarrow> nat option \<Rightarrow> fault + sftp_state" where
  "fxp_set_userdata st req d = upd_request st req (\<lambda>r. r\<lparr>userdata := d\<rparr>)"

text \<open>
  \<^verbatim>\<open>sftp_find_request\<close> returns \<open>(req, st', pktin', fate)\<close>: the descriptor
  (\<open>None\<close> for \<^verbatim>\<open>NULL\<close>), the state, the packet with its cursor as the call leaves
  it, and whether the call has passed the packet to \<^verbatim>\<open>sftp_pkt_free\<close>. The registry pointer is
  handed to \<open>find234\<close> as it is, and a \<^verbatim>\<open>NULL\<close> registry is dereferenced there.
\<close>

definition sftp_find_request ::
    "sftp_state \<Rightarrow> sftp_packet option \<Rightarrow>
     fault + (sftp_request option \<times> sftp_state \<times> sftp_packet option \<times> pkt_fate)" where
  "sftp_find_request st pktin =
     (case pktin of
        None \<Rightarrow>
          Inr (None, fxp_internal_error st ''did not receive a valid SFTP packet\<newline>'', None, Pkt_kept)
      | Some pkt \<Rightarrow>
          (case sftp_pkt_getuint32 pkt of
             Inl f \<Rightarrow> Inl f
           | Inr None \<Rightarrow>
               Inr (None, fxp_internal_error st ''did not receive a valid SFTP packet\<newline>'',
                    Some pkt, Pkt_kept)
           | Inr (Some (id', pkt1)) \<Rightarrow>
               (case sftp_requests st of
                  None \<Rightarrow> Inl Null_deref
                | Some t \<Rightarrow>
                    (case find234 t id' of
                       None \<Rightarrow>
                         Inr (None, fxp_internal_error st ''request ID mismatch\<newline>'', Some pkt1, Pkt_freed)
                     | Some req \<Rightarrow>
                         if registered req = 0
                         then Inr (None, fxp_internal_error st ''request ID mismatch\<newline>'',
                                   Some pkt1, Pkt_freed)
                         else Inr (Some req, st\<lparr>sftp_requests := Some (del234 t (req_id req))\<rparr>,
                                   Some pkt1, Pkt_kept)))))"

text \<open>\<^verbatim>\<open>fxp_get_userdata\<close> reads \<^verbatim>\<open>req->userdata\<close> with no check of \<^verbatim>\<open>req\<close>.\<close>

definition fxp_get_userdata :: "sftp_request option \<Rightarrow> fault + nat option" where
  "fxp_get_userdata req = (case req of None \<Rightarrow> Inl Null_deref | Some r \<Rightarrow> Inr (userdata r))"

section \<open>Protocol primitives\<close>

text \<open>
  Sequencing of steps that can fault: the first fault ends the computation.
\<close>

definition thenf :: "fault + 'a \<Rightarrow> ('a \<Rightarrow> fault + 'b) \<Rightarrow> fault + 'b" where
  "thenf m f = (case m of Inl e \<Rightarrow> Inl e | Inr x \<Rightarrow> f x)"

text \<open>
  \<^verbatim>\<open>memcpy(dst + off, src, n)\<close> on buffers of known size: \<open>src\<close> are the bytes
  readable at the source pointer. A negative count (converted to a huge
  \<^verbatim>\<open>size_t\<close>), a destination range outside \<open>dst\<close> or a count beyond \<open>src\<close> is
  the fault \<open>Out_of_bounds\<close>.
\<close>

definition memcpy :: "byte list \<Rightarrow> int \<Rightarrow> byte list \<Rightarrow> int \<Rightarrow> fault + byte list" where
  "memcpy dst off src n =
     (if n < 0 \<or> off < 0 \<or> int (length dst) < off + n \<or> int (length src) < n
      then Inl Out_of_bounds
      else Inr (take (nat off) dst @ take (nat n) src @ drop (nat (off + n)) dst))"

text \<open>
  \<^verbatim>\<open>mkstr(s, len)\<close>, with \<^verbatim>\<open>s\<close> the pointer \<open>buf + off\<close>: a fresh buffer of
  \<^verbatim>\<open>len + 1\<close> bytes holding the \<open>len\<close> bytes at \<open>s\<close> and a terminating zero.
\<close>

definition mkstr :: "byte list \<Rightarrow> nat \<Rightarrow> int \<Rightarrow> fault + byte list" where
  "mkstr buf off len =
     (if INT_MAX < len + 1 then Inl Signed_overflow
      else if len < 0 \<or> int (length buf) < int off + len then Inl Out_of_bounds
      else Inr (take (nat len) (drop off buf) @ [0]))"

text \<open>
  Modelled from the spec: \<^verbatim>\<open>struct fxp_attrs\<close>, \<^verbatim>\<open>struct fxp_name\<close> and
  \<^verbatim>\<open>struct fxp_handle\<close> are declared in \<^verbatim>\<open>sftp.h\<close>, which is not among the
  sources; the fields are the ones \<^verbatim>\<open>sftp.c\<close> uses. A handle is "an opaque byte
  string supplied by the server"; \<open>hstring\<close> is the copy \<open>mkstr\<close> made.
\<close>

record fxp_attrs =
  a_flags :: u32
  a_size :: uint64
  a_uid :: u32
  a_gid :: u32
  a_permissions :: u32
  a_atime :: u32
  a_mtime :: u32

record fxp_name =
  filename :: "byte list"
  longname :: "byte list"
  attrs :: fxp_attrs

record fxp_handle =
  hstring :: "byte list"
  hlen :: int

subsection \<open>Attribute records\<close>

text \<open>
  \<^verbatim>\<open>sftp_pkt_getattrs\<close>, one definition per flag-guarded block. Each returns the
  C result (1 to go on, 0 for the early \<^verbatim>\<open>return 0\<close>), the record as written so
  far and the packet. The \<^verbatim>\<open>while (count--)\<close> loop over the extended pairs runs
  \<open>count\<close> times unless a string fails to decode.
\<close>

definition getattrs_size ::
    "sftp_packet \<Rightarrow> fxp_attrs \<Rightarrow> fault + (int \<times> fxp_attrs \<times> sftp_packet)" where
  "getattrs_size pkt a =
     (if a_flags a AND SSH_FILEXFER_ATTR_SIZE \<noteq> 0 then
        (case sftp_pkt_getuint32 pkt of
           Inl f \<Rightarrow> Inl f
         | Inr None \<Rightarrow> Inr (0, a, pkt)
         | Inr (Some (hi, p1)) \<Rightarrow>
             (case sftp_pkt_getuint32 p1 of
                Inl f \<Rightarrow> Inl f
              | Inr None \<Rightarrow> Inr (0, a, p1)
              | Inr (Some (lo, p2)) \<Rightarrow> Inr (1, a\<lparr>a_size := uint64_make hi lo\<rparr>, p2)))
      else Inr (1, a, pkt))"

definition getattrs_uidgid ::
    "sftp_packet \<Rightarrow> fxp_attrs \<Rightarrow> fault + (int \<times> fxp_attrs \<times> sftp_packet)" where
  "getattrs_uidgid pkt a =
     (if a_flags a AND SSH_FILEXFER_ATTR_UIDGID \<noteq> 0 then
        (case sftp_pkt_getuint32 pkt of
           Inl f \<Rightarrow> Inl f
         | Inr None \<Rightarrow> Inr (0, a, pkt)
         | Inr (Some (u, p1)) \<Rightarrow>
             (case sftp_pkt_getuint32 p1 of
                Inl f \<Rightarrow> Inl f
              | Inr None \<Rightarrow> Inr (0, a\<lparr>a_uid := u\<rparr>, p1)
              | Inr (Some (g, p2)) \<Rightarrow> Inr (1, a\<lparr>a_uid := u, a_gid := g\<rparr>, p2)))
      else Inr (1, a, pkt))"

definition getattrs_permissions ::
    "sftp_packet \<Rightarrow> fxp_attrs \<Rightarrow> fault + (int \<times> fxp_attrs \<times> sftp_packet)" where
  "getattrs_permissions pkt a =
     (if a_flags a AND SSH_FILEXFER_ATTR_PERMISSIONS \<noteq> 0 then
        (case sftp_pkt_getuint32 pkt of
           Inl f \<Rightarrow> Inl f
         | Inr None \<Rightarrow> Inr (0, a, pkt)
         | Inr (Some (v, p1)) \<Rightarrow> Inr (1, a\<lparr>a_permissions := v\<rparr>, p1))
      else Inr (1, a, pkt))"

definition getattrs_acmodtime ::
    "sftp_packet \<Rightarrow> fxp_attrs \<Rightarrow> fault + (int \<times> fxp_attrs \<times> sftp_packet)" where
  "getattrs_acmodtime pkt a =
     (if a_flags a AND SSH_FILEXFER_ATTR_ACMODTIME \<noteq> 0 then
        (case sftp_pkt_getuint32 pkt of
           Inl f \<Rightarrow> Inl f
         | Inr None \<Rightarrow> Inr (0, a, pkt)
         | Inr (Some (t1, p1)) \<Rightarrow>
             (case sftp_pkt_getuint32 p1 of
                Inl f \<Rightarrow> Inl f
              | Inr None \<Rightarrow> Inr (0, a\<lparr>a_atime := t1\<rparr>, p1)
              | Inr (Some (t2, p2)) \<Rightarrow> Inr (1, a\<lparr>a_atime := t1, a_mtime := t2\<rparr>, p2)))
      else Inr (1, a, pkt))"

fun getattrs_pairs :: "nat \<Rightarrow> sftp_packet \<Rightarrow> fault + (int \<times> sftp_packet)" where
  "getattrs_pairs 0 pkt = Inr (1, pkt)"
| "getattrs_pairs (Suc n) pkt =
     (case sftp_pkt_getstring pkt of
        Inl f \<Rightarrow> Inl f
      | Inr (r1, _, _, p1) \<Rightarrow>
          if r1 = 0 then Inr (0, p1)
          else (case sftp_pkt_getstring p1 of
                  Inl f \<Rightarrow> Inl f
                | Inr (r2, _, _, p2) \<Rightarrow>
                    if r2 = 0 then Inr (0, p2) else getattrs_pairs n p2))"

definition getattrs_extended ::
    "sftp_packet \<Rightarrow> fxp_attrs \<Rightarrow> fault + (int \<times> fxp_attrs \<times> sftp_packet)" where
  "getattrs_extended pkt a =
     (if a_flags a AND SSH_FILEXFER_ATTR_EXTENDED \<noteq> 0 then
        (case sftp_pkt_getuint32 pkt of
           Inl f \<Rightarrow> Inl f
         | Inr None \<Rightarrow> Inr (0, a, pkt)
         | Inr (Some (count, p1)) \<Rightarrow>
             (case getattrs_pairs (unat count) p1 of
                Inl f \<Rightarrow> Inl f
              | Inr (r, p2) \<Rightarrow> Inr (r, a, p2)))
      else Inr (1, a, pkt))"

definition attrs_step ::
    "(sftp_packet \<Rightarrow> fxp_attrs \<Rightarrow> fault + (int \<times> fxp_attrs \<times> sftp_packet)) \<Rightarrow>
     fault + (int \<times> fxp_attrs \<times> sftp_packet) \<Rightarrow> fault + (int \<times> fxp_attrs \<times> sftp_packet)" where
  "attrs_step f m =
     (case m of
        Inl e \<Rightarrow> Inl e
      | Inr (r, a, pkt) \<Rightarrow> if r = 0 then Inr (0, a, pkt) else f pkt a)"

definition sftp_pkt_getattrs ::
    "sftp_packet \<Rightarrow> fxp_attrs \<Rightarrow> fault + (int \<times> fxp_attrs \<times> sftp_packet)" where
  "sftp_pkt_getattrs pkt ret =
     (case sftp_pkt_getuint32 pkt of
        Inl f \<Rightarrow> Inl f
      | Inr None \<Rightarrow> Inr (0, ret, pkt)
      | Inr (Some (fl, p1)) \<Rightarrow>
          attrs_step getattrs_extended
            (attrs_step getattrs_acmodtime
              (attrs_step getattrs_permissions
                (attrs_step getattrs_uidgid
                  (getattrs_size p1 (ret\<lparr>a_flags := fl\<rparr>))))))"

subsection \<open>Packet construction\<close>

text \<open>
  \<^verbatim>\<open>sresize\<close> (\<^verbatim>\<open>realloc\<close>) keeps the bytes that fit; the bytes it adds are
  indeterminate in C and zero here. \<^verbatim>\<open>sftp_pkt_ensure\<close> compares and adds in
  \<^verbatim>\<open>int\<close>. \<^verbatim>\<open>sftp_pkt_adddata\<close> adds the \<^verbatim>\<open>int\<close> \<open>len\<close> to the unsigned
  length, passes the new length to \<^verbatim>\<open>sftp_pkt_ensure\<close> as an \<^verbatim>\<open>int\<close>, and
  copies \<open>len\<close> bytes to \<^verbatim>\<open>pkt->data + pkt->length - len\<close>.
\<close>

definition sresize :: "byte list \<Rightarrow> nat \<Rightarrow> byte list" where
  "sresize bs n = take n bs @ replicate (n - length bs) 0"

definition sftp_pkt_ensure :: "sftp_packet \<Rightarrow> int \<Rightarrow> fault + sftp_packet" where
  "sftp_pkt_ensure pkt len =
     (if sint (pkt_maxlen pkt) < len then
        (if INT_MAX < len + 256 then Inl Signed_overflow
         else (let m = word_of_int (len + 256)
               in Inr (pkt\<lparr>pkt_maxlen := m, pkt_data := sresize (pkt_data pkt) (unat m)\<rparr>)))
      else Inr pkt)"

definition sftp_pkt_adddata :: "sftp_packet \<Rightarrow> byte list \<Rightarrow> int \<Rightarrow> fault + sftp_packet" where
  "sftp_pkt_adddata pkt src len =
     (let pkt1 = pkt\<lparr>pkt_length := pkt_length pkt + word_of_int len\<rparr>
      in thenf (sftp_pkt_ensure pkt1 (sint (pkt_length pkt1)))
           (\<lambda>pkt2. thenf (memcpy (pkt_data pkt2) (uint (pkt_length pkt2) - len) src len)
              (\<lambda>d. Inr (pkt2\<lparr>pkt_data := d\<rparr>))))"

definition sftp_pkt_addbyte :: "sftp_packet \<Rightarrow> byte \<Rightarrow> fault + sftp_packet" where
  "sftp_pkt_addbyte pkt b = sftp_pkt_adddata pkt [b] 1"

text \<open>\<^verbatim>\<open>sftp_pkt_init\<close> leaves \<^verbatim>\<open>pkt->type\<close> unset; it is 0 here.\<close>

definition sftp_pkt_init :: "int \<Rightarrow> fault + sftp_packet" where
  "sftp_pkt_init ty =
     sftp_pkt_addbyte
       \<lparr>pkt_data = [], pkt_length = 0, pkt_maxlen = 0, pkt_savedpos = - 1, pkt_type = 0\<rparr>
       (word_of_int ty)"

definition sftp_pkt_adduint32 :: "sftp_packet \<Rightarrow> u32 \<Rightarrow> fault + sftp_packet" where
  "sftp_pkt_adduint32 pkt v = sftp_pkt_adddata pkt (PUT_32BIT v) 4"

definition sftp_pkt_adduint64 :: "sftp_packet \<Rightarrow> uint64 \<Rightarrow> fault + sftp_packet" where
  "sftp_pkt_adduint64 pkt v =
     sftp_pkt_adddata pkt (PUT_32BIT (uint64_hi v) @ PUT_32BIT (uint64_lo v)) 8"

definition sftp_pkt_addstring_start :: "sftp_packet \<Rightarrow> fault + sftp_packet" where
  "sftp_pkt_addstring_start pkt =
     thenf (sftp_pkt_adduint32 pkt 0) (\<lambda>p. Inr (p\<lparr>pkt_savedpos := pkt_length p\<rparr>))"

definition sftp_pkt_addstring_data :: "sftp_packet \<Rightarrow> byte list \<Rightarrow> int \<Rightarrow> fault + sftp_packet" where
  "sftp_pkt_addstring_data pkt src len =
     thenf (sftp_pkt_adddata pkt src len)
       (\<lambda>p. thenf (memcpy (pkt_data p) (uint (pkt_savedpos p) - 4)
                     (PUT_32BIT (pkt_length p - pkt_savedpos p)) 4)
          (\<lambda>d. Inr (p\<lparr>pkt_data := d\<rparr>)))"

subsection \<open>Sending\<close>

text \<open>
  \<^verbatim>\<open>sftp_send\<close> hands the four length bytes and then \<open>pkt_length\<close> bytes of the
  buffer to the transport and frees the packet.
\<close>

definition sftp_senddata :: "sftp_state \<Rightarrow> byte list \<Rightarrow> int \<times> sftp_state" where
  "sftp_senddata st bs = (1, st\<lparr>sent := sent st @ bs\<rparr>)"

definition sftp_send :: "sftp_state \<Rightarrow> sftp_packet \<Rightarrow> fault + (int \<times> sftp_state)" where
  "sftp_send st pkt =
     (if length (pkt_data pkt) < unat (pkt_length pkt) then Inl Out_of_bounds
      else (let (r1, st1) = sftp_senddata st (PUT_32BIT (pkt_length pkt))
            in if r1 = 0 then Inr (0, st1)
               else (let (r2, st2) = sftp_senddata st1 (take (unat (pkt_length pkt)) (pkt_data pkt))
                     in Inr (if r2 = 0 then 0 else 1, st2))))"

text \<open>
  The senders that carry a handle. Each returns the descriptor it allocated and the
  state. \<^verbatim>\<open>fxp_close_send\<close> also releases the handle.
\<close>

definition handle_packet ::
    "int \<Rightarrow> sftp_request \<Rightarrow> fxp_handle \<Rightarrow> fault + sftp_packet" where
  "handle_packet ty req handle =
     thenf (sftp_pkt_init ty) (\<lambda>p.
     thenf (sftp_pkt_adduint32 p (req_id req)) (\<lambda>p.
     thenf (sftp_pkt_addstring_start p) (\<lambda>p.
       sftp_pkt_addstring_data p (hstring handle) (hlen handle))))"

definition fxp_close_send :: "sftp_state \<Rightarrow> fxp_handle \<Rightarrow> fault + (sftp_request \<times> sftp_state)" where
  "fxp_close_send st handle =
     thenf (sftp_alloc_request st) (\<lambda>(req, st1).
     thenf (handle_packet SSH_FXP_CLOSE req handle) (\<lambda>p.
     thenf (sftp_send st1 p) (\<lambda>(r, st2). Inr (req, st2))))"

definition fxp_fstat_send :: "sftp_state \<Rightarrow> fxp_handle \<Rightarrow> fault + (sftp_request \<times> sftp_state)" where
  "fxp_fstat_send st handle =
     thenf (sftp_alloc_request st) (\<lambda>(req, st1).
     thenf (handle_packet SSH_FXP_FSTAT req handle) (\<lambda>p.
     thenf (sftp_send st1 p) (\<lambda>(r, st2). Inr (req, st2))))"

definition fxp_readdir_send :: "sftp_state \<Rightarrow> fxp_handle \<Rightarrow> fault + (sftp_request \<times> sftp_state)" where
  "fxp_readdir_send st handle =
     thenf (sftp_alloc_request st) (\<lambda>(req, st1).
     thenf (handle_packet SSH_FXP_READDIR req handle) (\<lambda>p.
     thenf (sftp_send st1 p) (\<lambda>(r, st2). Inr (req, st2))))"

definition fxp_read_send ::
    "sftp_state \<Rightarrow> fxp_handle \<Rightarrow> uint64 \<Rightarrow> int \<Rightarrow> fault + (sftp_request \<times> sftp_state)" where
  "fxp_read_send st handle offset len =
     thenf (sftp_alloc_request st) (\<lambda>(req, st1).
     thenf (handle_packet SSH_FXP_READ req handle) (\<lambda>p.
     thenf (sftp_pkt_adduint64 p offset) (\<lambda>p.
     thenf (sftp_pkt_adduint32 p (word_of_int len)) (\<lambda>p.
     thenf (sftp_send st1 p) (\<lambda>(r, st2). Inr (req, st2))))))"

definition fxp_write_send ::
    "sftp_state \<Rightarrow> fxp_handle \<Rightarrow> byte list \<Rightarrow> uint64 \<Rightarrow> int \<Rightarrow>
     fault + (sftp_request \<times> sftp_state)" where
  "fxp_write_send st handle buffer offset len =
     thenf (sftp_alloc_request st) (\<lambda>(req, st1).
     thenf (handle_packet SSH_FXP_WRITE req handle) (\<lambda>p.
     thenf (sftp_pkt_adduint64 p offset) (\<lambda>p.
     thenf (sftp_pkt_addstring_start p) (\<lambda>p.
     thenf (sftp_pkt_addstring_data p buffer len) (\<lambda>p.
     thenf (sftp_send st1 p) (\<lambda>(r, st2). Inr (req, st2)))))))"

subsection \<open>The store of the transfer engine\<close>

text \<open>
  \<^verbatim>\<open>struct req\<close>, with its pointers as addresses (\<open>None\<close> for \<^verbatim>\<open>NULL\<close>). The
  transfer engine reaches a \<^verbatim>\<open>struct req\<close> both through the queue of its transfer
  and through the \<open>userdata\<close> of a request descriptor, and a read reply is copied into
  the buffer the record points to, so these objects live in an explicit store: a list
  of cells, the address of a cell being its index. \<^verbatim>\<open>snew\<close> appends a cell,
  \<^verbatim>\<open>sfree\<close> turns a cell into \<open>Freed\<close>, and an access through an address that does
  not hold a cell of the expected kind is the fault \<open>Bad_pointer\<close>. Fields that the
  C code leaves unset in a new object are zero here.
\<close>

record req =
  r_buffer :: "nat option"
  r_len :: int
  r_retlen :: int
  r_complete :: int
  r_offset :: uint64
  r_next :: "nat option"
  r_prev :: "nat option"

datatype cell = Freed | Req_cell req | Buf_cell "byte list"

type_synonym heap = "cell list"

definition heap_get :: "heap \<Rightarrow> nat \<Rightarrow> cell" where
  "heap_get h a = (if a < length h then h ! a else Freed)"

definition get_req :: "heap \<Rightarrow> nat \<Rightarrow> fault + req" where
  "get_req h a = (case heap_get h a of Req_cell r \<Rightarrow> Inr r | _ \<Rightarrow> Inl Bad_pointer)"

definition snew :: "heap \<Rightarrow> cell \<Rightarrow> nat \<times> heap" where
  "snew h c = (length h, h @ [c])"

definition sfree :: "heap \<Rightarrow> nat \<Rightarrow> heap" where
  "sfree h a = h[a := Freed]"

subsection \<open>Receivers\<close>

text \<open>
  Each \<^verbatim>\<open>*_recv\<close> function takes the descriptor only to release it
  (\<^verbatim>\<open>sfree(req)\<close>); the argument is kept in the signatures below. The results
  carry the state (for the error channel) and the fate of the packet.
\<close>

definition fxp_open_recv ::
    "sftp_state \<Rightarrow> sftp_packet \<Rightarrow> sftp_request \<Rightarrow>
     fault + (fxp_handle option \<times> sftp_state \<times> pkt_fate)" where
  "fxp_open_recv st pktin req =
     (if pkt_type pktin = SSH_FXP_HANDLE then
        (case sftp_pkt_getstring pktin of
           Inl f \<Rightarrow> Inl f
         | Inr (ret, hs, len, pkt1) \<Rightarrow>
             if ret = 0
             then Inr (None, fxp_internal_error st ''OPEN returned malformed FXP_HANDLE\<newline>'',
                       Pkt_freed)
             else (case (hs, len) of
                     (Some p, Some l) \<Rightarrow>
                       thenf (mkstr (pkt_data pkt1) p l)
                         (\<lambda>s. Inr (Some \<lparr>hstring = s, hlen = l\<rparr>, st, Pkt_freed))
                   | _ \<Rightarrow> Inl Null_deref))
      else thenf (fxp_got_status st pktin) (\<lambda>(r, st1, pkt1). Inr (None, st1, Pkt_freed)))"

definition fxp_opendir_recv ::
    "sftp_state \<Rightarrow> sftp_packet \<Rightarrow> sftp_request \<Rightarrow>
     fault + (fxp_handle option \<times> sftp_state \<times> pkt_fate)" where
  "fxp_opendir_recv st pktin req =
     (if pkt_type pktin = SSH_FXP_HANDLE then
        (case sftp_pkt_getstring pktin of
           Inl f \<Rightarrow> Inl f
         | Inr (ret, hs, len, pkt1) \<Rightarrow>
             if ret = 0
             then Inr (None, fxp_internal_error st ''OPENDIR returned malformed FXP_HANDLE\<newline>'',
                       Pkt_freed)
             else (case (hs, len) of
                     (Some p, Some l) \<Rightarrow>
                       thenf (mkstr (pkt_data pkt1) p l)
                         (\<lambda>s. Inr (Some \<lparr>hstring = s, hlen = l\<rparr>, st, Pkt_freed))
                   | _ \<Rightarrow> Inl Null_deref))
      else thenf (fxp_got_status st pktin) (\<lambda>(r, st1, pkt1). Inr (None, st1, Pkt_freed)))"

text \<open>
  \<^verbatim>\<open>fxp_read_recv\<close>: \<open>buffer\<close> is the address of the destination buffer in the
  store; the \<^verbatim>\<open>memcpy\<close> writes into that cell.
\<close>

definition fxp_read_recv ::
    "sftp_state \<Rightarrow> heap \<Rightarrow> sftp_packet \<Rightarrow> sftp_request \<Rightarrow> nat option \<Rightarrow> int \<Rightarrow>
     fault + (int \<times> sftp_state \<times> heap \<times> pkt_fate)" where
  "fxp_read_recv st h pktin req buffer len =
     (if pkt_type pktin = SSH_FXP_DATA then
        (case sftp_pkt_getstring pktin of
           Inl f \<Rightarrow> Inl f
         | Inr (ret, str, rl, pkt1) \<Rightarrow>
             if ret = 0
             then Inr (- 1, fxp_internal_error st ''READ returned malformed SSH_FXP_DATA packet'',
                       h, Pkt_freed)
             else (case (str, rl) of
                     (Some p, Some rlen) \<Rightarrow>
                       if len < rlen \<or> rlen < 0
                       then Inr (- 1, fxp_internal_error st ''READ returned more bytes than requested'',
                                 h, Pkt_freed)
                       else (case buffer of
                               None \<Rightarrow> Inl Null_deref
                             | Some b \<Rightarrow>
                                 (case heap_get h b of
                                    Buf_cell bs \<Rightarrow>
                                      thenf (memcpy bs 0 (drop p (pkt_data pkt1)) rlen)
                                        (\<lambda>bs'. Inr (rlen, st, h[b := Buf_cell bs'], Pkt_freed))
                                  | _ \<Rightarrow> Inl Bad_pointer))
                   | _ \<Rightarrow> Inl Null_deref))
      else thenf (fxp_got_status st pktin) (\<lambda>(r, st1, pkt1). Inr (- 1, st1, h, Pkt_freed)))"

definition fxp_write_recv ::
    "sftp_state \<Rightarrow> sftp_packet \<Rightarrow> sftp_request \<Rightarrow> fault + (int \<times> sftp_state \<times> pkt_fate)" where
  "fxp_write_recv st pktin req =
     thenf (fxp_got_status st pktin)
       (\<lambda>(r, st1, pkt1). Inr (if fxp_errtype st1 = SSH_FX_OK then 1 else 0, st1, Pkt_freed))"

text \<open>
  \<^verbatim>\<open>fxp_readdir_recv\<close>. \<open>sizeof_fxp_name\<close> stands for
  \<^verbatim>\<open>sizeof(struct fxp_name)\<close>, whose declaration is not among the sources. The
  decoding loop returns the names read, or \<open>None\<close> at the first entry that does not
  decode. The result of the function is \<open>(names, st', fate, allocated)\<close>, where
  \<open>allocated\<close> is the element count handed to \<^verbatim>\<open>snewn(ret->nnames, struct fxp_name)\<close>,
  \<open>None\<close> when the function returns without reaching the call. The fields of a
  fresh name record that the decoder does not write are zero here.
\<close>

definition attrs0 :: fxp_attrs where
  "attrs0 = \<lparr>a_flags = 0, a_size = 0, a_uid = 0, a_gid = 0, a_permissions = 0,
             a_atime = 0, a_mtime = 0\<rparr>"

fun readdir_names ::
    "nat \<Rightarrow> sftp_packet \<Rightarrow> fxp_name list \<Rightarrow> fault + (fxp_name list option \<times> sftp_packet)" where
  "readdir_names 0 pkt acc = Inr (Some acc, pkt)"
| "readdir_names (Suc n) pkt acc =
     (case sftp_pkt_getstring pkt of
        Inl f \<Rightarrow> Inl f
      | Inr (r1, str1, len1, p1) \<Rightarrow>
          if r1 = 0 then Inr (None, p1)
          else (case sftp_pkt_getstring p1 of
                  Inl f \<Rightarrow> Inl f
                | Inr (r2, str2, len2, p2) \<Rightarrow>
                    if r2 = 0 then Inr (None, p2)
                    else (case sftp_pkt_getattrs p2 attrs0 of
                            Inl f \<Rightarrow> Inl f
                          | Inr (r3, a, p3) \<Rightarrow>
                              if r3 = 0 then Inr (None, p3)
                              else (case (str1, len1, str2, len2) of
                                      (Some s1, Some l1, Some s2, Some l2) \<Rightarrow>
                                        thenf (mkstr (pkt_data p3) s1 l1) (\<lambda>fn.
                                        thenf (mkstr (pkt_data p3) s2 l2) (\<lambda>ln.
                                          readdir_names n p3
                                            (acc @ [\<lparr>filename = fn, longname = ln, attrs = a\<rparr>])))
                                    | _ \<Rightarrow> Inl Null_deref))))"

definition fxp_readdir_recv ::
    "nat \<Rightarrow> sftp_state \<Rightarrow> sftp_packet \<Rightarrow> sftp_request \<Rightarrow>
     fault + (fxp_name list option \<times> sftp_state \<times> pkt_fate \<times> nat option)" where
  "fxp_readdir_recv sizeof_fxp_name st pktin req =
     (if pkt_type pktin = SSH_FXP_NAME then
        (case sftp_pkt_getuint32 pktin of
           Inl f \<Rightarrow> Inl f
         | Inr None \<Rightarrow>
             Inr (None, fxp_internal_error st ''malformed FXP_NAME packet'', Pkt_freed, None)
         | Inr (Some (i, pkt1)) \<Rightarrow>
             if (pkt_length pkt1 - pkt_savedpos pkt1) div 12 < i
             then Inr (None, fxp_internal_error st ''malformed FXP_NAME packet'', Pkt_freed, None)
             else if nat INT_MAX div sizeof_fxp_name < unat i
             then Inr (None, fxp_internal_error st ''unreasonably large FXP_NAME packet'',
                       Pkt_freed, None)
             else (case readdir_names (unat i) pkt1 [] of
                     Inl f \<Rightarrow> Inl f
                   | Inr (None, pkt2) \<Rightarrow>
                       Inr (None, fxp_internal_error st ''malformed FXP_NAME packet'',
                            Pkt_struct_freed, Some (unat i))
                   | Inr (Some names, pkt2) \<Rightarrow>
                       Inr (Some names, st, Pkt_freed, Some (unat i))))
      else thenf (fxp_got_status st pktin) (\<lambda>(r, st1, pkt1). Inr (None, st1, Pkt_freed, None)))"

section \<open>Transfer engine\<close>

text \<open>
  \<^verbatim>\<open>struct fxp_xfer\<close>. The handle is held by value; \<open>head\<close> and \<open>tail\<close> are
  addresses of \<^verbatim>\<open>struct req\<close> cells. The transfer functions take and return the
  module state, the store and the transfer record.
\<close>

record fxp_xfer =
  xfer_offset :: uint64
  furthestdata :: uint64
  filesize :: uint64
  req_totalsize :: int
  req_maxsize :: int
  eof :: int
  err :: int
  fh :: fxp_handle
  head :: "nat option"
  tail :: "nat option"

definition ULONG_MAX :: u32 where
  "ULONG_MAX = - 1"

text \<open>\<^verbatim>\<open>xfer_init\<close> leaves \<^verbatim>\<open>eof\<close> unset; each of its callers sets it.\<close>

definition xfer_init :: "fxp_handle \<Rightarrow> uint64 \<Rightarrow> fxp_xfer" where
  "xfer_init fh' offset' =
     \<lparr>xfer_offset = offset', furthestdata = uint64_make 0 0,
      filesize = uint64_make ULONG_MAX ULONG_MAX,
      req_totalsize = 0, req_maxsize = 1048576, eof = 0, err = 0, fh = fh',
      head = None, tail = None\<rparr>"

definition xfer_done :: "fxp_xfer \<Rightarrow> bool" where
  "xfer_done xfer \<longleftrightarrow> (eof xfer \<noteq> 0 \<or> err xfer \<noteq> 0) \<and> head xfer = None"

definition xfer_set_error :: "fxp_xfer \<Rightarrow> fxp_xfer" where
  "xfer_set_error xfer = xfer\<lparr>err := 1\<rparr>"

text \<open>
  The first half of the body of the loop in \<^verbatim>\<open>xfer_download_queue\<close> (and of
  \<^verbatim>\<open>xfer_upload_data\<close>): a new record is allocated and appended to the queue.
  The result is the store, the address of the record, and the new \<open>head\<close> and
  \<open>tail\<close>.
\<close>

definition queue_append ::
    "heap \<Rightarrow> fxp_xfer \<Rightarrow> fault + (heap \<times> nat \<times> nat option \<times> nat option)" where
  "queue_append h xfer =
     (let (a, h1) = snew h (Req_cell \<lparr>r_buffer = None, r_len = 0, r_retlen = 0, r_complete = 0,
                                      r_offset = xfer_offset xfer, r_next = None, r_prev = None\<rparr>)
      in case tail xfer of
           Some t \<Rightarrow>
             thenf (get_req h1 t) (\<lambda>tr.
               (let h2 = h1[t := Req_cell (tr\<lparr>r_next := Some a\<rparr>)]
                in thenf (get_req h2 a) (\<lambda>rr.
                     Inr (h2[a := Req_cell (rr\<lparr>r_prev := Some t\<rparr>)], a, head xfer, Some a))))
         | None \<Rightarrow> Inr (h1, a, Some a, Some a))"

text \<open>
  \<^verbatim>\<open>xfer_download_queue\<close>. Each round appends a record, gives it the length
  32768 and a new buffer of that size, sends the READ, registers the request, stores
  the address of the record as its userdata and advances the offset and
  \<open>req_totalsize\<close>. \<open>queue_read\<close> is the body of the loop up to
  \<^verbatim>\<open>fxp_set_userdata\<close>.
\<close>

definition queue_read ::
    "sftp_state \<Rightarrow> heap \<Rightarrow> fxp_xfer \<Rightarrow>
     fault + (sftp_state \<times> heap \<times> nat option \<times> nat option)" where
  "queue_read st h xfer =
     thenf (queue_append h xfer) (\<lambda>(h1, a, hd', tl').
       (let (b, h2) = snew h1 (Buf_cell (replicate 32768 0))
        in thenf (get_req h2 a) (\<lambda>rr.
             (let rr1 = rr\<lparr>r_len := 32768, r_buffer := Some b\<rparr>;
                  h3 = h2[a := Req_cell rr1]
              in thenf (fxp_read_send st (fh xfer) (r_offset rr1) (r_len rr1)) (\<lambda>(req, st1).
                 thenf (sftp_register st1 (req_id req)) (\<lambda>st2.
                 thenf (fxp_set_userdata st2 (req_id req) (Some a)) (\<lambda>st3.
                   Inr (st3, h3, hd', tl'))))))))"

function xfer_download_queue ::
    "sftp_state \<Rightarrow> heap \<Rightarrow> fxp_xfer \<Rightarrow> fault + (sftp_state \<times> heap \<times> fxp_xfer)" where
  "xfer_download_queue st h xfer =
     (if req_totalsize xfer < req_maxsize xfer \<and> eof xfer = 0 \<and> err xfer = 0 then
        (case queue_read st h xfer of
           Inl f \<Rightarrow> Inl f
         | Inr (st', h', hd', tl') \<Rightarrow>
             xfer_download_queue st' h'
               (xfer\<lparr>head := hd', tail := tl',
                     xfer_offset := uint64_add32 (xfer_offset xfer) 32768,
                     req_totalsize := req_totalsize xfer + 32768\<rparr>))
      else Inr (st, h, xfer))"
  by pat_completeness auto
termination
  by (relation "measure (\<lambda>(st, h, xfer). nat (req_maxsize xfer - req_totalsize xfer))") auto

definition xfer_download_init ::
    "sftp_state \<Rightarrow> heap \<Rightarrow> fxp_handle \<Rightarrow> uint64 \<Rightarrow> fault + (sftp_state \<times> heap \<times> fxp_xfer)" where
  "xfer_download_init st h fh' offset' =
     xfer_download_queue st h ((xfer_init fh' offset')\<lparr>eof := 0\<rparr>)"

text \<open>
  \<^verbatim>\<open>xfer_download_gotpkt\<close>. \<open>rr\<close> is the record at the address found in the
  userdata; the assignments to \<^verbatim>\<open>rr->retlen\<close> and \<^verbatim>\<open>rr->complete\<close> are
  collected in \<open>rr1\<close>, \<open>rr2\<close> and written back to the cell on each way out. The
  second definition is the part of the function after the error test, from
  \<^verbatim>\<open>rr->complete = 1\<close> on.
\<close>

definition gotpkt_tail ::
    "sftp_state \<Rightarrow> heap \<Rightarrow> fxp_xfer \<Rightarrow> nat \<Rightarrow> req \<Rightarrow> int \<times> sftp_state \<times> heap \<times> fxp_xfer" where
  "gotpkt_tail st h xfer a rr =
     (let rr1 = rr\<lparr>r_complete := 1\<rparr>;
          h1 = h[a := Req_cell rr1];
          xfer1 = (if 0 < r_retlen rr1 \<and> uint64_compare (furthestdata xfer) (r_offset rr1) < 0
                   then xfer\<lparr>furthestdata := r_offset rr1\<rparr> else xfer);
          xfer2 = (if r_retlen rr1 < r_len rr1 then
                     (let fs = uint64_add32 (r_offset rr1)
                                 (word_of_int (if r_retlen rr1 < 0 then 0 else r_retlen rr1))
                      in if 0 < uint64_compare (filesize xfer1) fs
                         then xfer1\<lparr>filesize := fs\<rparr> else xfer1)
                   else xfer1)
      in if 0 < uint64_compare (furthestdata xfer2) (filesize xfer2)
         then (- 1,
               st\<lparr>fxp_error_message := ''received a short buffer from FXP_READ, but not at EOF'',
                  fxp_errtype := - 1\<rparr>,
               h1, xfer_set_error xfer2)
         else (1, st, h1, xfer2))"

definition xfer_download_gotpkt ::
    "sftp_state \<Rightarrow> heap \<Rightarrow> fxp_xfer \<Rightarrow> sftp_packet option \<Rightarrow>
     fault + (int \<times> sftp_state \<times> heap \<times> fxp_xfer)" where
  "xfer_download_gotpkt st h xfer pktin =
     thenf (sftp_find_request st pktin) (\<lambda>(rreq, st1, pkt1, fate).
     thenf (fxp_get_userdata rreq) (\<lambda>ud.
       case ud of
         None \<Rightarrow> Inr (0, st1, h, xfer)
       | Some a \<Rightarrow>
           thenf (get_req h a) (\<lambda>rr.
             case (rreq, pkt1) of
               (Some rq, Some pk) \<Rightarrow>
                 thenf (fxp_read_recv st1 h pk rq (r_buffer rr) (r_len rr)) (\<lambda>(ret, st2, h2, fate2).
                   (let rr1 = rr\<lparr>r_retlen := ret\<rparr>
                    in if (r_retlen rr1 < 0 \<and> fxp_error_type st2 = SSH_FX_EOF) \<or> r_retlen rr1 = 0
                       then Inr (gotpkt_tail st2 h2 (xfer\<lparr>eof := 1\<rparr>) a (rr1\<lparr>r_complete := - 1\<rparr>))
                       else if r_retlen rr1 < 0
                       then Inr (- 1, st2, h2[a := Req_cell (rr1\<lparr>r_complete := - 1\<rparr>)],
                                 xfer_set_error xfer)
                       else Inr (gotpkt_tail st2 h2 xfer a rr1)))
             | _ \<Rightarrow> Inl Null_deref)))"

text \<open>
  \<^verbatim>\<open>xfer_download_data\<close>. The loop pops records from the head of the queue while
  the head is complete and no buffer has been picked; \<open>live\<close> counts the records in
  the store and is the measure of its termination. The result of the function is
  \<open>(ret, buf, len, h', xfer')\<close>; \<open>buf\<close> and \<open>len\<close> are what the call stores through
  its out parameters when it returns 1.
\<close>

definition live :: "heap \<Rightarrow> nat" where
  "live h = length (filter (\<lambda>c. case c of Req_cell r \<Rightarrow> True | _ \<Rightarrow> False) h)"

definition pop_head :: "heap \<Rightarrow> fxp_xfer \<Rightarrow> req \<Rightarrow> fault + (heap \<times> fxp_xfer)" where
  "pop_head h xfer rr =
     (case r_next rr of
        Some n \<Rightarrow>
          thenf (get_req h n) (\<lambda>nr.
            Inr (h[n := Req_cell (nr\<lparr>r_prev := None\<rparr>)], xfer\<lparr>head := Some n\<rparr>))
      | None \<Rightarrow> Inr (h, xfer\<lparr>head := None, tail := None\<rparr>))"

function download_data_loop ::
    "heap \<Rightarrow> fxp_xfer \<Rightarrow> nat option \<Rightarrow> int \<Rightarrow> fault + (heap \<times> fxp_xfer \<times> nat option \<times> int)" where
  "download_data_loop h xfer retbuf retlen =
     (case head xfer of
        None \<Rightarrow> Inr (h, xfer, retbuf, retlen)
      | Some a \<Rightarrow>
          (case heap_get h a of
             Req_cell rr \<Rightarrow>
               if r_complete rr \<noteq> 0 \<and> retbuf = None then
                 (case pop_head h xfer rr of
                    Inl f \<Rightarrow> Inl f
                  | Inr (h1, xfer1) \<Rightarrow>
                      download_data_loop (sfree h1 a)
                        (xfer1\<lparr>req_totalsize := req_totalsize xfer1 - r_len rr\<rparr>)
                        (if 0 < r_complete rr then r_buffer rr else retbuf)
                        (if 0 < r_complete rr then r_retlen rr else retlen))
               else Inr (h, xfer, retbuf, retlen)
           | _ \<Rightarrow> Inl Bad_pointer))"
  by pat_completeness auto
termination
proof (relation "measure (\<lambda>(h, xfer, retbuf, retlen). live h)")
  show "wf (measure (\<lambda>(h, xfer, retbuf, retlen). live h))" by simp
next
  fix h :: heap and xfer :: fxp_xfer and retbuf :: "nat option" and retlen :: int
    and a rr x h1 xfer1
  assume hd: "head xfer = Some a" and c: "heap_get h a = Req_cell rr"
    and p: "pop_head h xfer rr = Inr x" and x: "(h1, xfer1) = x"
  let ?f = "\<lambda>c. case c of Req_cell r \<Rightarrow> True | _ \<Rightarrow> False"
  have upd: "\<And>(g :: heap) i v. i < length g \<Longrightarrow>
      length (filter ?f (g[i := v])) + (if ?f (g ! i) then 1 else 0) =
      length (filter ?f g) + (if ?f v then 1 else 0)"
  proof -
    fix g :: heap and i v
    assume "i < length g"
    then show "length (filter ?f (g[i := v])) + (if ?f (g ! i) then 1 else 0) =
      length (filter ?f g) + (if ?f v then 1 else 0)"
    proof (induction g arbitrary: i)
      case Nil
      then show ?case by simp
    next
      case (Cons y ys)
      then show ?case by (cases i) auto
    qed
  qed
  from c have al: "a < length h" "h ! a = Req_cell rr"
    by (auto simp: heap_get_def split: if_splits)
  have h1: "length h1 = length h \<and> live h1 = live h \<and> (\<exists>r. h1 ! a = Req_cell r)"
  proof (cases "r_next rr")
    case None
    with p x al show ?thesis by (auto simp: pop_head_def)
  next
    case (Some n)
    with p x obtain nr where nr: "get_req h n = Inr nr" "h1 = h[n := Req_cell (nr\<lparr>r_prev := None\<rparr>)]"
      by (auto simp: pop_head_def thenf_def split: sum.splits)
    from nr(1) have nl: "n < length h" "h ! n = Req_cell nr"
      by (auto simp: get_req_def heap_get_def split: if_splits cell.splits)
    from upd[OF nl(1), of "Req_cell (nr\<lparr>r_prev := None\<rparr>)"] nl(2)
    have "live h1 = live h" by (simp add: live_def nr(2))
    moreover have "\<exists>r. h1 ! a = Req_cell r"
      using al nl by (cases "a = n") (simp_all add: nr(2))
    ultimately show ?thesis by (simp add: nr(2))
  qed
  then obtain r where r: "h1 ! a = Req_cell r" and l: "a < length h1" "live h1 = live h"
    using al by auto
  from upd[OF l(1), of Freed] r have "live (sfree h1 a) + 1 = live h1"
    by (simp add: live_def sfree_def)
  with l(2) show "((sfree h1 a, xfer1\<lparr>req_totalsize := req_totalsize xfer1 - r_len rr\<rparr>,
          if 0 < r_complete rr then r_buffer rr else retbuf,
          if 0 < r_complete rr then r_retlen rr else retlen),
         h, xfer, retbuf, retlen) \<in> measure (\<lambda>(h, xfer, retbuf, retlen). live h)"
    by simp
qed

definition xfer_download_data ::
    "heap \<Rightarrow> fxp_xfer \<Rightarrow> fault + (int \<times> nat option \<times> int \<times> heap \<times> fxp_xfer)" where
  "xfer_download_data h xfer =
     thenf (download_data_loop h xfer None 0) (\<lambda>(h1, xfer1, retbuf, retlen).
       if retbuf \<noteq> None then Inr (1, retbuf, retlen, h1, xfer1)
       else Inr (0, None, 0, h1, xfer1))"

subsection \<open>Upload\<close>

definition xfer_upload_init :: "fxp_handle \<Rightarrow> uint64 \<Rightarrow> fxp_xfer" where
  "xfer_upload_init fh' offset' = (xfer_init fh' offset')\<lparr>eof := 1\<rparr>"

definition xfer_upload_ready :: "fxp_xfer \<Rightarrow> int" where
  "xfer_upload_ready xfer = (if req_totalsize xfer < req_maxsize xfer then 1 else 0)"

definition xfer_upload_data ::
    "sftp_state \<Rightarrow> heap \<Rightarrow> fxp_xfer \<Rightarrow> byte list \<Rightarrow> int \<Rightarrow>
     fault + (sftp_state \<times> heap \<times> fxp_xfer)" where
  "xfer_upload_data st h xfer buffer len =
     thenf (queue_append h xfer) (\<lambda>(h1, a, hd', tl').
     thenf (get_req h1 a) (\<lambda>rr.
       (let rr1 = rr\<lparr>r_len := len, r_buffer := None\<rparr>;
            h2 = h1[a := Req_cell rr1]
        in thenf (fxp_write_send st (fh xfer) buffer (r_offset rr1) len) (\<lambda>(req, st1).
           thenf (sftp_register st1 (req_id req)) (\<lambda>st2.
           thenf (fxp_set_userdata st2 (req_id req) (Some a)) (\<lambda>st3.
             Inr (st3, h2,
                  xfer\<lparr>head := hd', tail := tl',
                        xfer_offset := uint64_add32 (xfer_offset xfer) (word_of_int (r_len rr1)),
                        req_totalsize := req_totalsize xfer + r_len rr1\<rparr>)))))))"

text \<open>
  \<^verbatim>\<open>xfer_upload_gotpkt\<close> unlinks the record from wherever it is in the queue.
\<close>

definition upload_unlink :: "heap \<Rightarrow> fxp_xfer \<Rightarrow> req \<Rightarrow> fault + (heap \<times> fxp_xfer)" where
  "upload_unlink h xfer rr =
     thenf (case r_prev rr of
              Some pa \<Rightarrow>
                thenf (get_req h pa) (\<lambda>pr. Inr (h[pa := Req_cell (pr\<lparr>r_next := r_next rr\<rparr>)], xfer))
            | None \<Rightarrow> Inr (h, xfer\<lparr>head := r_next rr\<rparr>))
       (\<lambda>(h1, xfer1).
          case r_next rr of
            Some na \<Rightarrow>
              thenf (get_req h1 na) (\<lambda>nr. Inr (h1[na := Req_cell (nr\<lparr>r_prev := r_prev rr\<rparr>)], xfer1))
          | None \<Rightarrow> Inr (h1, xfer1\<lparr>tail := r_prev rr\<rparr>))"

definition xfer_upload_gotpkt ::
    "sftp_state \<Rightarrow> heap \<Rightarrow> fxp_xfer \<Rightarrow> sftp_packet option \<Rightarrow>
     fault + (int \<times> sftp_state \<times> heap \<times> fxp_xfer)" where
  "xfer_upload_gotpkt st h xfer pktin =
     thenf (sftp_find_request st pktin) (\<lambda>(rreq, st1, pkt1, fate).
     thenf (fxp_get_userdata rreq) (\<lambda>ud.
       case ud of
         None \<Rightarrow> Inr (0, st1, h, xfer)
       | Some a \<Rightarrow>
           thenf (get_req h a) (\<lambda>rr.
             case (rreq, pkt1) of
               (Some rq, Some pk) \<Rightarrow>
                 thenf (fxp_write_recv st1 pk rq) (\<lambda>(ret, st2, fate2).
                 thenf (upload_unlink h xfer rr) (\<lambda>(h1, xfer1).
                   Inr (if ret = 0 then - 1 else 1, st2, sfree h1 a,
                        xfer1\<lparr>req_totalsize := req_totalsize xfer1 - r_len rr\<rparr>)))
             | _ \<Rightarrow> Inl Null_deref)))"

subsection \<open>The states of a download\<close>

text \<open>
  A download starts with \<^verbatim>\<open>xfer_download_init\<close>, in a store whose request
  records (those of other transfers) have non-negative lengths, and goes on with
  calls of \<^verbatim>\<open>xfer_download_queue\<close>, \<^verbatim>\<open>xfer_download_gotpkt\<close> (on any packet)
  and \<^verbatim>\<open>xfer_download_data\<close> that return.
\<close>

definition heap_ok :: "heap \<Rightarrow> bool" where
  "heap_ok h \<longleftrightarrow> (\<forall>c \<in> set h. case c of Req_cell r \<Rightarrow> 0 \<le> r_len r | _ \<Rightarrow> True)"

inductive download_reach :: "sftp_state \<Rightarrow> heap \<Rightarrow> fxp_xfer \<Rightarrow> bool" where
  init: "heap_ok h0 \<Longrightarrow> xfer_download_init s0 h0 fh' off = Inr (s, h, x) \<Longrightarrow> download_reach s h x"
| queue: "download_reach s h x \<Longrightarrow> xfer_download_queue s h x = Inr (s', h', x') \<Longrightarrow>
          download_reach s' h' x'"
| gotpkt: "download_reach s h x \<Longrightarrow> xfer_download_gotpkt s h x pktin = Inr (ret, s', h', x') \<Longrightarrow>
           download_reach s' h' x'"
| data: "download_reach s h x \<Longrightarrow> xfer_download_data h x = Inr (ret, buf, len, h', x') \<Longrightarrow>
         download_reach s h' x'"

text \<open>
  The registry contents of a state, and the registries that allocation and removal
  produce: ascending and distinct ids, none below \<open>REQUEST_ID_OFFSET\<close>, and a count
  that fits the \<^verbatim>\<open>int\<close> in which \<^verbatim>\<open>count234\<close> reports it.
\<close>

definition registry :: "sftp_state \<Rightarrow> tree234" where
  "registry st = (case sftp_requests st of None \<Rightarrow> [] | Some t \<Rightarrow> t)"

definition reg_ok :: "tree234 \<Rightarrow> bool" where
  "reg_ok t \<longleftrightarrow>
     sorted_wrt (\<lambda>a b. req_id a < req_id b) t \<and>
     (\<forall>r \<in> set t. REQUEST_ID_OFFSET \<le> req_id r) \<and>
     length t < 2 ^ 31"

definition ids :: "tree234 \<Rightarrow> u32 set" where
  "ids t = req_id ` set t"

section \<open>Concrete inputs\<close>

text \<open>States and packets at which the theorems below are evaluated.\<close>

definition st0 :: sftp_state where
  "st0 = \<lparr>sftp_requests = None, fxp_error_message = [], fxp_errtype = 0, sent = []\<rparr>"

definition mk_req :: "u32 \<Rightarrow> sftp_request" where
  "mk_req k = \<lparr>req_id = k, registered = 1, userdata = None\<rparr>"

text \<open>
  The packet \<^verbatim>\<open>sftp_recv\<close> builds from a frame with type byte \<open>ty\<close> and payload
  \<open>bs\<close>: the cursor stands after the type byte.
\<close>

definition recv_pkt :: "byte \<Rightarrow> byte list \<Rightarrow> sftp_packet" where
  "recv_pkt ty bs =
     \<lparr>pkt_data = ty # bs, pkt_length = of_nat (length bs) + 1,
      pkt_maxlen = of_nat (length bs) + 1, pkt_savedpos = 1, pkt_type = uint ty\<rparr>"

definition status_pkt :: "byte list \<Rightarrow> sftp_packet" where
  "status_pkt bs = recv_pkt 101 bs"

definition alloc_ex1 :: sftp_state where
  "alloc_ex1 = st0\<lparr>sftp_requests := Some (map mk_req [256, 257, 258])\<rparr>"

definition alloc_ex2 :: sftp_state where
  "alloc_ex2 = st0\<lparr>sftp_requests := Some (del234 (map mk_req [256, 257, 258]) 257)\<rparr>"

text \<open>A received DATA packet of 2 GiB + 4 bytes whose payload is all zero.\<close>

definition getstring_big_pkt :: sftp_packet where
  "getstring_big_pkt =
     \<lparr>pkt_data = replicate 2147483652 0, pkt_length = 2147483652, pkt_maxlen = 2147483652,
      pkt_savedpos = 0, pkt_type = 103\<rparr>"

text \<open>
  A state with one registered request, a 64-byte NAME reply that declares 1000000
  names, and a NAME reply that declares 53687092 names in a packet large enough to
  hold that many of the shortest possible entries.
\<close>

definition find_ex_st :: sftp_state where
  "find_ex_st = st0\<lparr>sftp_requests := Some [mk_req 256]\<rparr>"

definition readdir_ex_pkt :: sftp_packet where
  "readdir_ex_pkt =
     \<lparr>pkt_data = [104, 0, 0, 1, 0, 0x00, 0x0F, 0x42, 0x40] @ replicate 55 0, pkt_length = 64,
      pkt_maxlen = 64, pkt_savedpos = 5, pkt_type = 104\<rparr>"

definition readdir_big_pkt :: sftp_packet where
  "readdir_big_pkt =
     \<lparr>pkt_data = [104, 0, 0, 1, 0, 0x03, 0x33, 0x33, 0x34] @ replicate 644245104 0,
      pkt_length = 644245113, pkt_maxlen = 644245113, pkt_savedpos = 5, pkt_type = 104\<rparr>"

text \<open>
  A HANDLE reply whose handle string has 2^31 - 9 bytes, the handle
  \<^verbatim>\<open>fxp_open_recv\<close> makes of it, and a HANDLE reply with the handle 01 02 03 after
  its request id has been read.
\<close>

definition big_handle_pkt :: sftp_packet where
  "big_handle_pkt =
     \<lparr>pkt_data = [102, 0, 0, 1, 0, 0x7F, 0xFF, 0xFF, 0xF7] @ replicate 2147483639 0,
      pkt_length = 2147483648, pkt_maxlen = 2147483648, pkt_savedpos = 5, pkt_type = 102\<rparr>"

definition big_handle :: fxp_handle where
  "big_handle = \<lparr>hstring = replicate 2147483639 0 @ [0], hlen = 2147483639\<rparr>"

definition handle_ex_pkt :: sftp_packet where
  "handle_ex_pkt = (recv_pkt 102 [0, 0, 1, 0, 0, 0, 0, 3, 1, 2, 3])\<lparr>pkt_savedpos := 5\<rparr>"

text \<open>
  A download with one read in flight: the handle 01 02 03, and the state, the store
  and the transfer after \<^verbatim>\<open>xfer_download_queue\<close> has queued its first read (request
  256, for 32768 bytes at offset 0, its record at address 0 and its buffer at
  address 1).
\<close>

definition hd3 :: fxp_handle where
  "hd3 = \<lparr>hstring = [1, 2, 3, 0], hlen = 3\<rparr>"

definition dl_req :: req where
  "dl_req = \<lparr>r_buffer = Some 1, r_len = 32768, r_retlen = 0, r_complete = 0, r_offset = 0,
             r_next = None, r_prev = None\<rparr>"

definition dl_heap :: heap where
  "dl_heap = [Req_cell dl_req, Buf_cell (replicate 32768 0)]"

definition dl_st :: sftp_state where
  "dl_st = \<lparr>sftp_requests = Some [\<lparr>req_id = 256, registered = 1, userdata = Some 0\<rparr>],
            fxp_error_message = [], fxp_errtype = 0,
            sent = [0, 0, 0, 24, 5, 0, 0, 1, 0, 0, 0, 0, 3, 1, 2, 3,
                    0, 0, 0, 0, 0, 0, 0, 0, 0, 0, 128, 0]\<rparr>"

definition dl_xfer :: fxp_xfer where
  "dl_xfer = (xfer_init hd3 0)\<lparr>eof := 0, head := Some 0, tail := Some 0,
                               xfer_offset := 32768, req_totalsize := 32768\<rparr>"

section \<open>Vocabulary of the proofs\<close>

text \<open>
  The bytes an outgoing packet holds so far, and the state of a packet under
  construction: \<open>pkt_maxlen\<close> is the size of the buffer, the length is within it, and
  the size fits an \<^verbatim>\<open>int\<close>.
\<close>

definition wire :: "sftp_packet \<Rightarrow> byte list" where
  "wire p = take (unat (pkt_length p)) (pkt_data p)"

definition out_inv :: "sftp_packet \<Rightarrow> bool" where
  "out_inv p \<longleftrightarrow>
     unat (pkt_maxlen p) = length (pkt_data p) \<and>
     unat (pkt_length p) \<le> length (pkt_data p) \<and>
     length (pkt_data p) < 2147483648"

section \<open>Properties\<close>

subsection \<open>Words\<close>

lemma be32_PUT_32BIT: "be32 (ucast (drop_bit 24 v)) (ucast (drop_bit 16 v)) (ucast (drop_bit 8 v)) (ucast v) = (v :: u32)"
  unfolding be32_def
  apply (rule bit_word_eqI)
  subgoal for n
    apply (cases "n < 8"; cases "n < 16"; cases "n < 24")
    apply (auto simp: bit_simps not_less le_iff_add)
    done
  done

lemma uint32_bound: "uint (w::u32) < 4294967296"
  using uint_lt2p[of w] by simp

lemma unat32_bound: "unat (w::u32) < 4294967296"
  using unsigned_less[of w, where 'a=nat] by simp

lemma sint_u32: "sint (w::u32) = (if uint w < 2147483648 then uint w else uint w - 4294967296)"
proof -
  have s: "sint w = (uint w + 2147483648) mod 4294967296 - 2147483648"
    using int_word_sint[where 'a=32, of "uint w"] by simp
  have b: "0 \<le> uint w" "uint w < 4294967296" using uint32_bound[of w] by simp_all
  show ?thesis
  proof (cases "uint w < 2147483648")
    case True
    then have "(uint w + 2147483648) mod 4294967296 = uint w + 2147483648"
      using b by (simp add: mod_pos_pos_trivial)
    with True s show ?thesis by simp
  next
    case False
    then have "(uint w + 2147483648) mod 4294967296 = uint w + 2147483648 - 4294967296"
      using b by (simp add: mod_pos_geq mod_pos_pos_trivial)
    with False s show ?thesis by simp
  qed
qed

lemma sint_eq_0: "sint (w::u32) = 0 \<longleftrightarrow> w = 0"
  using uint32_bound[of w] by (auto simp: sint_u32 word_uint_eq_iff split: if_splits)

lemma sint_eq_1: "sint (w::u32) = 1 \<longleftrightarrow> w = 1"
  using uint32_bound[of w] by (auto simp: sint_u32 word_uint_eq_iff split: if_splits)

subsection \<open>Status mapping\<close>

lemma pkt_wf_read4:
  assumes "pkt_wf p" and "\<not> pkt_length p - pkt_savedpos p < 4"
  shows "unat (pkt_savedpos p) + 4 \<le> length (pkt_data p)"
    and "unat (pkt_savedpos p) + 4 \<le> unat (pkt_length p)"
proof -
  from assms(1) have le: "pkt_savedpos p \<le> pkt_length p"
    and len: "unat (pkt_length p) \<le> length (pkt_data p)"
    by (simp_all add: pkt_wf_def)
  from assms(2) have "4 \<le> unat (pkt_length p - pkt_savedpos p)"
    by (simp add: word_less_nat_alt not_less)
  with le have "4 \<le> unat (pkt_length p) - unat (pkt_savedpos p)"
    by (simp add: unat_sub)
  then show "unat (pkt_savedpos p) + 4 \<le> unat (pkt_length p)" by arith
  with len show "unat (pkt_savedpos p) + 4 \<le> length (pkt_data p)" by arith
qed

lemma GET_32BIT_wf:
  assumes "pkt_wf p" and "\<not> pkt_length p - pkt_savedpos p < 4"
  shows "\<exists>v. GET_32BIT (pkt_data p) (unat (pkt_savedpos p)) = Inr v"
  using pkt_wf_read4(1)[OF assms] by (simp add: GET_32BIT_def)


text \<open>
  C6. \<^verbatim>\<open>fxp_got_status\<close> on a well-formed packet. For a STATUS packet with at least
  four bytes at the cursor, the u32 \<open>code\<close> there is parsed and the cursor moves past
  it; the error channel records the code (as the \<^verbatim>\<open>int\<close> the u32 converts to),
  for a code in 0..8 the message is the table entry with that index, for a code of
  9 or more it is "unknown error code"; the result is 1 exactly for code 0
  (\<^verbatim>\<open>SSH_FX_OK\<close>), 0 exactly for code 1 (\<^verbatim>\<open>SSH_FX_EOF\<close>) and -1 for every other
  code. For a packet of another type, or with fewer than four bytes left, the result
  is -1 and the error type is -1.
\<close>

theorem fxp_got_status_mapping:
  assumes wf: "pkt_wf pktin"
  shows "(pkt_type pktin = SSH_FXP_STATUS \<and> \<not> pkt_length pktin - pkt_savedpos pktin < 4 \<longrightarrow>
           (\<exists>code ret st'.
              GET_32BIT (pkt_data pktin) (unat (pkt_savedpos pktin)) = Inr code \<and>
              fxp_got_status st pktin =
                Inr (ret, st', pktin\<lparr>pkt_savedpos := pkt_savedpos pktin + 4\<rparr>) \<and>
              fxp_errtype st' = sint code \<and>
              (code < 9 \<longrightarrow> fxp_errtype st' = uint code \<and>
                             fxp_error_message st' = messages ! unat code) \<and>
              (9 \<le> code \<longrightarrow> fxp_error_message st' = ''unknown error code'') \<and>
              (ret = 1 \<longleftrightarrow> code = 0) \<and> (ret = 0 \<longleftrightarrow> code = 1) \<and>
              (ret = -1 \<longleftrightarrow> code \<noteq> 0 \<and> code \<noteq> 1))) \<and>
         (pkt_type pktin \<noteq> SSH_FXP_STATUS \<or> pkt_length pktin - pkt_savedpos pktin < 4 \<longrightarrow>
           (\<exists>st'. fxp_got_status st pktin = Inr (-1, st', pktin) \<and> fxp_errtype st' = -1))"
proof (intro conjI impI)
  assume a: "pkt_type pktin = SSH_FXP_STATUS \<and> \<not> pkt_length pktin - pkt_savedpos pktin < 4"
  then obtain code where g: "GET_32BIT (pkt_data pktin) (unat (pkt_savedpos pktin)) = Inr code"
    using GET_32BIT_wf[OF wf] by blast
  have u: "sftp_pkt_getuint32 pktin = Inr (Some (code, pktin\<lparr>pkt_savedpos := pkt_savedpos pktin + 4\<rparr>))"
    using a g by (simp add: sftp_pkt_getuint32_def)
  have small: "code < 9 \<Longrightarrow> sint code = uint code \<and> 0 \<le> uint code \<and> uint code < 9 \<and> nat (uint code) = unat code"
    by (simp add: word_less_def sint_u32)
  have big: "9 \<le> code \<Longrightarrow> sint code < 0 \<or> 9 \<le> sint code"
    using uint32_bound[of code] by (simp add: word_le_def sint_u32)
  let ?e = "sint code"
  let ?st = "st\<lparr>fxp_error_message := (if ?e < 0 \<or> int (length messages) \<le> ?e
                                   then ''unknown error code'' else messages ! nat ?e),
                fxp_errtype := ?e\<rparr>"
  let ?ret = "if code = 0 then 1 else if code = 1 then 0 else (-1::int)"
  have r: "fxp_got_status st pktin = Inr (?ret, ?st, pktin\<lparr>pkt_savedpos := pkt_savedpos pktin + 4\<rparr>)"
    using a u by (simp add: fxp_got_status_def Let_def SSH_FX_OK_def SSH_FX_EOF_def sint_eq_0 sint_eq_1)
  have m1: "code < 9 \<longrightarrow> fxp_errtype ?st = uint code \<and> fxp_error_message ?st = messages ! unat code"
    using small by (auto simp: messages_def)
  have m2: "9 \<le> code \<longrightarrow> fxp_error_message ?st = ''unknown error code''"
    using big by (auto simp: messages_def)
  show "\<exists>code ret st'.
              GET_32BIT (pkt_data pktin) (unat (pkt_savedpos pktin)) = Inr code \<and>
              fxp_got_status st pktin =
                Inr (ret, st', pktin\<lparr>pkt_savedpos := pkt_savedpos pktin + 4\<rparr>) \<and>
              fxp_errtype st' = sint code \<and>
              (code < 9 \<longrightarrow> fxp_errtype st' = uint code \<and>
                             fxp_error_message st' = messages ! unat code) \<and>
              (9 \<le> code \<longrightarrow> fxp_error_message st' = ''unknown error code'') \<and>
              (ret = 1 \<longleftrightarrow> code = 0) \<and> (ret = 0 \<longleftrightarrow> code = 1) \<and>
              (ret = -1 \<longleftrightarrow> code \<noteq> 0 \<and> code \<noteq> 1)"
    apply (rule exI[of _ code], rule exI[of _ ?ret], rule exI[of _ ?st])
    apply (intro conjI)
    apply (rule g)
    apply (rule r)
    apply simp
    apply (rule m1)
    apply (rule m2)
    apply simp_all
    done
next
  assume a: "pkt_type pktin \<noteq> SSH_FXP_STATUS \<or> pkt_length pktin - pkt_savedpos pktin < 4"
  show "\<exists>st'. fxp_got_status st pktin = Inr (-1, st', pktin) \<and> fxp_errtype st' = -1"
    using a by (auto simp: fxp_got_status_def Let_def sftp_pkt_getuint32_def SSH_FX_OK_def SSH_FX_EOF_def)
qed

theorem fxp_got_status_mapping_witness:
  "pkt_wf (status_pkt [0, 0, 0, 2]) \<and>
   fxp_got_status st0 (status_pkt [0, 0, 0, 2]) =
     Inr (- 1, st0\<lparr>fxp_error_message := ''no such file or directory'', fxp_errtype := 2\<rparr>,
          (status_pkt [0, 0, 0, 2])\<lparr>pkt_savedpos := 5\<rparr>) \<and>
   pkt_wf (status_pkt [0, 0, 0]) \<and>
   fxp_got_status st0 (status_pkt [0, 0, 0]) =
     Inr (- 1, st0\<lparr>fxp_error_message := ''malformed FXP_STATUS packet'', fxp_errtype := - 1\<rparr>,
          status_pkt [0, 0, 0])"
  using fxp_got_status_mapping [of "status_pkt [0, 0, 0, 2]" st0]
    fxp_got_status_mapping [of "status_pkt [0, 0, 0]" st0]
  by (simp add: pkt_wf_def status_pkt_def recv_pkt_def st0_def fxp_got_status_def sftp_pkt_getuint32_def
      GET_32BIT_def be32_def SSH_FXP_STATUS_def messages_def SSH_FX_OK_def SSH_FX_EOF_def)

subsection \<open>Request id allocation\<close>

lemma unat_of_nat32: "n < 4294967296 \<Longrightarrow> unat (of_nat n :: u32) = n"
  by (simp add: unat_of_nat)

lemma search_cond:
  assumes "l \<le> h" "h < 4294967295"
  shows "(1 < (of_nat h - (of_nat l - 1) :: u32)) \<longleftrightarrow> l < h"
proof -
  have "(of_nat (h - l + 1) :: u32) = of_nat h - of_nat l + 1"
    using assms(1) by (simp add: of_nat_diff)
  then have e: "(of_nat h - (of_nat l - 1) :: u32) = of_nat (h - l + 1)"
    by (simp only: algebra_simps)
  have "unat (of_nat (h - l + 1) :: u32) = h - l + 1"
    using assms by (intro unat_of_nat32) arith
  then have "unat (of_nat h - (of_nat l - 1) :: u32) = h - l + 1"
    by (simp only: e)
  then show ?thesis using assms(1) by (simp add: word_less_nat_alt)
qed

lemma search_mid:
  assumes "l < h" "h < 2147483648"
  shows "((of_nat h + (of_nat l - 1)) div 2 :: u32) = of_nat ((h + l - 1) div 2)"
proof -
  have 1: "1 \<le> h + l" using assms by arith
  have "(of_nat (h + l - 1) :: u32) = of_nat (h + l) - 1"
    using 1 by (simp only: of_nat_diff) simp
  also have "\<dots> = of_nat h + (of_nat l - 1)" by simp
  finally have e: "(of_nat h + (of_nat l - 1) :: u32) = of_nat (h + l - 1)" by (rule sym)
  have u: "unat (of_nat (h + l - 1) :: u32) = h + l - 1"
    using assms by (intro unat_of_nat32) arith
  have "unat ((of_nat (h + l - 1) :: u32) div 2) = (h + l - 1) div 2"
    by (simp only: unat_div u) simp
  moreover have "unat (of_nat ((h + l - 1) div 2) :: u32) = (h + l - 1) div 2"
    using assms by (intro unat_of_nat32) arith
  ultimately show ?thesis by (simp only: e word_unat_eq_iff)
qed

lemma sint_of_nat_small: "n < 2147483648 \<Longrightarrow> sint (of_nat n :: u32) = int n"
proof -
  assume a: "n < 2147483648"
  have s: "sint (of_nat n :: u32) = (int n + 2147483648) mod 4294967296 - 2147483648"
    using int_word_sint[where 'a=32, of "int n"] by simp
  have "(int n + 2147483648) mod 4294967296 = int n + 2147483648"
    using a by (intro mod_pos_pos_trivial) auto
  with s show ?thesis by simp
qed

lemma id_eq_iff:
  assumes "i < 2147483648"
  shows "(w = (of_nat i + REQUEST_ID_OFFSET :: u32)) \<longleftrightarrow> unat w = 256 + i"
proof -
  have "(of_nat i + REQUEST_ID_OFFSET :: u32) = of_nat (256 + i)"
    by (simp add: REQUEST_ID_OFFSET_def)
  moreover have "unat (of_nat (256 + i) :: u32) = 256 + i"
    using assms by (intro unat_of_nat32) arith
  ultimately show ?thesis by (auto simp: word_unat_eq_iff)
qed

lemma reg_ok_nth_less:
  assumes "reg_ok t" "i < j" "j < length t"
  shows "unat (req_id (t ! i)) < unat (req_id (t ! j))"
  using assms sorted_wrt_nth_less[of "\<lambda>a b. req_id a < req_id b" t i j]
  by (simp add: reg_ok_def word_less_nat_alt)

lemma id_lower:
  assumes "reg_ok t"
  shows "i < length t \<Longrightarrow> 256 + i \<le> unat (req_id (t ! i))"
proof (induction i)
  case 0
  then have "t ! 0 \<in> set t" by simp
  with assms have "REQUEST_ID_OFFSET \<le> req_id (t ! 0)" by (simp add: reg_ok_def)
  then show ?case by (simp add: word_le_nat_alt REQUEST_ID_OFFSET_def)
next
  case (Suc i)
  then have "256 + i \<le> unat (req_id (t ! i))" by simp
  moreover have "unat (req_id (t ! i)) < unat (req_id (t ! Suc i))"
    using reg_ok_nth_less[OF assms, of i "Suc i"] Suc.prems by simp
  ultimately show ?case by arith
qed

lemma id_gap:
  assumes "reg_ok t"
  shows "i \<le> j \<Longrightarrow> j < length t \<Longrightarrow> unat (req_id (t ! i)) + (j - i) \<le> unat (req_id (t ! j))"
proof (induction j)
  case 0
  then show ?case by simp
next
  case (Suc j)
  show ?case
  proof (cases "i = Suc j")
    case True
    then show ?thesis by simp
  next
    case False
    with Suc.prems have le: "i \<le> j" "j < length t" by simp_all
    then have "unat (req_id (t ! i)) + (j - i) \<le> unat (req_id (t ! j))" by (rule Suc.IH)
    moreover have "unat (req_id (t ! j)) < unat (req_id (t ! Suc j))"
      using reg_ok_nth_less[OF assms, of j "Suc j"] Suc.prems by simp
    ultimately show ?thesis using le by arith
  qed
qed

lemma prefix_down:
  assumes "reg_ok t" "unat (req_id (t ! j)) = 256 + j" "i \<le> j" "j < length t"
  shows "unat (req_id (t ! i)) = 256 + i"
proof -
  have "256 + i \<le> unat (req_id (t ! i))" using id_lower[OF assms(1), of i] assms by simp
  moreover have "unat (req_id (t ! i)) + (j - i) \<le> unat (req_id (t ! j))"
    using id_gap[OF assms(1) assms(3) assms(4)] .
  ultimately show ?thesis using assms(2,3) by arith
qed

lemma alloc_search_correct:
  assumes ok: "reg_ok t"
  shows "l \<le> h \<Longrightarrow> h \<le> length t \<Longrightarrow> (\<forall>i<l. unat (req_id (t ! i)) = 256 + i) \<Longrightarrow>
         (h < length t \<longrightarrow> unat (req_id (t ! h)) \<noteq> 256 + h) \<Longrightarrow>
         \<exists>n. alloc_search t (of_nat l - 1) (of_nat h) = Some (Inr (of_nat n - 1)) \<and> n \<le> length t \<and>
             (\<forall>i<n. unat (req_id (t ! i)) = 256 + i) \<and>
             (n < length t \<longrightarrow> unat (req_id (t ! n)) \<noteq> 256 + n)"
proof (induction "h - l" arbitrary: l h rule: less_induct)
  case less
  from ok have len: "length t < 2147483648" by (simp add: reg_ok_def)
  with less.prems have hb: "h < 2147483648" "h < 4294967295" by simp_all
  show ?case
  proof (cases "l < h")
    case False
    with less.prems have "l = h" by simp
    moreover have "alloc_search t (of_nat l - 1) (of_nat h) = Some (Inr (of_nat l - 1))"
      using False search_cond[OF less.prems(1) hb(2)] by (subst alloc_search.simps) simp
    ultimately show ?thesis using less.prems by blast
  next
    case True
    define m where "m = (h + l - 1) div 2"
    have mb: "l \<le> m" "m < h" using True by (simp_all add: m_def) 
    then have mlen: "m < length t" "m < 2147483648" using less.prems hb by simp_all
    have mid: "((of_nat h + (of_nat l - 1)) div 2 :: u32) = of_nat m"
      using search_mid[OF True hb(1)] by (simp add: m_def)
    have idx: "index234 t (sint (of_nat m :: u32)) = Some (t ! m)"
      using mlen by (simp add: index234_def count234_def sint_of_nat_small)
    have test: "(req_id (t ! m) = of_nat m + REQUEST_ID_OFFSET) \<longleftrightarrow> unat (req_id (t ! m)) = 256 + m"
      using id_eq_iff[OF mlen(2)] by simp
    have unf: "alloc_search t (of_nat l - 1) (of_nat h) =
        (if unat (req_id (t ! m)) = 256 + m then alloc_search t (of_nat m) (of_nat h)
         else alloc_search t (of_nat l - 1) (of_nat m))"
      using True search_cond[OF less.prems(1) hb(2)]
      by (subst alloc_search.simps) (simp add: mid idx test Let_def)
    show ?thesis
    proof (cases "unat (req_id (t ! m)) = 256 + m")
      case good: True
      have pre: "\<forall>i<Suc m. unat (req_id (t ! i)) = 256 + i"
        using prefix_down[OF ok good _ mlen(1)] by (simp add: less_Suc_eq_le)
      have "\<exists>n. alloc_search t (of_nat (Suc m) - 1) (of_nat h) = Some (Inr (of_nat n - 1)) \<and> n \<le> length t \<and>
             (\<forall>i<n. unat (req_id (t ! i)) = 256 + i) \<and>
             (n < length t \<longrightarrow> unat (req_id (t ! n)) \<noteq> 256 + n)"
        using mb less.prems pre by (intro less.hyps) auto
      then show ?thesis using good by (simp add: unf)
    next
      case bad: False
      have "\<exists>n. alloc_search t (of_nat l - 1) (of_nat m) = Some (Inr (of_nat n - 1)) \<and> n \<le> length t \<and>
             (\<forall>i<n. unat (req_id (t ! i)) = 256 + i) \<and>
             (n < length t \<longrightarrow> unat (req_id (t ! n)) \<noteq> 256 + n)"
        using mb mlen less.prems bad by (intro less.hyps) auto
      then show ?thesis using bad by (simp add: unf)
    qed
  qed
qed


lemma find234_None: "find234 t k = None \<longleftrightarrow> k \<notin> ids t"
  by (auto simp: find234_def ids_def find_None_iff)

lemma prefix_unused:
  assumes ok: "reg_ok t" and n: "n \<le> length t"
    and pre: "\<forall>i<n. unat (req_id (t ! i)) = 256 + i"
    and stop: "n < length t \<longrightarrow> unat (req_id (t ! n)) \<noteq> 256 + n"
  shows "of_nat n + REQUEST_ID_OFFSET \<notin> ids t"
proof
  assume "of_nat n + REQUEST_ID_OFFSET \<in> ids t"
  then obtain j where j: "j < length t" "req_id (t ! j) = of_nat n + REQUEST_ID_OFFSET"
    by (auto simp: ids_def in_set_conv_nth)
  from ok n have nb: "n < 2147483648" by (simp add: reg_ok_def)
  from j(2) have u: "unat (req_id (t ! j)) = 256 + n" using id_eq_iff[OF nb] by simp
  have "256 + j \<le> unat (req_id (t ! j))" using id_lower[OF ok j(1)] .
  with u have "j \<le> n" by simp
  then consider "j < n" | "j = n" by arith
  then show False
  proof cases
    case 1
    with pre u show False by simp
  next
    case 2
    with j(1) stop u show False by simp
  qed
qed

lemma prefix_used:
  assumes ok: "reg_ok t" and n: "n \<le> length t"
    and pre: "\<forall>i<n. unat (req_id (t ! i)) = 256 + i"
    and k: "REQUEST_ID_OFFSET \<le> k" "k < of_nat n + REQUEST_ID_OFFSET"
  shows "k \<in> ids t"
proof -
  from ok n have nb: "n < 2147483648" by (simp add: reg_ok_def)
  have "unat (of_nat n + REQUEST_ID_OFFSET :: u32) = 256 + n"
    using id_eq_iff[OF nb, of "of_nat n + REQUEST_ID_OFFSET"] by simp
  with k have kb: "256 \<le> unat k" "unat k < 256 + n"
    by (simp_all add: word_le_nat_alt word_less_nat_alt REQUEST_ID_OFFSET_def)
  define i where "i = unat k - 256"
  have i: "i < n" "unat k = 256 + i" using kb by (simp_all add: i_def)
  with pre have "unat (req_id (t ! i)) = unat k" by simp
  then have "req_id (t ! i) = k" by (simp add: word_unat_eq_iff)
  moreover have "t ! i \<in> set t" using i(1) n by simp
  ultimately show ?thesis by (auto simp: ids_def)
qed

lemma sftp_alloc_request_least:
  assumes ok: "reg_ok (registry st)"
  shows "\<exists>r. sftp_alloc_request st =
               Inr (r, st\<lparr>sftp_requests := Some (insort_key req_id r (registry st))\<rparr>) \<and>
             registered r = 0 \<and> userdata r = None \<and>
             REQUEST_ID_OFFSET \<le> req_id r \<and> req_id r \<notin> ids (registry st) \<and>
             (\<forall>k. REQUEST_ID_OFFSET \<le> k \<and> k < req_id r \<longrightarrow> k \<in> ids (registry st))"
proof -
  define t where "t = registry st"
  have ok': "reg_ok t" using ok by (simp add: t_def)
  have "\<exists>n. alloc_search t (of_nat 0 - 1) (of_nat (length t)) = Some (Inr (of_nat n - 1)) \<and> n \<le> length t \<and>
             (\<forall>i<n. unat (req_id (t ! i)) = 256 + i) \<and>
             (n < length t \<longrightarrow> unat (req_id (t ! n)) \<noteq> 256 + n)"
    by (rule alloc_search_correct[OF ok']) simp_all
  then obtain n where n: "alloc_search t (- 1) (of_nat (length t)) = Some (Inr (of_nat n - 1))"
      "n \<le> length t" "\<forall>i<n. unat (req_id (t ! i)) = 256 + i"
      "n < length t \<longrightarrow> unat (req_id (t ! n)) \<noteq> 256 + n"
    by auto
  from ok' n(2) have nb: "n < 2147483648" by (simp add: reg_ok_def)
  define r where "r = \<lparr>req_id = of_nat n + REQUEST_ID_OFFSET, registered = 0, userdata = None\<rparr>"
  have unused: "req_id r \<notin> ids t"
    using prefix_unused[OF ok' n(2) n(3) n(4)] by (simp add: r_def)
  have "sftp_alloc_request st = Inr (r, st\<lparr>sftp_requests := Some (insort_key req_id r t)\<rparr>)"
    using n(1) unused
    by (simp add: sftp_alloc_request_def Let_def count234_def t_def[symmetric, unfolded registry_def]
        find234_None add234_def r_def)
  moreover have "REQUEST_ID_OFFSET \<le> req_id r"
    using id_eq_iff[OF nb, of "req_id r"]
    by (simp add: r_def word_le_nat_alt REQUEST_ID_OFFSET_def)
  moreover have "\<forall>k. REQUEST_ID_OFFSET \<le> k \<and> k < req_id r \<longrightarrow> k \<in> ids t"
    using prefix_used[OF ok' n(2) n(3)] by (simp add: r_def)
  ultimately show ?thesis using unused by (auto simp: r_def t_def)
qed


lemma unat_offset: "unat REQUEST_ID_OFFSET = 256"
  by (simp add: REQUEST_ID_OFFSET_def)

lemma unat_prefix_id:
  assumes "i < 2147483648"
  shows "unat (REQUEST_ID_OFFSET + of_nat i :: u32) = 256 + i"
  using id_eq_iff[OF assms, of "REQUEST_ID_OFFSET + of_nat i"] by (simp add: add.commute)

lemma prefix_nth:
  assumes "map req_id t = map (\<lambda>i. REQUEST_ID_OFFSET + of_nat i) [0..<n]" "i < n"
  shows "length t = n" "req_id (t ! i) = REQUEST_ID_OFFSET + of_nat i"
proof -
  from assms(1) have "length (map req_id t) = length (map (\<lambda>i. REQUEST_ID_OFFSET + of_nat i :: u32) [0..<n])"
    by simp
  then show l: "length t = n" by simp
  from assms(1) have "map req_id t ! i = map (\<lambda>i. REQUEST_ID_OFFSET + of_nat i) [0..<n] ! i" by simp
  then show "req_id (t ! i) = REQUEST_ID_OFFSET + of_nat i" using assms(2) l by simp
qed

lemma prefix_reg_ok:
  assumes n: "n < 2147483648"
    and t: "map req_id t = map (\<lambda>i. REQUEST_ID_OFFSET + of_nat i) [0..<n]"
  shows "reg_ok t"
proof -
  have l: "length t = n"
    using arg_cong[OF t, of length] by simp
  have u: "\<And>i. i < n \<Longrightarrow> unat (req_id (t ! i)) = 256 + i"
    using prefix_nth(2)[OF t] unat_prefix_id n by simp
  have "sorted_wrt (\<lambda>a b. req_id a < req_id b) t"
    unfolding sorted_wrt_iff_nth_less using u l by (auto simp: word_less_nat_alt)
  moreover have "\<forall>r \<in> set t. REQUEST_ID_OFFSET \<le> req_id r"
    using u l by (auto simp: in_set_conv_nth word_le_nat_alt REQUEST_ID_OFFSET_def)
  ultimately show ?thesis using l n by (simp add: reg_ok_def)
qed

lemma prefix_ids:
  assumes n: "n < 2147483648"
    and t: "map req_id t = map (\<lambda>i. REQUEST_ID_OFFSET + of_nat i) [0..<n]"
  shows "ids t = {w. 256 \<le> unat w \<and> unat w < 256 + n}"
proof -
  have l: "length t = n"
    using arg_cong[OF t, of length] by simp
  have u: "\<And>i. i < n \<Longrightarrow> unat (req_id (t ! i)) = 256 + i"
    using prefix_nth(2)[OF t] unat_prefix_id n by simp
  show ?thesis
  proof (intro set_eqI iffI)
    fix w :: u32 assume "w \<in> ids t"
    then obtain i where "i < n" "req_id (t ! i) = w" using l by (auto simp: ids_def in_set_conv_nth)
    with u[of i] show "w \<in> {w. 256 \<le> unat w \<and> unat w < 256 + n}" by auto
  next
    fix w :: u32 assume "w \<in> {w. 256 \<le> unat w \<and> unat w < 256 + n}"
    then have w: "unat w - 256 < n" "unat w = 256 + (unat w - 256)" by auto
    then have "unat (req_id (t ! (unat w - 256))) = unat w" using u by simp
    then have "req_id (t ! (unat w - 256)) = w" by (simp add: word_unat_eq_iff)
    moreover have "t ! (unat w - 256) \<in> set t" using w(1) l by simp
    ultimately show "w \<in> ids t" unfolding ids_def by (metis imageI)
  qed
qed

lemma set_del234: "set (del234 t k) \<subseteq> set t"
  by (induction t) auto

lemma reg_ok_del234:
  assumes "reg_ok t"
  shows "reg_ok (del234 t k)" "ids (del234 t k) = ids t - {k}"
proof -
  have s: "sorted_wrt (\<lambda>a b. req_id a < req_id b) t \<Longrightarrow>
        sorted_wrt (\<lambda>a b. req_id a < req_id b) (del234 t k) \<and> ids (del234 t k) = ids t - {k}"
  proof (induction t)
    case Nil
    then show ?case by (simp add: ids_def)
  next
    case (Cons r t)
    then have ih: "sorted_wrt (\<lambda>a b. req_id a < req_id b) (del234 t k)" "ids (del234 t k) = ids t - {k}"
      by simp_all
    from Cons.prems have lt: "\<forall>x\<in>set t. req_id r < req_id x" by simp
    show ?case
    proof (cases "req_id r = k")
      case True
      with lt have "k \<notin> ids t" by (auto simp: ids_def)
      with True Cons.prems show ?thesis by (auto simp: ids_def)
    next
      case False
      have "\<forall>x\<in>set (del234 t k). req_id r < req_id x" using lt set_del234[of t k] by blast
      with False ih show ?thesis by (auto simp: ids_def)
    qed
  qed
  from assms have "sorted_wrt (\<lambda>a b. req_id a < req_id b) t" by (simp add: reg_ok_def)
  from s[OF this] show "ids (del234 t k) = ids t - {k}" by simp
  have "length (del234 t k) \<le> length t" by (induction t) auto
  with assms s set_del234[of t k] show "reg_ok (del234 t k)"
    by (auto simp: reg_ok_def)
qed

lemma least_unused_unique:
  fixes a b :: u32
  assumes "a \<notin> S" "\<forall>k. x \<le> k \<and> k < a \<longrightarrow> k \<in> S" "x \<le> a"
    and "b \<notin> S" "\<forall>k. x \<le> k \<and> k < b \<longrightarrow> k \<in> S" "x \<le> b"
  shows "a = b"
  using assms by (metis linorder_neqE)


text \<open>
  C1. First-fit allocation. For a registry with ascending, distinct ids, none below
  256, \<^verbatim>\<open>sftp_alloc_request\<close> returns: its descriptor is unregistered with no
  userdata, its id is at least 256 and not in the registry, every id from 256 up to
  it is in the registry, and the descriptor is inserted. In particular, when the
  registry holds exactly the ids 256, ..., 256+n-1 the new id is 256+n, and when
  256+k with k < n has been removed from that registry the new id is 256+k.
\<close>

theorem sftp_alloc_request_first_fit:
  "(reg_ok (registry st) \<longrightarrow>
      (\<exists>r. sftp_alloc_request st =
              Inr (r, st\<lparr>sftp_requests := Some (insort_key req_id r (registry st))\<rparr>) \<and>
            registered r = 0 \<and> userdata r = None \<and>
            REQUEST_ID_OFFSET \<le> req_id r \<and> req_id r \<notin> ids (registry st) \<and>
            (\<forall>k. REQUEST_ID_OFFSET \<le> k \<and> k < req_id r \<longrightarrow> k \<in> ids (registry st)) \<and>
            ids (insort_key req_id r (registry st)) = insert (req_id r) (ids (registry st)))) \<and>
   (n < 2 ^ 31 \<and> map req_id (registry st) = map (\<lambda>i. REQUEST_ID_OFFSET + of_nat i) [0..<n] \<longrightarrow>
      (\<exists>r st'. sftp_alloc_request st = Inr (r, st') \<and> req_id r = REQUEST_ID_OFFSET + of_nat n)) \<and>
   (k < n \<and> n < 2 ^ 31 \<and> map req_id t = map (\<lambda>i. REQUEST_ID_OFFSET + of_nat i) [0..<n] \<and>
    sftp_requests st = Some (del234 t (REQUEST_ID_OFFSET + of_nat k)) \<longrightarrow>
      (\<exists>r st'. sftp_alloc_request st = Inr (r, st') \<and> req_id r = REQUEST_ID_OFFSET + of_nat k))"
proof (intro conjI impI)
  assume ok: "reg_ok (registry st)"
  from sftp_alloc_request_least[OF ok]
  show "\<exists>r. sftp_alloc_request st =
              Inr (r, st\<lparr>sftp_requests := Some (insort_key req_id r (registry st))\<rparr>) \<and>
            registered r = 0 \<and> userdata r = None \<and>
            REQUEST_ID_OFFSET \<le> req_id r \<and> req_id r \<notin> ids (registry st) \<and>
            (\<forall>k. REQUEST_ID_OFFSET \<le> k \<and> k < req_id r \<longrightarrow> k \<in> ids (registry st)) \<and>
            ids (insort_key req_id r (registry st)) = insert (req_id r) (ids (registry st))"
    by (auto simp: ids_def set_insort_key)
next
  assume a: "n < 2 ^ 31 \<and> map req_id (registry st) = map (\<lambda>i. REQUEST_ID_OFFSET + of_nat i) [0..<n]"
  then have n: "n < 2147483648" and t: "map req_id (registry st) = map (\<lambda>i. REQUEST_ID_OFFSET + of_nat i) [0..<n]"
    by simp_all
  have ok: "reg_ok (registry st)" by (rule prefix_reg_ok[OF n t])
  from sftp_alloc_request_least[OF ok] obtain r st' where
    r: "sftp_alloc_request st = Inr (r, st')" "REQUEST_ID_OFFSET \<le> req_id r" "req_id r \<notin> ids (registry st)"
      "\<forall>k. REQUEST_ID_OFFSET \<le> k \<and> k < req_id r \<longrightarrow> k \<in> ids (registry st)"
    by blast
  let ?b = "REQUEST_ID_OFFSET + of_nat n :: u32"
  have ub: "unat ?b = 256 + n" by (rule unat_prefix_id[OF n])
  have b1: "?b \<notin> ids (registry st)" by (simp add: prefix_ids[OF n t] ub)
  have b2: "\<forall>k. REQUEST_ID_OFFSET \<le> k \<and> k < ?b \<longrightarrow> k \<in> ids (registry st)"
    by (simp add: prefix_ids[OF n t] word_le_nat_alt word_less_nat_alt ub unat_offset)
  have b3: "REQUEST_ID_OFFSET \<le> ?b" by (simp add: word_le_nat_alt ub unat_offset)
  have "req_id r = ?b" by (rule least_unused_unique[OF r(3) r(4) r(2) b1 b2 b3])
  with r(1) show "\<exists>r st'. sftp_alloc_request st = Inr (r, st') \<and> req_id r = REQUEST_ID_OFFSET + of_nat n"
    by blast
next
  assume a: "k < n \<and> n < 2 ^ 31 \<and> map req_id t = map (\<lambda>i. REQUEST_ID_OFFSET + of_nat i) [0..<n] \<and>
    sftp_requests st = Some (del234 t (REQUEST_ID_OFFSET + of_nat k))"
  then have k: "k < n" and n: "n < 2147483648"
    and t: "map req_id t = map (\<lambda>i. REQUEST_ID_OFFSET + of_nat i) [0..<n]"
    and st: "registry st = del234 t (REQUEST_ID_OFFSET + of_nat k)"
    by (simp_all add: registry_def)
  let ?b = "REQUEST_ID_OFFSET + of_nat k :: u32"
  have okt: "reg_ok t" by (rule prefix_reg_ok[OF n t])
  have ok: "reg_ok (registry st)" and i: "ids (registry st) = ids t - {?b}"
    using reg_ok_del234[OF okt, of ?b] by (simp_all add: st)
  from sftp_alloc_request_least[OF ok] obtain r st' where
    r: "sftp_alloc_request st = Inr (r, st')" "REQUEST_ID_OFFSET \<le> req_id r" "req_id r \<notin> ids (registry st)"
      "\<forall>k. REQUEST_ID_OFFSET \<le> k \<and> k < req_id r \<longrightarrow> k \<in> ids (registry st)"
    by blast
  have ub: "unat ?b = 256 + k" using unat_prefix_id[of k] k n by simp
  have b1: "?b \<notin> ids (registry st)" by (simp add: i)
  have b2: "\<forall>j. REQUEST_ID_OFFSET \<le> j \<and> j < ?b \<longrightarrow> j \<in> ids (registry st)"
    using k by (auto simp: i prefix_ids[OF n t] word_le_nat_alt word_less_nat_alt ub unat_offset)
  have b3: "REQUEST_ID_OFFSET \<le> ?b" by (simp add: word_le_nat_alt ub unat_offset)
  have "req_id r = ?b" by (rule least_unused_unique[OF r(3) r(4) r(2) b1 b2 b3])
  with r(1) show "\<exists>r st'. sftp_alloc_request st = Inr (r, st') \<and> req_id r = REQUEST_ID_OFFSET + of_nat k"
    by blast
qed

theorem sftp_alloc_request_first_fit_witness:
  "reg_ok (registry alloc_ex1) \<and>
   map req_id (registry alloc_ex1) = map (\<lambda>i. REQUEST_ID_OFFSET + of_nat i) [0..<3] \<and>
   (\<exists>r st'. sftp_alloc_request alloc_ex1 = Inr (r, st') \<and> req_id r = 259) \<and>
   sftp_requests alloc_ex2 = Some (del234 (registry alloc_ex1) (REQUEST_ID_OFFSET + of_nat 1)) \<and>
   (\<exists>r st'. sftp_alloc_request alloc_ex2 = Inr (r, st') \<and> req_id r = 257)"
proof -
  have p: "map req_id (registry alloc_ex1) = map (\<lambda>i. REQUEST_ID_OFFSET + of_nat i) [0..<3]"
    by (simp add: alloc_ex1_def st0_def registry_def mk_req_def REQUEST_ID_OFFSET_def upt_rec)
  have ok: "reg_ok (registry alloc_ex1)"
    by (simp add: alloc_ex1_def st0_def registry_def mk_req_def REQUEST_ID_OFFSET_def reg_ok_def)
  have d: "sftp_requests alloc_ex2 = Some (del234 (registry alloc_ex1) (REQUEST_ID_OFFSET + of_nat 1))"
    by (simp add: alloc_ex1_def alloc_ex2_def st0_def registry_def mk_req_def REQUEST_ID_OFFSET_def)
  have a: "\<exists>r st'. sftp_alloc_request alloc_ex1 = Inr (r, st') \<and> req_id r = REQUEST_ID_OFFSET + of_nat 3"
    using sftp_alloc_request_first_fit [where st = alloc_ex1 and n = 3] p by simp
  have b: "\<exists>r st'. sftp_alloc_request alloc_ex2 = Inr (r, st') \<and> req_id r = REQUEST_ID_OFFSET + of_nat 1"
    using sftp_alloc_request_first_fit [where st = alloc_ex2 and n = 3 and k = 1
        and t = "registry alloc_ex1"] p d by simp
  from a b ok p d show ?thesis by (simp add: REQUEST_ID_OFFSET_def)
qed

subsection \<open>String decoding\<close>

lemma be32_zero: "be32 0 0 0 0 = 0"
  by (simp add: be32_def)

text \<open>
  C7, as the claim states it, fails: the packet \<open>getstring_big_pkt\<close> has its cursor in
  bounds, 2^31 + 4 bytes remain, the declared length is 0 (not negative, and not more
  than the 2^31 bytes that remain after the length word), and
  \<^verbatim>\<open>sftp_pkt_getstring\<close> returns 0: the remaining byte count is compared after a
  cast to \<^verbatim>\<open>int\<close>, which makes 2^31 negative.
\<close>

theorem sftp_pkt_getstring_counterexample:
  "pkt_wf getstring_big_pkt \<and>
   sftp_pkt_getstring getstring_big_pkt =
     Inr (0, None, Some 0, getstring_big_pkt\<lparr>pkt_savedpos := 4\<rparr>) \<and>
   \<not> pkt_length getstring_big_pkt - pkt_savedpos getstring_big_pkt < 4 \<and>
   GET_32BIT (pkt_data getstring_big_pkt) (unat (pkt_savedpos getstring_big_pkt)) = Inr 0 \<and>
   \<not> sint (0 :: u32) < 0 \<and>
   \<not> uint (pkt_length getstring_big_pkt - (pkt_savedpos getstring_big_pkt + 4)) < sint (0 :: u32)"
  by (simp add: pkt_wf_def getstring_big_pkt_def sftp_pkt_getstring_def GET_32BIT_def be32_zero)

lemma getstring_wf_cases:
  assumes wf: "pkt_wf pkt"
  shows "(pkt_length pkt - pkt_savedpos pkt < 4 \<longrightarrow>
            sftp_pkt_getstring pkt = Inr (0, None, None, pkt)) \<and>
         (\<not> pkt_length pkt - pkt_savedpos pkt < 4 \<longrightarrow>
            (\<exists>v. GET_32BIT (pkt_data pkt) (unat (pkt_savedpos pkt)) = Inr v \<and>
                 (if sint v < 0 \<or> uint (pkt_length pkt - (pkt_savedpos pkt + 4)) < sint v \<or>
                     2 ^ 31 \<le> uint (pkt_length pkt - (pkt_savedpos pkt + 4))
                  then sftp_pkt_getstring pkt =
                         Inr (0, None, Some 0, pkt\<lparr>pkt_savedpos := pkt_savedpos pkt + 4\<rparr>)
                  else sftp_pkt_getstring pkt =
                         Inr (1, Some (unat (pkt_savedpos pkt) + 4), Some (int (unat v)),
                              pkt\<lparr>pkt_savedpos := pkt_savedpos pkt + 4 + v\<rparr>) \<and>
                       unat (pkt_savedpos pkt + 4 + v) = unat (pkt_savedpos pkt) + 4 + unat v \<and>
                       unat (pkt_savedpos pkt) + 4 + unat v \<le> unat (pkt_length pkt) \<and>
                       unat (pkt_length pkt) \<le> length (pkt_data pkt))))"
proof (intro conjI impI)
  assume "pkt_length pkt - pkt_savedpos pkt < 4"
  then show "sftp_pkt_getstring pkt = Inr (0, None, None, pkt)"
    by (simp add: sftp_pkt_getstring_def)
next
  assume a: "\<not> pkt_length pkt - pkt_savedpos pkt < 4"
  obtain v where g: "GET_32BIT (pkt_data pkt) (unat (pkt_savedpos pkt)) = Inr v"
    using GET_32BIT_wf[OF wf a] by blast
  let ?s = "pkt_savedpos pkt" and ?l = "pkt_length pkt"
  have b4: "unat ?s + 4 \<le> unat ?l" by (rule pkt_wf_read4(2)[OF wf a])
  have lb: "unat ?l < 4294967296" by (rule unat32_bound)
  have s4: "unat (?s + 4) = unat ?s + 4"
    using b4 lb by (simp add: unat_word_ariths)
  have le: "?s + 4 \<le> ?l" using b4 s4 by (simp add: word_le_nat_alt)
  have r: "unat (?l - (?s + 4)) = unat ?l - (unat ?s + 4)"
    using le by (simp add: unat_sub s4)
  let ?R = "?l - (?s + 4)"
  have sR: "sint ?R = (if uint ?R < 2147483648 then uint ?R else uint ?R - 4294967296)"
    by (rule sint_u32)
  have sv: "sint v = (if uint v < 2147483648 then uint v else uint v - 4294967296)"
    by (rule sint_u32)
  have vb: "0 \<le> uint v" "uint v < 4294967296" "0 \<le> uint ?R" "uint ?R < 4294967296"
    using uint32_bound[of v] uint32_bound[of ?R] by simp_all
  let ?fail = "sint v < 0 \<or> uint ?R < sint v \<or> 2 ^ 31 \<le> uint ?R"
  have ar: "\<And>R u :: int. 0 \<le> u \<Longrightarrow> u < 4294967296 \<Longrightarrow> 0 \<le> R \<Longrightarrow> R < 4294967296 \<Longrightarrow>
      ((if R < 2147483648 then R else R - 4294967296) < (if u < 2147483648 then u else u - 4294967296) \<or>
       (if u < 2147483648 then u else u - 4294967296) < 0) \<longleftrightarrow>
      ((if u < 2147483648 then u else u - 4294967296) < 0 \<or>
       R < (if u < 2147483648 then u else u - 4294967296) \<or> 2147483648 \<le> R)"
    by (auto split: if_splits)
  have c: "(sint ?R < sint v \<or> sint v < 0) \<longleftrightarrow> ?fail"
    using ar[OF vb] by (simp only: sR sv) simp
  have res: "sftp_pkt_getstring pkt =
      (if ?fail then Inr (0, None, Some 0, pkt\<lparr>pkt_savedpos := ?s + 4\<rparr>)
       else Inr (1, Some (unat (?s + 4)), Some (sint v),
                 pkt\<lparr>pkt_savedpos := ?s + 4 + word_of_int (sint v)\<rparr>))"
    using a g c by (simp add: sftp_pkt_getstring_def Let_def)
  have ok: "\<not> ?fail \<Longrightarrow> sint v = int (unat v) \<and> unat (?s + 4 + v) = unat ?s + 4 + unat v \<and>
             unat ?s + 4 + unat v \<le> unat ?l"
  proof -
    assume nf: "\<not> ?fail"
    have ar2: "\<And>R u :: int. 0 \<le> u \<Longrightarrow> u < 4294967296 \<Longrightarrow>
       \<not> ((if u < 2147483648 then u else u - 4294967296) < 0 \<or>
          R < (if u < 2147483648 then u else u - 4294967296) \<or> 2147483648 \<le> R) \<Longrightarrow>
       (if u < 2147483648 then u else u - 4294967296) = u \<and> u \<le> R"
      by (auto split: if_splits)
    from nf have "\<not> ((if uint v < 2147483648 then uint v else uint v - 4294967296) < 0 \<or>
          uint ?R < (if uint v < 2147483648 then uint v else uint v - 4294967296) \<or> 2147483648 \<le> uint ?R)"
      by (simp only: sv) simp
    from ar2[OF vb(1) vb(2) this] have 1: "sint v = uint v" "uint v \<le> uint ?R"
      by (simp_all only: sv)
    from 1(2) have "unat v \<le> unat ?R" by (simp add: word_le_nat_alt[symmetric] word_le_def)
    then have 2: "unat v \<le> unat ?l - (unat ?s + 4)" using r by simp
    then have 3: "unat ?s + 4 + unat v \<le> unat ?l" using b4 by arith
    have "unat ?s + 4 + unat v < 2 ^ LENGTH(32)" using 3 lb by simp
    then have "unat (?s + 4) + unat v < 2 ^ LENGTH(32)" by (simp only: s4)
    then have 4: "unat (?s + 4 + v) = unat (?s + 4) + unat v"
      by (simp only: unat_add_lem[THEN iffD1])
    have 5: "sint v = int (unat v)" using 1(1) by (simp only: uint_nat)
    from 3 4 5 s4 show ?thesis by simp
  qed
  have len: "unat ?l \<le> length (pkt_data pkt)" using wf by (simp add: pkt_wf_def)
  show "\<exists>v. GET_32BIT (pkt_data pkt) (unat (pkt_savedpos pkt)) = Inr v \<and>
                 (if sint v < 0 \<or> uint (pkt_length pkt - (pkt_savedpos pkt + 4)) < sint v \<or>
                     2 ^ 31 \<le> uint (pkt_length pkt - (pkt_savedpos pkt + 4))
                  then sftp_pkt_getstring pkt =
                         Inr (0, None, Some 0, pkt\<lparr>pkt_savedpos := pkt_savedpos pkt + 4\<rparr>)
                  else sftp_pkt_getstring pkt =
                         Inr (1, Some (unat (pkt_savedpos pkt) + 4), Some (int (unat v)),
                              pkt\<lparr>pkt_savedpos := pkt_savedpos pkt + 4 + v\<rparr>) \<and>
                       unat (pkt_savedpos pkt + 4 + v) = unat (pkt_savedpos pkt) + 4 + unat v \<and>
                       unat (pkt_savedpos pkt) + 4 + unat v \<le> unat (pkt_length pkt) \<and>
                       unat (pkt_length pkt) \<le> length (pkt_data pkt))"
  proof (rule exI[of _ v], cases ?fail)
    case True
    then show "GET_32BIT (pkt_data pkt) (unat (pkt_savedpos pkt)) = Inr v \<and>
                 (if ?fail
                  then sftp_pkt_getstring pkt =
                         Inr (0, None, Some 0, pkt\<lparr>pkt_savedpos := pkt_savedpos pkt + 4\<rparr>)
                  else sftp_pkt_getstring pkt =
                         Inr (1, Some (unat (pkt_savedpos pkt) + 4), Some (int (unat v)),
                              pkt\<lparr>pkt_savedpos := pkt_savedpos pkt + 4 + v\<rparr>) \<and>
                       unat (pkt_savedpos pkt + 4 + v) = unat (pkt_savedpos pkt) + 4 + unat v \<and>
                       unat (pkt_savedpos pkt) + 4 + unat v \<le> unat (pkt_length pkt) \<and>
                       unat (pkt_length pkt) \<le> length (pkt_data pkt))"
      using g res by simp
  next
    case False
    then show "GET_32BIT (pkt_data pkt) (unat (pkt_savedpos pkt)) = Inr v \<and>
                 (if ?fail
                  then sftp_pkt_getstring pkt =
                         Inr (0, None, Some 0, pkt\<lparr>pkt_savedpos := pkt_savedpos pkt + 4\<rparr>)
                  else sftp_pkt_getstring pkt =
                         Inr (1, Some (unat (pkt_savedpos pkt) + 4), Some (int (unat v)),
                              pkt\<lparr>pkt_savedpos := pkt_savedpos pkt + 4 + v\<rparr>) \<and>
                       unat (pkt_savedpos pkt + 4 + v) = unat (pkt_savedpos pkt) + 4 + unat v \<and>
                       unat (pkt_savedpos pkt) + 4 + unat v \<le> unat (pkt_length pkt) \<and>
                       unat (pkt_length pkt) \<le> length (pkt_data pkt))"
      using g res ok[OF False] len s4 by simp
  qed
qed

text \<open>
  C7, amended. For a packet whose buffer holds \<open>pkt_length\<close> bytes and whose cursor is
  within them, \<^verbatim>\<open>sftp_pkt_getstring\<close> never reads outside the buffer. With fewer
  than 4 bytes left it returns 0 and leaves the cursor. Otherwise it reads the
  length word \<open>v\<close> and returns 0 exactly when \<open>v\<close> is negative as an \<^verbatim>\<open>int\<close>, or
  exceeds the bytes remaining after the length word, or 2^31 or more bytes remain
  after the length word; in these cases the cursor stands after the length word and
  the pointer is \<^verbatim>\<open>NULL\<close>. In every other case it returns 1 with a pointer to the
  byte after the length word and the declared length, the cursor moves past the
  string, and the string lies within the buffer.
\<close>

theorem sftp_pkt_getstring_bounds:
  assumes wf: "pkt_wf pkt"
  shows "(pkt_length pkt - pkt_savedpos pkt < 4 \<longrightarrow>
            sftp_pkt_getstring pkt = Inr (0, None, None, pkt)) \<and>
         (\<not> pkt_length pkt - pkt_savedpos pkt < 4 \<longrightarrow>
            (\<exists>v. GET_32BIT (pkt_data pkt) (unat (pkt_savedpos pkt)) = Inr v \<and>
                 (if sint v < 0 \<or> uint (pkt_length pkt - (pkt_savedpos pkt + 4)) < sint v \<or>
                     2 ^ 31 \<le> uint (pkt_length pkt - (pkt_savedpos pkt + 4))
                  then sftp_pkt_getstring pkt =
                         Inr (0, None, Some 0, pkt\<lparr>pkt_savedpos := pkt_savedpos pkt + 4\<rparr>)
                  else sftp_pkt_getstring pkt =
                         Inr (1, Some (unat (pkt_savedpos pkt) + 4), Some (int (unat v)),
                              pkt\<lparr>pkt_savedpos := pkt_savedpos pkt + 4 + v\<rparr>) \<and>
                       unat (pkt_savedpos pkt + 4 + v) = unat (pkt_savedpos pkt) + 4 + unat v \<and>
                       unat (pkt_savedpos pkt) + 4 + unat v \<le> unat (pkt_length pkt) \<and>
                       unat (pkt_length pkt) \<le> length (pkt_data pkt))))"
  using getstring_wf_cases [OF wf] .

theorem sftp_pkt_getstring_bounds_witness:
  "pkt_wf (recv_pkt 103 [0, 0, 0, 2, 97, 98]) \<and>
   sftp_pkt_getstring (recv_pkt 103 [0, 0, 0, 2, 97, 98]) =
     Inr (1, Some 5, Some 2, (recv_pkt 103 [0, 0, 0, 2, 97, 98])\<lparr>pkt_savedpos := 7\<rparr>) \<and>
   pkt_wf (recv_pkt 103 [0, 0, 0, 5, 97, 98]) \<and>
   sftp_pkt_getstring (recv_pkt 103 [0, 0, 0, 5, 97, 98]) =
     Inr (0, None, Some 0, (recv_pkt 103 [0, 0, 0, 5, 97, 98])\<lparr>pkt_savedpos := 5\<rparr>) \<and>
   pkt_wf (recv_pkt 103 [0, 0, 0]) \<and>
   sftp_pkt_getstring (recv_pkt 103 [0, 0, 0]) = Inr (0, None, None, recv_pkt 103 [0, 0, 0])"
  using sftp_pkt_getstring_bounds [of "recv_pkt 103 [0, 0, 0, 2, 97, 98]"]
    sftp_pkt_getstring_bounds [of "recv_pkt 103 [0, 0, 0, 5, 97, 98]"]
    sftp_pkt_getstring_bounds [of "recv_pkt 103 [0, 0, 0]"]
  by (simp add: pkt_wf_def recv_pkt_def GET_32BIT_def be32_def sftp_pkt_getstring_def)

subsection \<open>Reply correlation\<close>

text \<open>
  C3. On a packet with fewer than four bytes after the type byte,
  \<^verbatim>\<open>sftp_find_request\<close> returns \<^verbatim>\<open>NULL\<close> and records the error, but the packet
  is not passed to \<^verbatim>\<open>sftp_pkt_free\<close>: it is still the caller's. On the
  neighbouring path (an id that is not in the registry) the packet is freed.
\<close>

theorem sftp_find_request_short_packet_kept:
  "sftp_find_request find_ex_st (Some (recv_pkt 101 [0, 1])) =
     Inr (None, fxp_internal_error find_ex_st ''did not receive a valid SFTP packet\<newline>'',
          Some (recv_pkt 101 [0, 1]), Pkt_kept) \<and>
   sftp_find_request find_ex_st (Some (recv_pkt 101 [0, 0, 1, 1])) =
     Inr (None, fxp_internal_error find_ex_st ''request ID mismatch\<newline>'',
          Some ((recv_pkt 101 [0, 0, 1, 1])\<lparr>pkt_savedpos := 5\<rparr>), Pkt_freed)"
  by (simp add: sftp_find_request_def recv_pkt_def find_ex_st_def st0_def mk_req_def
      sftp_pkt_getuint32_def GET_32BIT_def be32_def find234_def)

subsection \<open>READDIR replies\<close>

text \<open>
  C8. \<^verbatim>\<open>fxp_readdir_recv\<close> on a well-formed NAME packet, for any value of
  \<^verbatim>\<open>sizeof(struct fxp_name)\<close>. When the count cannot be read, or exceeds the bytes
  remaining after it divided by 12, the function returns \<^verbatim>\<open>NULL\<close> with error type
  -1 and the message "malformed FXP_NAME packet", the packet is freed and no name
  array has been allocated. When the count passes that test but exceeds
  \<^verbatim>\<open>INT_MAX\<close> divided by the record size, the function returns \<^verbatim>\<open>NULL\<close> with
  "unreasonably large FXP_NAME packet", again before the allocation. Whenever the
  array is allocated, its element count is the declared count, twelve times the
  count fits in the remaining bytes, and count times record size does not exceed
  \<^verbatim>\<open>INT_MAX\<close>.
\<close>

theorem fxp_readdir_recv_count_validation:
  assumes wf: "pkt_wf pktin" and ty: "pkt_type pktin = SSH_FXP_NAME"
  shows "(pkt_length pktin - pkt_savedpos pktin < 4 \<longrightarrow>
            fxp_readdir_recv sizeof_fxp_name st pktin req =
              Inr (None, st\<lparr>fxp_error_message := ''malformed FXP_NAME packet'', fxp_errtype := - 1\<rparr>,
                   Pkt_freed, None)) \<and>
         (\<not> pkt_length pktin - pkt_savedpos pktin < 4 \<longrightarrow>
            (\<exists>count. GET_32BIT (pkt_data pktin) (unat (pkt_savedpos pktin)) = Inr count \<and>
               ((pkt_length pktin - (pkt_savedpos pktin + 4)) div 12 < count \<longrightarrow>
                  fxp_readdir_recv sizeof_fxp_name st pktin req =
                    Inr (None, st\<lparr>fxp_error_message := ''malformed FXP_NAME packet'',
                                  fxp_errtype := - 1\<rparr>, Pkt_freed, None)) \<and>
               (\<not> (pkt_length pktin - (pkt_savedpos pktin + 4)) div 12 < count \<and>
                nat INT_MAX div sizeof_fxp_name < unat count \<longrightarrow>
                  fxp_readdir_recv sizeof_fxp_name st pktin req =
                    Inr (None, st\<lparr>fxp_error_message := ''unreasonably large FXP_NAME packet'',
                                  fxp_errtype := - 1\<rparr>, Pkt_freed, None)) \<and>
               (\<forall>names st' fate n.
                  fxp_readdir_recv sizeof_fxp_name st pktin req = Inr (names, st', fate, Some n) \<longrightarrow>
                    n = unat count \<and>
                    12 * n \<le> unat (pkt_length pktin) - (unat (pkt_savedpos pktin) + 4) \<and>
                    n * sizeof_fxp_name \<le> nat INT_MAX)))"
proof (intro conjI impI)
  assume "pkt_length pktin - pkt_savedpos pktin < 4"
  then show "fxp_readdir_recv sizeof_fxp_name st pktin req =
              Inr (None, st\<lparr>fxp_error_message := ''malformed FXP_NAME packet'', fxp_errtype := - 1\<rparr>,
                   Pkt_freed, None)"
    using ty by (simp add: fxp_readdir_recv_def sftp_pkt_getuint32_def fxp_internal_error_def)
next
  assume a: "\<not> pkt_length pktin - pkt_savedpos pktin < 4"
  obtain count where g: "GET_32BIT (pkt_data pktin) (unat (pkt_savedpos pktin)) = Inr count"
    using GET_32BIT_wf[OF wf a] by blast
  let ?s = "pkt_savedpos pktin" and ?l = "pkt_length pktin"
  let ?p1 = "pktin\<lparr>pkt_savedpos := ?s + 4\<rparr>"
  have u: "sftp_pkt_getuint32 pktin = Inr (Some (count, ?p1))"
    using a g by (simp add: sftp_pkt_getuint32_def)
  have b4: "unat ?s + 4 \<le> unat ?l" by (rule pkt_wf_read4(2)[OF wf a])
  have s4: "unat (?s + 4) = unat ?s + 4"
    using b4 unat32_bound[of ?l] by (simp add: unat_word_ariths)
  have le: "?s + 4 \<le> ?l" using b4 s4 by (simp add: word_le_nat_alt)
  have r: "unat (?l - (?s + 4)) = unat ?l - (unat ?s + 4)"
    using le by (simp add: unat_sub s4)
  have d: "unat ((?l - (?s + 4)) div 12) = (unat ?l - (unat ?s + 4)) div 12"
    by (simp only: unat_div r) simp
  have unf: "fxp_readdir_recv sizeof_fxp_name st pktin req =
     (if (?l - (?s + 4)) div 12 < count
      then Inr (None, fxp_internal_error st ''malformed FXP_NAME packet'', Pkt_freed, None)
      else if nat INT_MAX div sizeof_fxp_name < unat count
      then Inr (None, fxp_internal_error st ''unreasonably large FXP_NAME packet'', Pkt_freed, None)
      else (case readdir_names (unat count) ?p1 [] of
              Inl f \<Rightarrow> Inl f
            | Inr (None, pkt2) \<Rightarrow>
                Inr (None, fxp_internal_error st ''malformed FXP_NAME packet'',
                     Pkt_struct_freed, Some (unat count))
            | Inr (Some names, pkt2) \<Rightarrow> Inr (Some names, st, Pkt_freed, Some (unat count))))"
    using ty u by (simp add: fxp_readdir_recv_def)
  have alloc: "\<And>names st' fate n.
      fxp_readdir_recv sizeof_fxp_name st pktin req = Inr (names, st', fate, Some n) \<Longrightarrow>
        n = unat count \<and> \<not> (?l - (?s + 4)) div 12 < count \<and>
        \<not> nat INT_MAX div sizeof_fxp_name < unat count"
    unfolding unf by (auto split: if_splits sum.splits option.splits prod.splits)
  have bound: "\<And>names st' fate n.
      fxp_readdir_recv sizeof_fxp_name st pktin req = Inr (names, st', fate, Some n) \<Longrightarrow>
        n = unat count \<and> 12 * n \<le> unat ?l - (unat ?s + 4) \<and> n * sizeof_fxp_name \<le> nat INT_MAX"
  proof -
    fix names st' fate n
    assume "fxp_readdir_recv sizeof_fxp_name st pktin req = Inr (names, st', fate, Some n)"
    from alloc[OF this] have n: "n = unat count" and c1: "count \<le> (?l - (?s + 4)) div 12"
      and c2: "unat count \<le> nat INT_MAX div sizeof_fxp_name" by (simp_all add: not_less)
    from c1 have "unat count \<le> (unat ?l - (unat ?s + 4)) div 12"
      by (simp add: word_le_nat_alt d)
    then have 1: "12 * unat count \<le> unat ?l - (unat ?s + 4)" by arith
    have 2: "unat count * sizeof_fxp_name \<le> nat INT_MAX"
    proof (cases "sizeof_fxp_name = 0")
      case True
      then show ?thesis by simp
    next
      case False
      from c2 have "unat count * sizeof_fxp_name \<le> (nat INT_MAX div sizeof_fxp_name) * sizeof_fxp_name"
        by (rule mult_le_mono1)
      also have "\<dots> \<le> nat INT_MAX" by simp
      finally show ?thesis .
    qed
    from n 1 2 show "n = unat count \<and> 12 * n \<le> unat ?l - (unat ?s + 4) \<and> n * sizeof_fxp_name \<le> nat INT_MAX"
      by simp
  qed
  show "\<exists>count. GET_32BIT (pkt_data pktin) (unat (pkt_savedpos pktin)) = Inr count \<and>
               ((pkt_length pktin - (pkt_savedpos pktin + 4)) div 12 < count \<longrightarrow>
                  fxp_readdir_recv sizeof_fxp_name st pktin req =
                    Inr (None, st\<lparr>fxp_error_message := ''malformed FXP_NAME packet'',
                                  fxp_errtype := - 1\<rparr>, Pkt_freed, None)) \<and>
               (\<not> (pkt_length pktin - (pkt_savedpos pktin + 4)) div 12 < count \<and>
                nat INT_MAX div sizeof_fxp_name < unat count \<longrightarrow>
                  fxp_readdir_recv sizeof_fxp_name st pktin req =
                    Inr (None, st\<lparr>fxp_error_message := ''unreasonably large FXP_NAME packet'',
                                  fxp_errtype := - 1\<rparr>, Pkt_freed, None)) \<and>
               (\<forall>names st' fate n.
                  fxp_readdir_recv sizeof_fxp_name st pktin req = Inr (names, st', fate, Some n) \<longrightarrow>
                    n = unat count \<and>
                    12 * n \<le> unat (pkt_length pktin) - (unat (pkt_savedpos pktin) + 4) \<and>
                    n * sizeof_fxp_name \<le> nat INT_MAX)"
    apply (rule exI[of _ count])
    apply (rule conjI, rule g)
    apply (rule conjI, simp add: unf fxp_internal_error_def)
    apply (rule conjI, simp add: unf fxp_internal_error_def)
    apply (intro allI impI)
    apply (erule bound)
    done
qed


theorem fxp_readdir_recv_count_validation_witness:
  "pkt_wf readdir_ex_pkt \<and> pkt_type readdir_ex_pkt = SSH_FXP_NAME \<and>
   GET_32BIT (pkt_data readdir_ex_pkt) (unat (pkt_savedpos readdir_ex_pkt)) = Inr 1000000 \<and>
   fxp_readdir_recv 40 st0 readdir_ex_pkt (mk_req 256) =
     Inr (None, st0\<lparr>fxp_error_message := ''malformed FXP_NAME packet'', fxp_errtype := - 1\<rparr>,
          Pkt_freed, None) \<and>
   pkt_wf readdir_big_pkt \<and> pkt_type readdir_big_pkt = SSH_FXP_NAME \<and>
   GET_32BIT (pkt_data readdir_big_pkt) (unat (pkt_savedpos readdir_big_pkt)) = Inr 53687092 \<and>
   fxp_readdir_recv 40 st0 readdir_big_pkt (mk_req 256) =
     Inr (None, st0\<lparr>fxp_error_message := ''unreasonably large FXP_NAME packet'', fxp_errtype := - 1\<rparr>,
          Pkt_freed, None)"
proof -
  have w1: "pkt_wf readdir_ex_pkt" "pkt_type readdir_ex_pkt = SSH_FXP_NAME"
    by (simp_all add: pkt_wf_def readdir_ex_pkt_def SSH_FXP_NAME_def)
  have g1: "GET_32BIT (pkt_data readdir_ex_pkt) (unat (pkt_savedpos readdir_ex_pkt)) = Inr 1000000"
    by (simp add: readdir_ex_pkt_def GET_32BIT_def be32_def)
  have w2: "pkt_wf readdir_big_pkt" "pkt_type readdir_big_pkt = SSH_FXP_NAME"
    by (simp_all add: pkt_wf_def readdir_big_pkt_def SSH_FXP_NAME_def)
  have g2: "GET_32BIT (pkt_data readdir_big_pkt) (unat (pkt_savedpos readdir_big_pkt)) = Inr 53687092"
    by (simp add: readdir_big_pkt_def GET_32BIT_def be32_def)
  have r1: "fxp_readdir_recv 40 st0 readdir_ex_pkt (mk_req 256) =
     Inr (None, st0\<lparr>fxp_error_message := ''malformed FXP_NAME packet'', fxp_errtype := - 1\<rparr>,
          Pkt_freed, None)"
    using fxp_readdir_recv_count_validation [OF w1, of 40 st0 "mk_req 256"] g1
    by (simp add: readdir_ex_pkt_def)
  have r2: "fxp_readdir_recv 40 st0 readdir_big_pkt (mk_req 256) =
     Inr (None, st0\<lparr>fxp_error_message := ''unreasonably large FXP_NAME packet'', fxp_errtype := - 1\<rparr>,
          Pkt_freed, None)"
    using fxp_readdir_recv_count_validation [OF w2, of 40 st0 "mk_req 256"] g2
    by (simp add: readdir_big_pkt_def INT_MAX_def)
  from w1 g1 r1 w2 g2 r2 show ?thesis by simp
qed

subsection \<open>Packet construction\<close>

lemma sint_unat_small: "unat (w::u32) < 2147483648 \<Longrightarrow> sint w = int (unat w)"
proof -
  assume "unat w < 2147483648"
  then have "uint w < 2147483648" using uint_nat[of w] by linarith
  then show ?thesis by (simp only: sint_u32 if_True uint_nat)
qed

lemma unat_add_of_nat:
  assumes "unat (a::u32) + n < 4294967296"
  shows "unat (a + of_nat n) = unat a + n"
proof -
  have n: "unat (of_nat n :: u32) = n" using assms by (intro unat_of_nat32) arith
  have "unat a + unat (of_nat n :: u32) < 2 ^ LENGTH(32)" using assms n by simp
  then have "unat (a + of_nat n) = unat a + unat (of_nat n :: u32)"
    by (simp only: unat_add_lem[THEN iffD1])
  with n show ?thesis by simp
qed

lemma ensure_ok:
  assumes inv: "unat (pkt_maxlen p) = length (pkt_data p)" "length (pkt_data p) < 2147483648"
    and L: "length (pkt_data p) < L \<longrightarrow> L + 256 < 2147483648"
  shows "\<exists>p'. sftp_pkt_ensure p (int L) = Inr p' \<and> (\<exists>zs. pkt_data p' = pkt_data p @ zs) \<and>
          unat (pkt_maxlen p') = length (pkt_data p') \<and>
          L \<le> length (pkt_data p') \<and> length (pkt_data p') < 2147483648 \<and>
          (length (pkt_data p) < L \<longrightarrow> length (pkt_data p') = L + 256) \<and>
          (\<not> length (pkt_data p) < L \<longrightarrow> pkt_data p' = pkt_data p) \<and>
          pkt_length p' = pkt_length p \<and> pkt_savedpos p' = pkt_savedpos p \<and>
          pkt_type p' = pkt_type p"
proof -
  define D where "D = length (pkt_data p)"
  have sm: "sint (pkt_maxlen p) = int D"
    using sint_unat_small[of "pkt_maxlen p"] inv by (simp add: D_def)
  show ?thesis
  proof (cases "D < L")
    case True
    define m where "m = L + 256"
    have L': "L + 256 < 2147483648" using True L by (simp add: D_def)
    have w: "(word_of_int (int L + 256) :: u32) = of_nat m" by (simp add: m_def)
    have um: "unat (of_nat m :: u32) = m" using L' by (intro unat_of_nat32) (simp add: m_def)
    have rs: "sresize (pkt_data p) m = pkt_data p @ replicate (m - D) 0"
      using True by (simp add: sresize_def m_def D_def)
    have len: "length (pkt_data p @ replicate (m - D) 0) = m"
      using True by (simp add: m_def D_def)
    have ov: "\<not> INT_MAX < int L + 256" using L' by (simp add: INT_MAX_def)
    have lt: "int D < int L" using True by simp
    have "sftp_pkt_ensure p (int L) =
        Inr (p\<lparr>pkt_maxlen := of_nat m, pkt_data := pkt_data p @ replicate (m - D) 0\<rparr>)"
      unfolding sftp_pkt_ensure_def sm Let_def w um rs using ov lt by (simp only: if_True if_False)
    moreover have "L \<le> m" "m < 2147483648" "m = L + 256" using L' by (simp_all add: m_def)
    ultimately show ?thesis using len um True by (simp del: length_append add: D_def)
  next
    case False
    then have "sftp_pkt_ensure p (int L) = Inr p"
      by (simp add: sftp_pkt_ensure_def sm)
    then show ?thesis using False inv by (simp add: D_def)
  qed
qed

lemma memcpy_ok:
  assumes "off + n \<le> length dst" "n \<le> length src"
  shows "memcpy dst (int off) src (int n) = Inr (take off dst @ take n src @ drop (off + n) dst)"
proof -
  have "\<not> (int n < 0 \<or> int off < 0 \<or> int (length dst) < int off + int n \<or> int (length src) < int n)"
    using assms by simp
  moreover have "nat (int off + int n) = off + n" by simp
  ultimately show ?thesis unfolding memcpy_def by (simp only: if_False nat_int)
qed

lemma adddata_ok:
  assumes inv: "out_inv p"
    and n: "n \<le> length src"
    and b: "unat (pkt_length p) + n < 2147483648"
      "length (pkt_data p) < unat (pkt_length p) + n \<longrightarrow> unat (pkt_length p) + n + 256 < 2147483648"
  shows "\<exists>p'. sftp_pkt_adddata p src (int n) = Inr p' \<and> out_inv p' \<and>
           wire p' = wire p @ take n src \<and>
           unat (pkt_length p') = unat (pkt_length p) + n \<and>
           pkt_savedpos p' = pkt_savedpos p \<and>
           length (pkt_data p) \<le> length (pkt_data p') \<and>
           (length (pkt_data p) < unat (pkt_length p) + n \<longrightarrow>
              length (pkt_data p') = unat (pkt_length p) + n + 256) \<and>
           (\<not> length (pkt_data p) < unat (pkt_length p) + n \<longrightarrow>
              length (pkt_data p') = length (pkt_data p))"
proof -
  define L where "L = unat (pkt_length p)"
  define p1 where "p1 = p\<lparr>pkt_length := pkt_length p + word_of_int (int n)\<rparr>"
  have b': "L + n < 2147483648" "length (pkt_data p) < L + n \<longrightarrow> L + n + 256 < 2147483648"
    using b by (simp_all add: L_def)
  have ul: "unat (pkt_length p1) = L + n"
    unfolding p1_def L_def using b(1) by (simp add: unat_add_of_nat)
  have sl: "sint (pkt_length p1) = int (L + n)"
    using sint_unat_small[of "pkt_length p1"] b'(1) ul by simp
  from inv have i1: "unat (pkt_maxlen p1) = length (pkt_data p1)" "length (pkt_data p1) < 2147483648"
    by (simp_all add: out_inv_def p1_def)
  have i2: "length (pkt_data p1) < L + n \<longrightarrow> L + n + 256 < 2147483648"
    using b'(2) by (simp add: p1_def)
  from ensure_ok[OF i1 i2] obtain p2 where
    e: "sftp_pkt_ensure p1 (int (L + n)) = Inr p2"
    and ex: "\<exists>zs. pkt_data p2 = pkt_data p1 @ zs"
    and m2: "unat (pkt_maxlen p2) = length (pkt_data p2)"
    and z: "L + n \<le> length (pkt_data p2)" "length (pkt_data p2) < 2147483648"
    and g1: "length (pkt_data p1) < L + n \<longrightarrow> length (pkt_data p2) = L + n + 256"
    and h1: "\<not> length (pkt_data p1) < L + n \<longrightarrow> pkt_data p2 = pkt_data p1"
    and f1: "pkt_length p2 = pkt_length p1" "pkt_savedpos p2 = pkt_savedpos p1"
    by blast
  from ex obtain zs where d2: "pkt_data p2 = pkt_data p @ zs" by (auto simp: p1_def)
  have g2: "length (pkt_data p) < L + n \<longrightarrow> length (pkt_data p2) = L + n + 256"
    using g1 by (simp add: p1_def)
  have h2: "\<not> length (pkt_data p) < L + n \<longrightarrow> pkt_data p2 = pkt_data p"
    using h1 by (simp add: p1_def)
  have f2: "pkt_length p2 = pkt_length p1" "pkt_savedpos p2 = pkt_savedpos p"
    using f1 by (simp_all add: p1_def)
  define d where "d = pkt_data p2"
  define d' where "d' = take L d @ take n src @ drop (L + n) d"
  have ui: "uint (pkt_length p2) - int n = int L"
  proof -
    have "unat (pkt_length p2) = L + n" using ul f2(1) by simp
    then show ?thesis using uint_nat[of "pkt_length p2"] by linarith
  qed
  have m: "memcpy d (int L) src (int n) = Inr d'"
    unfolding d'_def using z n by (intro memcpy_ok) (simp_all add: d_def)
  define p' where "p' = p2\<lparr>pkt_data := d'\<rparr>"
  have r: "sftp_pkt_adddata p src (int n) = Inr p'"
    unfolding sftp_pkt_adddata_def Let_def p1_def[symmetric] sl e thenf_def
    by (simp add: ui d_def[symmetric] m p'_def)
  have Ld: "L \<le> length (pkt_data p)" using inv by (simp add: out_inv_def L_def)
  have ld': "length d' = length d" using z n by (simp add: d'_def d_def)
  have inv': "out_inv p'"
    using z ld' m2 ul f2 by (simp add: out_inv_def p'_def d_def)
  have tk: "take L d = take L (pkt_data p)" using Ld by (simp add: d_def d2)
  have "wire p' = take (L + n) d'" using ul f2 by (simp add: wire_def p'_def)
  also have "\<dots> = take L d @ take n src"
    using z n Ld by (simp add: d'_def d_def min_def)
  finally have "wire p' = take L (pkt_data p) @ take n src" by (simp only: tk)
  then have wr: "wire p' = wire p @ take n src" by (simp add: wire_def L_def)
  have grow: "length (pkt_data p) \<le> length (pkt_data p')"
    using ld' d2 by (simp add: p'_def d_def)
  have g': "length (pkt_data p) < L + n \<longrightarrow> length (pkt_data p') = L + n + 256"
    using g2 ld' by (simp add: p'_def d_def)
  have h': "\<not> length (pkt_data p) < L + n \<longrightarrow> length (pkt_data p') = length (pkt_data p)"
    using h2 ld' by (simp add: p'_def d_def)
  show ?thesis using r inv' wr ul f2 grow g' h' by (intro exI[of _ p']) (simp add: p'_def L_def)
qed

lemma length_PUT_32BIT: "length (PUT_32BIT v) = 4"
  by (simp add: PUT_32BIT_def)

lemma init_ok:
  "\<exists>p. sftp_pkt_init ty = Inr p \<and> out_inv p \<and> wire p = [word_of_int ty] \<and>
       unat (pkt_length p) = 1 \<and> length (pkt_data p) = 257"
proof -
  define p0 where "p0 = \<lparr>pkt_data = [], pkt_length = 0, pkt_maxlen = 0, pkt_savedpos = - 1, pkt_type = 0\<rparr>"
  have i: "out_inv p0" by (simp add: out_inv_def p0_def)
  have "\<exists>p'. sftp_pkt_adddata p0 [word_of_int ty] (int 1) = Inr p' \<and> out_inv p' \<and>
           wire p' = wire p0 @ take 1 [word_of_int ty] \<and>
           unat (pkt_length p') = unat (pkt_length p0) + 1 \<and>
           pkt_savedpos p' = pkt_savedpos p0 \<and>
           length (pkt_data p0) \<le> length (pkt_data p') \<and>
           (length (pkt_data p0) < unat (pkt_length p0) + 1 \<longrightarrow>
              length (pkt_data p') = unat (pkt_length p0) + 1 + 256) \<and>
           (\<not> length (pkt_data p0) < unat (pkt_length p0) + 1 \<longrightarrow>
              length (pkt_data p') = length (pkt_data p0))"
    by (rule adddata_ok[OF i]) (simp_all add: p0_def)
  then show ?thesis
    by (auto simp: sftp_pkt_init_def sftp_pkt_addbyte_def p0_def wire_def)
qed

lemma adduint32_ok:
  assumes inv: "out_inv p"
    and b: "unat (pkt_length p) + 4 < 2147483648"
      "length (pkt_data p) < unat (pkt_length p) + 4 \<longrightarrow> unat (pkt_length p) + 4 + 256 < 2147483648"
  shows "\<exists>p'. sftp_pkt_adduint32 p v = Inr p' \<and> out_inv p' \<and>
           wire p' = wire p @ PUT_32BIT v \<and>
           unat (pkt_length p') = unat (pkt_length p) + 4 \<and>
           pkt_savedpos p' = pkt_savedpos p \<and>
           length (pkt_data p) \<le> length (pkt_data p') \<and>
           (length (pkt_data p) < unat (pkt_length p) + 4 \<longrightarrow>
              length (pkt_data p') = unat (pkt_length p) + 4 + 256) \<and>
           (\<not> length (pkt_data p) < unat (pkt_length p) + 4 \<longrightarrow>
              length (pkt_data p') = length (pkt_data p))"
  using adddata_ok[OF inv, of 4 "PUT_32BIT v"] b
  by (simp add: sftp_pkt_adduint32_def length_PUT_32BIT)

lemma adduint64_ok:
  assumes inv: "out_inv p"
    and b: "unat (pkt_length p) + 8 < 2147483648"
      "length (pkt_data p) < unat (pkt_length p) + 8 \<longrightarrow> unat (pkt_length p) + 8 + 256 < 2147483648"
  shows "\<exists>p'. sftp_pkt_adduint64 p v = Inr p' \<and> out_inv p' \<and>
           wire p' = wire p @ PUT_32BIT (uint64_hi v) @ PUT_32BIT (uint64_lo v) \<and>
           unat (pkt_length p') = unat (pkt_length p) + 8 \<and>
           pkt_savedpos p' = pkt_savedpos p \<and>
           length (pkt_data p) \<le> length (pkt_data p') \<and>
           (length (pkt_data p) < unat (pkt_length p) + 8 \<longrightarrow>
              length (pkt_data p') = unat (pkt_length p) + 8 + 256) \<and>
           (\<not> length (pkt_data p) < unat (pkt_length p) + 8 \<longrightarrow>
              length (pkt_data p') = length (pkt_data p))"
  using adddata_ok[OF inv, of 8 "PUT_32BIT (uint64_hi v) @ PUT_32BIT (uint64_lo v)"] b
  by (simp add: sftp_pkt_adduint64_def length_PUT_32BIT)

lemma send_ok:
  assumes "out_inv p"
  shows "sftp_send st p = Inr (1, st\<lparr>sent := sent st @ PUT_32BIT (pkt_length p) @ wire p\<rparr>)"
  using assms by (simp add: sftp_send_def sftp_senddata_def out_inv_def wire_def)


lemma addstring_ok:
  assumes inv: "out_inv p"
    and n: "n \<le> length src"
    and b: "unat (pkt_length p) + 4 + n + 256 < 2147483648"
  shows "\<exists>p'. thenf (sftp_pkt_addstring_start p) (\<lambda>q. sftp_pkt_addstring_data q src (int n)) = Inr p' \<and>
           out_inv p' \<and>
           wire p' = wire p @ PUT_32BIT (of_nat n) @ take n src \<and>
           unat (pkt_length p') = unat (pkt_length p) + 4 + n \<and>
           (length (pkt_data p) < unat (pkt_length p) + 4 + n \<and>
            unat (pkt_length p) + 4 \<le> length (pkt_data p) \<longrightarrow>
              length (pkt_data p') = unat (pkt_length p) + 4 + n + 256)"
proof -
  define L where "L = unat (pkt_length p)"
  have b': "L + 4 + n + 256 < 2147483648" using b by (simp add: L_def)
  from adduint32_ok[OF inv, of 0] b obtain q0 where
    q0: "sftp_pkt_adduint32 p 0 = Inr q0" "out_inv q0" "wire q0 = wire p @ PUT_32BIT 0"
      "unat (pkt_length q0) = L + 4" "length (pkt_data p) \<le> length (pkt_data q0)"
      "\<not> length (pkt_data p) < L + 4 \<longrightarrow> length (pkt_data q0) = length (pkt_data p)"
    by (auto simp: L_def)
  define q where "q = q0\<lparr>pkt_savedpos := pkt_length q0\<rparr>"
  have st: "sftp_pkt_addstring_start p = Inr q"
    by (simp add: sftp_pkt_addstring_start_def q0(1) thenf_def q_def)
  have iq: "out_inv q" using q0(2) by (simp add: out_inv_def q_def)
  have wq: "wire q = wire q0" by (simp add: wire_def q_def)
  have lq: "unat (pkt_length q) = L + 4" using q0(4) by (simp add: q_def)
  have dq: "pkt_data q = pkt_data q0" by (simp add: q_def)
  from adddata_ok[OF iq n] b' lq obtain q' where
    q': "sftp_pkt_adddata q src (int n) = Inr q'" "out_inv q'" "wire q' = wire q @ take n src"
      "unat (pkt_length q') = L + 4 + n" "pkt_savedpos q' = pkt_savedpos q"
      "length (pkt_data q) < L + 4 + n \<longrightarrow> length (pkt_data q') = L + 4 + n + 256"
    by auto
  define d where "d = pkt_data q'"
  have dl: "L + 4 + n \<le> length d" using q'(2) q'(4) by (simp add: out_inv_def d_def)
  have sp: "unat (pkt_savedpos q') = L + 4" using q'(5) q0(4) by (simp add: q_def)
  have off: "uint (pkt_savedpos q') - 4 = int L"
    using sp uint_nat[of "pkt_savedpos q'"] by linarith
  have le: "pkt_savedpos q' \<le> pkt_length q'" using sp q'(4) by (simp add: word_le_nat_alt)
  have "unat (pkt_length q' - pkt_savedpos q') = n"
    using le sp q'(4) by (simp add: unat_sub)
  moreover have "unat (of_nat n :: u32) = n" using b' by (intro unat_of_nat32) arith
  ultimately have df: "pkt_length q' - pkt_savedpos q' = of_nat n"
    by (simp only: word_unat_eq_iff)
  define d' where "d' = take L d @ take 4 (PUT_32BIT (of_nat n :: u32)) @ drop (L + 4) d"
  have m: "memcpy d (int L) (PUT_32BIT (of_nat n :: u32)) (int 4) = Inr d'"
    unfolding d'_def using dl by (intro memcpy_ok) (simp_all add: length_PUT_32BIT)
  define p' where "p' = q'\<lparr>pkt_data := d'\<rparr>"
  have r: "thenf (sftp_pkt_addstring_start p) (\<lambda>q. sftp_pkt_addstring_data q src (int n)) = Inr p'"
    using m by (simp add: st thenf_def sftp_pkt_addstring_data_def q'(1) off df d_def[symmetric] p'_def)
  have ld': "length d' = length d" using dl by (simp add: d'_def length_PUT_32BIT)
  have inv': "out_inv p'" using q'(2) ld' by (simp add: out_inv_def p'_def d_def)
  have wl: "length (wire p) = L" using inv by (simp add: wire_def out_inv_def L_def)
  have "wire q' = wire p @ PUT_32BIT 0 @ take n src"
    using q'(3) wq q0(3) by simp
  moreover have "wire q' = take (L + 4 + n) d" using q'(4) by (simp add: wire_def d_def)
  ultimately have wq': "take (L + 4 + n) d = wire p @ PUT_32BIT 0 @ take n src" by simp
  have t1: "take L d = wire p"
  proof -
    have "take L d = take L (take (L + 4 + n) d)" by (simp add: min_def)
    also have "\<dots> = wire p" unfolding wq' using wl by simp
    finally show ?thesis .
  qed
  have t2: "take n (drop (L + 4) d) = take n src"
  proof -
    have "take n (drop (L + 4) d) = drop (L + 4) (take (L + 4 + n) d)"
      by (simp add: drop_take add.commute)
    also have "\<dots> = take n src" unfolding wq' using wl by (simp add: length_PUT_32BIT)
    finally show ?thesis .
  qed
  have "wire p' = take (L + 4 + n) d'" using q'(4) by (simp add: wire_def p'_def)
  also have "\<dots> = take L d @ PUT_32BIT (of_nat n) @ take n (drop (L + 4) d)"
    using dl by (simp add: d'_def length_PUT_32BIT min_def)
  finally have wr: "wire p' = wire p @ PUT_32BIT (of_nat n) @ take n src"
    by (simp only: t1 t2)
  have g: "length (pkt_data p) < L + 4 + n \<and> L + 4 \<le> length (pkt_data p) \<longrightarrow>
              length (pkt_data p') = L + 4 + n + 256"
  proof
    assume a: "length (pkt_data p) < L + 4 + n \<and> L + 4 \<le> length (pkt_data p)"
    then have "length (pkt_data q0) = length (pkt_data p)" using q0(6) by simp
    then have "length (pkt_data q) < L + 4 + n" using a by (simp add: dq)
    then have "length (pkt_data q') = L + 4 + n + 256" using q'(6) by simp
    then show "length (pkt_data p') = L + 4 + n + 256" using ld' by (simp add: p'_def d_def)
  qed
  have lp: "unat (pkt_length p') = L + 4 + n" using q'(4) by (simp add: p'_def)
  show ?thesis using r inv' wr lp g by (intro exI[of _ p']) (simp add: L_def)
qed


lemma word_of_unat32: "unat (w::u32) = k \<Longrightarrow> w = of_nat k"
  by auto

lemma handle_packet_ok:
  assumes hs: "hlen handle = int n" "n \<le> length (hstring handle)"
    and b: "n + 265 < 2147483648"
  shows "\<exists>p. handle_packet ty req handle = Inr p \<and> out_inv p \<and>
           wire p = [word_of_int ty] @ PUT_32BIT (req_id req) @ PUT_32BIT (of_nat n) @
                    take n (hstring handle) \<and>
           unat (pkt_length p) = 9 + n \<and>
           (248 < n \<longrightarrow> length (pkt_data p) = n + 265)"
proof -
  from init_ok[of ty] obtain p0 where
    p0: "sftp_pkt_init ty = Inr p0" "out_inv p0" "wire p0 = [word_of_int ty]"
      "unat (pkt_length p0) = 1" "length (pkt_data p0) = 257"
    by blast
  from adduint32_ok[OF p0(2), of "req_id req"] p0(4) p0(5) obtain p1 where
    p1: "sftp_pkt_adduint32 p0 (req_id req) = Inr p1" "out_inv p1"
      "wire p1 = wire p0 @ PUT_32BIT (req_id req)" "unat (pkt_length p1) = 5"
      "length (pkt_data p1) = 257"
    by auto
  have b1: "unat (pkt_length p1) + 4 + n + 256 < 2147483648" using b p1(4) by simp
  from addstring_ok[OF p1(2) hs(2) b1] obtain p2 where
    p2: "thenf (sftp_pkt_addstring_start p1) (\<lambda>q. sftp_pkt_addstring_data q (hstring handle) (int n)) = Inr p2"
      "out_inv p2"
      "wire p2 = wire p1 @ PUT_32BIT (of_nat n) @ take n (hstring handle)"
      "unat (pkt_length p2) = unat (pkt_length p1) + 4 + n"
      "length (pkt_data p1) < unat (pkt_length p1) + 4 + n \<and>
         unat (pkt_length p1) + 4 \<le> length (pkt_data p1) \<longrightarrow>
       length (pkt_data p2) = unat (pkt_length p1) + 4 + n + 256"
    by blast
  have "handle_packet ty req handle = Inr p2"
    using p2(1) by (simp add: handle_packet_def p0(1) p1(1) thenf_def hs(1))
  moreover have "wire p2 = [word_of_int ty] @ PUT_32BIT (req_id req) @ PUT_32BIT (of_nat n) @
                    take n (hstring handle)"
    by (simp add: p2(3) p1(3) p0(3))
  moreover have "unat (pkt_length p2) = 9 + n" using p2(4) p1(4) by simp
  moreover have "248 < n \<longrightarrow> length (pkt_data p2) = n + 265"
    using p2(5) p1(4) p1(5) by simp
  ultimately show ?thesis using p2(2) by blast
qed

lemma sender_ok:
  assumes a: "sftp_alloc_request st = Inr (r, s1)"
    and p: "build r = Inr p" "out_inv p"
  shows "thenf (sftp_alloc_request st) (\<lambda>(req, st1).
           thenf (build req) (\<lambda>p. thenf (sftp_send st1 p) (\<lambda>(r, st2). Inr (req, st2)))) =
         Inr (r, s1\<lparr>sent := sent s1 @ PUT_32BIT (pkt_length p) @ wire p\<rparr>)"
  by (simp add: a p(1) thenf_def send_ok[OF p(2)])

lemma alloc_sent:
  assumes "sftp_alloc_request st = Inr (r, s1)"
  shows "sent s1 = sent st"
  using assms
  by (auto simp: sftp_alloc_request_def Let_def split: option.splits sum.splits if_splits)

lemma close_like_ok:
  assumes a: "sftp_alloc_request st = Inr (r, s1)"
    and hs: "hlen handle = int n" "n \<le> length (hstring handle)"
    and b: "n + 265 < 2147483648"
  shows "thenf (sftp_alloc_request st) (\<lambda>(req, st1).
           thenf (handle_packet ty req handle) (\<lambda>p.
           thenf (sftp_send st1 p) (\<lambda>(r, st2). Inr (req, st2)))) =
         Inr (r, s1\<lparr>sent := sent st @ PUT_32BIT (of_nat (9 + n)) @ [word_of_int ty] @
                       PUT_32BIT (req_id r) @ PUT_32BIT (of_nat n) @ take n (hstring handle)\<rparr>)"
proof -
  from handle_packet_ok[OF hs b, of ty r] obtain p where
    p: "handle_packet ty r handle = Inr p" "out_inv p"
      "wire p = [word_of_int ty] @ PUT_32BIT (req_id r) @ PUT_32BIT (of_nat n) @ take n (hstring handle)"
      "unat (pkt_length p) = 9 + n"
    by blast
  have l: "pkt_length p = of_nat (9 + n)" by (rule word_of_unat32[OF p(4)])
  show ?thesis
    unfolding sender_ok[where build = "\<lambda>req. handle_packet ty req handle", OF a p(1) p(2)]
    by (simp only: p(3) l alloc_sent[OF a])
qed

lemma read_send_ok:
  assumes a: "sftp_alloc_request st = Inr (r, s1)"
    and hs: "hlen handle = int n" "n \<le> length (hstring handle)"
    and b: "n + 265 < 2147483648"
  shows "fxp_read_send st handle offset len =
         Inr (r, s1\<lparr>sent := sent st @ PUT_32BIT (of_nat (21 + n)) @ [5] @
                       PUT_32BIT (req_id r) @ PUT_32BIT (of_nat n) @ take n (hstring handle) @
                       PUT_32BIT (uint64_hi offset) @ PUT_32BIT (uint64_lo offset) @
                       PUT_32BIT (word_of_int len)\<rparr>)"
proof -
  from handle_packet_ok[OF hs b, of SSH_FXP_READ r] obtain p where
    p: "handle_packet SSH_FXP_READ r handle = Inr p" "out_inv p"
      "wire p = [word_of_int SSH_FXP_READ] @ PUT_32BIT (req_id r) @ PUT_32BIT (of_nat n) @ take n (hstring handle)"
      "unat (pkt_length p) = 9 + n" "248 < n \<longrightarrow> length (pkt_data p) = n + 265"
    by blast
  have c1: "unat (pkt_length p) + 8 < 2147483648"
    "length (pkt_data p) < unat (pkt_length p) + 8 \<longrightarrow> unat (pkt_length p) + 8 + 256 < 2147483648"
    using p(4) p(5) b by auto
  from adduint64_ok[OF p(2) c1, of offset] obtain q where
    q: "sftp_pkt_adduint64 p offset = Inr q" "out_inv q"
      "wire q = wire p @ PUT_32BIT (uint64_hi offset) @ PUT_32BIT (uint64_lo offset)"
      "unat (pkt_length q) = unat (pkt_length p) + 8"
      "length (pkt_data p) \<le> length (pkt_data q)"
    by blast
  have c2: "unat (pkt_length q) + 4 < 2147483648"
    "length (pkt_data q) < unat (pkt_length q) + 4 \<longrightarrow> unat (pkt_length q) + 4 + 256 < 2147483648"
    using q(4) q(5) p(4) p(5) b by auto
  from adduint32_ok[OF q(2) c2, of "word_of_int len"] obtain q' where
    q': "sftp_pkt_adduint32 q (word_of_int len) = Inr q'" "out_inv q'"
      "wire q' = wire q @ PUT_32BIT (word_of_int len)"
      "unat (pkt_length q') = unat (pkt_length q) + 4"
    by blast
  have "unat (pkt_length q') = 21 + n" using q'(4) q(4) p(4) by simp
  then have l: "pkt_length q' = of_nat (21 + n)" by (rule word_of_unat32)
  have bq: "thenf (handle_packet SSH_FXP_READ r handle) (\<lambda>p.
              thenf (sftp_pkt_adduint64 p offset) (\<lambda>p. sftp_pkt_adduint32 p (word_of_int len))) = Inr q'"
    by (simp add: p(1) q(1) q'(1) thenf_def)
  have w: "wire q' = [5] @ PUT_32BIT (req_id r) @ PUT_32BIT (of_nat n) @ take n (hstring handle) @
                       PUT_32BIT (uint64_hi offset) @ PUT_32BIT (uint64_lo offset) @
                       PUT_32BIT (word_of_int len)"
    by (simp add: q'(3) q(3) p(3) SSH_FXP_READ_def)
  have "fxp_read_send st handle offset len =
      thenf (sftp_alloc_request st) (\<lambda>(req, st1).
        thenf (thenf (handle_packet SSH_FXP_READ req handle) (\<lambda>p.
              thenf (sftp_pkt_adduint64 p offset) (\<lambda>p. sftp_pkt_adduint32 p (word_of_int len))))
          (\<lambda>p. thenf (sftp_send st1 p) (\<lambda>(r, st2). Inr (req, st2))))"
    by (simp add: fxp_read_send_def thenf_def split: sum.splits prod.splits)
  also have "\<dots> = Inr (r, s1\<lparr>sent := sent s1 @ PUT_32BIT (pkt_length q') @ wire q'\<rparr>)"
    by (rule sender_ok[where build = "\<lambda>req. thenf (handle_packet SSH_FXP_READ req handle) (\<lambda>p.
              thenf (sftp_pkt_adduint64 p offset) (\<lambda>p. sftp_pkt_adduint32 p (word_of_int len)))",
          OF a bq q'(2)])
  finally show ?thesis by (simp only: w l alloc_sent[OF a])
qed

lemma write_send_ok:
  assumes a: "sftp_alloc_request st = Inr (r, s1)"
    and hs: "hlen handle = int n" "n \<le> length (hstring handle)"
    and m: "m \<le> length buffer"
    and b: "n + m + 277 < 2147483648"
  shows "fxp_write_send st handle buffer offset (int m) =
         Inr (r, s1\<lparr>sent := sent st @ PUT_32BIT (of_nat (21 + n + m)) @ [6] @
                       PUT_32BIT (req_id r) @ PUT_32BIT (of_nat n) @ take n (hstring handle) @
                       PUT_32BIT (uint64_hi offset) @ PUT_32BIT (uint64_lo offset) @
                       PUT_32BIT (of_nat m) @ take m buffer\<rparr>)"
proof -
  have b0: "n + 265 < 2147483648" using b by simp
  from handle_packet_ok[OF hs b0, of SSH_FXP_WRITE r] obtain p where
    p: "handle_packet SSH_FXP_WRITE r handle = Inr p" "out_inv p"
      "wire p = [word_of_int SSH_FXP_WRITE] @ PUT_32BIT (req_id r) @ PUT_32BIT (of_nat n) @ take n (hstring handle)"
      "unat (pkt_length p) = 9 + n"
    by blast
  have c1: "unat (pkt_length p) + 8 < 2147483648"
    "length (pkt_data p) < unat (pkt_length p) + 8 \<longrightarrow> unat (pkt_length p) + 8 + 256 < 2147483648"
    using p(4) b by auto
  from adduint64_ok[OF p(2) c1, of offset] obtain q where
    q: "sftp_pkt_adduint64 p offset = Inr q" "out_inv q"
      "wire q = wire p @ PUT_32BIT (uint64_hi offset) @ PUT_32BIT (uint64_lo offset)"
      "unat (pkt_length q) = unat (pkt_length p) + 8"
    by blast
  have c2: "unat (pkt_length q) + 4 + m + 256 < 2147483648" using q(4) p(4) b by simp
  from addstring_ok[OF q(2) m c2] obtain q' where
    q': "thenf (sftp_pkt_addstring_start q) (\<lambda>p. sftp_pkt_addstring_data p buffer (int m)) = Inr q'"
      "out_inv q'"
      "wire q' = wire q @ PUT_32BIT (of_nat m) @ take m buffer"
      "unat (pkt_length q') = unat (pkt_length q) + 4 + m"
    by blast
  have "unat (pkt_length q') = 21 + n + m" using q'(4) q(4) p(4) by simp
  then have l: "pkt_length q' = of_nat (21 + n + m)" by (rule word_of_unat32)
  have bq: "thenf (handle_packet SSH_FXP_WRITE r handle) (\<lambda>p.
              thenf (sftp_pkt_adduint64 p offset) (\<lambda>p.
              thenf (sftp_pkt_addstring_start p) (\<lambda>p. sftp_pkt_addstring_data p buffer (int m)))) = Inr q'"
    using q'(1) by (simp add: p(1) q(1) thenf_def)
  have w: "wire q' = [6] @ PUT_32BIT (req_id r) @ PUT_32BIT (of_nat n) @ take n (hstring handle) @
                       PUT_32BIT (uint64_hi offset) @ PUT_32BIT (uint64_lo offset) @
                       PUT_32BIT (of_nat m) @ take m buffer"
    by (simp add: q'(3) q(3) p(3) SSH_FXP_WRITE_def)
  have "fxp_write_send st handle buffer offset (int m) =
      thenf (sftp_alloc_request st) (\<lambda>(req, st1).
        thenf (thenf (handle_packet SSH_FXP_WRITE req handle) (\<lambda>p.
              thenf (sftp_pkt_adduint64 p offset) (\<lambda>p.
              thenf (sftp_pkt_addstring_start p) (\<lambda>p. sftp_pkt_addstring_data p buffer (int m)))))
          (\<lambda>p. thenf (sftp_send st1 p) (\<lambda>(r, st2). Inr (req, st2))))"
    by (simp add: fxp_write_send_def thenf_def split: sum.splits prod.splits)
  also have "\<dots> = Inr (r, s1\<lparr>sent := sent s1 @ PUT_32BIT (pkt_length q') @ wire q'\<rparr>)"
    by (rule sender_ok[where build = "\<lambda>req. thenf (handle_packet SSH_FXP_WRITE req handle) (\<lambda>p.
              thenf (sftp_pkt_adduint64 p offset) (\<lambda>p.
              thenf (sftp_pkt_addstring_start p) (\<lambda>p. sftp_pkt_addstring_data p buffer (int m))))",
          OF a bq q'(2)])
  finally show ?thesis by (simp only: w l alloc_sent[OF a])
qed

subsection \<open>Handles\<close>

lemma GET_32BIT_PUT:
  "GET_32BIT (pre @ PUT_32BIT v @ rest) (length pre) = Inr v"
  by (simp add: GET_32BIT_def PUT_32BIT_def nth_append be32_PUT_32BIT)

lemma handle_getstring:
  assumes pk: "pkt_data pktin = pre @ PUT_32BIT (of_nat (length h)) @ h @ post"
    and sp: "unat (pkt_savedpos pktin) = length pre"
    and ln: "unat (pkt_length pktin) = length (pkt_data pktin)"
    and po: "length h + length post < 2147483648"
  shows "\<exists>pkt1. sftp_pkt_getstring pktin =
            Inr (1, Some (length pre + 4), Some (int (length h)), pkt1) \<and>
          pkt_data pkt1 = pkt_data pktin"
proof -
  define n where "n = length h"
  have tot: "length (pkt_data pktin) = length pre + 4 + n + length post"
    by (simp add: pk length_PUT_32BIT n_def)
  have lb: "unat (pkt_length pktin) < 4294967296" by (rule unat32_bound)
  have wf: "pkt_wf pktin"
    using sp ln tot by (simp add: pkt_wf_def word_le_nat_alt)
  have le: "pkt_savedpos pktin \<le> pkt_length pktin"
    using wf by (simp add: pkt_wf_def)
  have rem: "unat (pkt_length pktin - pkt_savedpos pktin) = 4 + n + length post"
    using le sp ln tot by (simp add: unat_sub)
  have a: "\<not> pkt_length pktin - pkt_savedpos pktin < 4"
    using rem by (simp add: word_less_nat_alt)
  have g: "GET_32BIT (pkt_data pktin) (unat (pkt_savedpos pktin)) = Inr (of_nat n)"
    unfolding pk sp n_def by (rule GET_32BIT_PUT)
  have un: "unat (of_nat n :: u32) = n" using po by (intro unat_of_nat32) (simp add: n_def)
  have sv: "sint (of_nat n :: u32) = int n"
    using po by (intro sint_of_nat_small) (simp add: n_def)
  have s4: "unat (pkt_savedpos pktin + 4) = length pre + 4"
    using pkt_wf_read4(2)[OF wf a] lb sp by (simp add: unat_word_ariths)
  have le4: "pkt_savedpos pktin + 4 \<le> pkt_length pktin"
    using s4 ln tot by (simp add: word_le_nat_alt)
  have "unat (pkt_length pktin - (pkt_savedpos pktin + 4)) = n + length post"
    using le4 s4 ln tot by (simp add: unat_sub)
  then have R: "uint (pkt_length pktin - (pkt_savedpos pktin + 4)) = int (n + length post)"
    by (simp only: uint_nat)
  have nf: "\<not> (sint (of_nat n :: u32) < 0 \<or>
       uint (pkt_length pktin - (pkt_savedpos pktin + 4)) < sint (of_nat n :: u32) \<or>
       2 ^ 31 \<le> uint (pkt_length pktin - (pkt_savedpos pktin + 4)))"
    unfolding sv R using po by (simp add: n_def)
  from getstring_wf_cases[OF wf] a g nf
  have "sftp_pkt_getstring pktin =
          Inr (1, Some (unat (pkt_savedpos pktin) + 4), Some (int (unat (of_nat n :: u32))),
               pktin\<lparr>pkt_savedpos := pkt_savedpos pktin + 4 + of_nat n\<rparr>)"
    by auto
  moreover have "uint (of_nat n :: u32) = int n" by (simp only: uint_nat un)
  ultimately show ?thesis by (simp add: sp n_def)
qed

lemma open_recv_ok:
  assumes pk: "pkt_data pktin = pre @ PUT_32BIT (of_nat (length h)) @ h @ post"
    and sp: "unat (pkt_savedpos pktin) = length pre"
    and ln: "unat (pkt_length pktin) = length (pkt_data pktin)"
    and ty: "pkt_type pktin = SSH_FXP_HANDLE"
    and po: "length h + length post < 2147483648"
    and hb: "length h + 1 < 2147483648"
  shows "fxp_open_recv st pktin req =
           Inr (Some \<lparr>hstring = h @ [0], hlen = int (length h)\<rparr>, st, Pkt_freed)"
    and "fxp_opendir_recv st pktin req =
           Inr (Some \<lparr>hstring = h @ [0], hlen = int (length h)\<rparr>, st, Pkt_freed)"
proof -
  from handle_getstring[OF pk sp ln po] obtain pkt1 where
    g: "sftp_pkt_getstring pktin = Inr (1, Some (length pre + 4), Some (int (length h)), pkt1)"
    and d: "pkt_data pkt1 = pkt_data pktin"
    by blast
  have m: "mkstr (pkt_data pkt1) (length pre + 4) (int (length h)) = Inr (h @ [0])"
    using hb by (simp add: mkstr_def d pk INT_MAX_def length_PUT_32BIT)
  show "fxp_open_recv st pktin req =
           Inr (Some \<lparr>hstring = h @ [0], hlen = int (length h)\<rparr>, st, Pkt_freed)"
    by (simp add: fxp_open_recv_def ty g m thenf_def)
  show "fxp_opendir_recv st pktin req =
           Inr (Some \<lparr>hstring = h @ [0], hlen = int (length h)\<rparr>, st, Pkt_freed)"
    by (simp add: fxp_opendir_recv_def ty g m thenf_def)
qed

text \<open>
  C10, as the claim states it ("of any length"), fails: \<^verbatim>\<open>fxp_open_recv\<close> turns
  the reply \<open>big_handle_pkt\<close> into a handle of 2^31 - 9 bytes, and
  \<^verbatim>\<open>fxp_close_send\<close> on that handle does not emit it: the packet length becomes
  2^31, \<^verbatim>\<open>sftp_pkt_ensure\<close> receives it as a negative \<^verbatim>\<open>int\<close> and does not
  grow the 257-byte buffer, and the \<^verbatim>\<open>memcpy\<close> of the handle runs past its end.
\<close>

theorem handle_round_trip_counterexample:
  "fxp_open_recv st0 big_handle_pkt (mk_req 256) = Inr (Some big_handle, st0, Pkt_freed) \<and>
   fxp_close_send st0 big_handle = Inl Out_of_bounds"
proof -
  have g: "sftp_pkt_getstring big_handle_pkt =
     Inr (1, Some 9, Some 2147483639, big_handle_pkt\<lparr>pkt_savedpos := 2147483648\<rparr>)"
    by (simp add: sftp_pkt_getstring_def big_handle_pkt_def GET_32BIT_def be32_def Let_def)
  have 1: "fxp_open_recv st0 big_handle_pkt (mk_req 256) = Inr (Some big_handle, st0, Pkt_freed)"
    by (simp add: fxp_open_recv_def g thenf_def mkstr_def INT_MAX_def big_handle_def)
       (simp add: big_handle_pkt_def SSH_FXP_HANDLE_def)
  have a: "sftp_alloc_request st0 =
      Inr (\<lparr>req_id = 256, registered = 0, userdata = None\<rparr>,
           st0\<lparr>sftp_requests := Some [\<lparr>req_id = 256, registered = 0, userdata = None\<rparr>]\<rparr>)"
    by (simp add: sftp_alloc_request_def st0_def count234_def alloc_search.simps
        REQUEST_ID_OFFSET_def find234_def add234_def Let_def)
  have 2: "fxp_close_send st0 big_handle = Inl Out_of_bounds"
    by (simp add: fxp_close_send_def a thenf_def handle_packet_def sftp_pkt_init_def
        sftp_pkt_addbyte_def sftp_pkt_adddata_def sftp_pkt_ensure_def sftp_pkt_adduint32_def
        sftp_pkt_addstring_start_def sftp_pkt_addstring_data_def memcpy_def sresize_def
        INT_MAX_def Let_def SSH_FXP_CLOSE_def PUT_32BIT_def big_handle_def)
  from 1 2 show ?thesis by simp
qed

text \<open>
  C10, amended. Let a HANDLE reply carry the wire string \<open>h\<close> (any bytes, zero
  bytes included) at its cursor, with \<open>length h + 265 < 2^31\<close>, so that the
  \<^verbatim>\<open>int\<close> arithmetic of the packet builder stays in range. Then
  \<^verbatim>\<open>fxp_open_recv\<close> and \<^verbatim>\<open>fxp_opendir_recv\<close> return a handle whose \<open>hstring\<close>
  is \<open>h\<close> followed by one zero byte and whose \<open>hlen\<close> is the length of \<open>h\<close>; and
  for every state in which allocation returns a descriptor \<open>r\<close>,
  \<^verbatim>\<open>fxp_close_send\<close>, \<^verbatim>\<open>fxp_fstat_send\<close>, \<^verbatim>\<open>fxp_readdir_send\<close> and
  \<^verbatim>\<open>fxp_read_send\<close> hand the transport a frame that holds, after the type byte
  and the id of \<open>r\<close>, the length of \<open>h\<close> and exactly the bytes of \<open>h\<close>. So does
  \<^verbatim>\<open>fxp_write_send\<close> for \<open>m\<close> bytes of data when \<open>length h + m + 277 < 2^31\<close>.
\<close>

theorem handle_round_trip:
  assumes pk: "pkt_data pktin = pre @ PUT_32BIT (of_nat (length h)) @ h @ post"
    and sp: "unat (pkt_savedpos pktin) = length pre"
    and ln: "unat (pkt_length pktin) = length (pkt_data pktin)"
    and ty: "pkt_type pktin = SSH_FXP_HANDLE"
    and po: "length h + length post < 2 ^ 31"
    and hb: "length h + 265 < 2 ^ 31"
    and al: "sftp_alloc_request st' = Inr (r, s1)"
  shows "\<exists>hd. fxp_open_recv st pktin req = Inr (Some hd, st, Pkt_freed) \<and>
              fxp_opendir_recv st pktin req = Inr (Some hd, st, Pkt_freed) \<and>
              hstring hd = h @ [0] \<and> hlen hd = int (length h) \<and>
              fxp_close_send st' hd =
                Inr (r, s1\<lparr>sent := sent st' @ PUT_32BIT (of_nat (9 + length h)) @ [4] @
                              PUT_32BIT (req_id r) @ PUT_32BIT (of_nat (length h)) @ h\<rparr>) \<and>
              fxp_fstat_send st' hd =
                Inr (r, s1\<lparr>sent := sent st' @ PUT_32BIT (of_nat (9 + length h)) @ [8] @
                              PUT_32BIT (req_id r) @ PUT_32BIT (of_nat (length h)) @ h\<rparr>) \<and>
              fxp_readdir_send st' hd =
                Inr (r, s1\<lparr>sent := sent st' @ PUT_32BIT (of_nat (9 + length h)) @ [12] @
                              PUT_32BIT (req_id r) @ PUT_32BIT (of_nat (length h)) @ h\<rparr>) \<and>
              fxp_read_send st' hd offset len =
                Inr (r, s1\<lparr>sent := sent st' @ PUT_32BIT (of_nat (21 + length h)) @ [5] @
                              PUT_32BIT (req_id r) @ PUT_32BIT (of_nat (length h)) @ h @
                              PUT_32BIT (uint64_hi offset) @ PUT_32BIT (uint64_lo offset) @
                              PUT_32BIT (word_of_int len)\<rparr>) \<and>
              (m \<le> length buffer \<and> length h + m + 277 < 2 ^ 31 \<longrightarrow>
               fxp_write_send st' hd buffer offset (int m) =
                Inr (r, s1\<lparr>sent := sent st' @ PUT_32BIT (of_nat (21 + length h + m)) @ [6] @
                              PUT_32BIT (req_id r) @ PUT_32BIT (of_nat (length h)) @ h @
                              PUT_32BIT (uint64_hi offset) @ PUT_32BIT (uint64_lo offset) @
                              PUT_32BIT (of_nat m) @ take m buffer\<rparr>))"
proof -
  define hd where "hd = \<lparr>hstring = h @ [0], hlen = int (length h)\<rparr>"
  have po': "length h + length post < 2147483648" and hb': "length h + 265 < 2147483648"
    and hb1: "length h + 1 < 2147483648"
    using po hb by simp_all
  have hs: "hlen hd = int (length h)" "length h \<le> length (hstring hd)" "take (length h) (hstring hd) = h"
    by (simp_all add: hd_def)
  have o1: "fxp_open_recv st pktin req = Inr (Some hd, st, Pkt_freed)"
    unfolding hd_def by (rule open_recv_ok(1)[OF pk sp ln ty po' hb1])
  have o2: "fxp_opendir_recv st pktin req = Inr (Some hd, st, Pkt_freed)"
    unfolding hd_def by (rule open_recv_ok(2)[OF pk sp ln ty po' hb1])
  have c: "fxp_close_send st' hd =
                Inr (r, s1\<lparr>sent := sent st' @ PUT_32BIT (of_nat (9 + length h)) @ [4] @
                              PUT_32BIT (req_id r) @ PUT_32BIT (of_nat (length h)) @ h\<rparr>)"
    using close_like_ok[OF al hs(1) hs(2) hb', of SSH_FXP_CLOSE]
    by (simp add: fxp_close_send_def hs(3) SSH_FXP_CLOSE_def)
  have f: "fxp_fstat_send st' hd =
                Inr (r, s1\<lparr>sent := sent st' @ PUT_32BIT (of_nat (9 + length h)) @ [8] @
                              PUT_32BIT (req_id r) @ PUT_32BIT (of_nat (length h)) @ h\<rparr>)"
    using close_like_ok[OF al hs(1) hs(2) hb', of SSH_FXP_FSTAT]
    by (simp add: fxp_fstat_send_def hs(3) SSH_FXP_FSTAT_def)
  have d: "fxp_readdir_send st' hd =
                Inr (r, s1\<lparr>sent := sent st' @ PUT_32BIT (of_nat (9 + length h)) @ [12] @
                              PUT_32BIT (req_id r) @ PUT_32BIT (of_nat (length h)) @ h\<rparr>)"
    using close_like_ok[OF al hs(1) hs(2) hb', of SSH_FXP_READDIR]
    by (simp add: fxp_readdir_send_def hs(3) SSH_FXP_READDIR_def)
  have rd: "fxp_read_send st' hd offset len =
                Inr (r, s1\<lparr>sent := sent st' @ PUT_32BIT (of_nat (21 + length h)) @ [5] @
                              PUT_32BIT (req_id r) @ PUT_32BIT (of_nat (length h)) @ h @
                              PUT_32BIT (uint64_hi offset) @ PUT_32BIT (uint64_lo offset) @
                              PUT_32BIT (word_of_int len)\<rparr>)"
    using read_send_ok[OF al hs(1) hs(2) hb', of offset len] by (simp only: hs(3))
  have wr: "m \<le> length buffer \<and> length h + m + 277 < 2 ^ 31 \<longrightarrow>
               fxp_write_send st' hd buffer offset (int m) =
                Inr (r, s1\<lparr>sent := sent st' @ PUT_32BIT (of_nat (21 + length h + m)) @ [6] @
                              PUT_32BIT (req_id r) @ PUT_32BIT (of_nat (length h)) @ h @
                              PUT_32BIT (uint64_hi offset) @ PUT_32BIT (uint64_lo offset) @
                              PUT_32BIT (of_nat m) @ take m buffer\<rparr>)"
  proof
    assume a: "m \<le> length buffer \<and> length h + m + 277 < 2 ^ 31"
    then have m1: "m \<le> length buffer" and m2: "length h + m + 277 < 2147483648" by simp_all
    show "fxp_write_send st' hd buffer offset (int m) =
                Inr (r, s1\<lparr>sent := sent st' @ PUT_32BIT (of_nat (21 + length h + m)) @ [6] @
                              PUT_32BIT (req_id r) @ PUT_32BIT (of_nat (length h)) @ h @
                              PUT_32BIT (uint64_hi offset) @ PUT_32BIT (uint64_lo offset) @
                              PUT_32BIT (of_nat m) @ take m buffer\<rparr>)"
      using write_send_ok[OF al hs(1) hs(2) m1 m2, of offset] by (simp only: hs(3))
  qed
  from o1 o2 c f d rd wr show ?thesis
    by (intro exI[of _ hd]) (simp only: hd_def fxp_handle.simps simp_thms)
qed


theorem handle_round_trip_witness:
  "pkt_data handle_ex_pkt = [102, 0, 0, 1, 0] @ PUT_32BIT (of_nat (length [1, 2, 3 :: byte])) @ [1, 2, 3] @ [] \<and>
   unat (pkt_savedpos handle_ex_pkt) = length [102, 0, 0, 1, 0 :: byte] \<and>
   unat (pkt_length handle_ex_pkt) = length (pkt_data handle_ex_pkt) \<and>
   pkt_type handle_ex_pkt = SSH_FXP_HANDLE \<and>
   sftp_alloc_request st0 =
     Inr (\<lparr>req_id = 256, registered = 0, userdata = None\<rparr>,
          st0\<lparr>sftp_requests := Some [\<lparr>req_id = 256, registered = 0, userdata = None\<rparr>]\<rparr>) \<and>
   fxp_open_recv st0 handle_ex_pkt (mk_req 256) =
     Inr (Some \<lparr>hstring = [1, 2, 3, 0], hlen = 3\<rparr>, st0, Pkt_freed) \<and>
   fxp_close_send st0 \<lparr>hstring = [1, 2, 3, 0], hlen = 3\<rparr> =
     Inr (\<lparr>req_id = 256, registered = 0, userdata = None\<rparr>,
          st0\<lparr>sftp_requests := Some [\<lparr>req_id = 256, registered = 0, userdata = None\<rparr>],
              sent := [0, 0, 0, 12, 4, 0, 0, 1, 0, 0, 0, 0, 3, 1, 2, 3]\<rparr>) \<and>
   fxp_write_send st0 \<lparr>hstring = [1, 2, 3, 0], hlen = 3\<rparr> [9, 9, 9, 9] 0 4 =
     Inr (\<lparr>req_id = 256, registered = 0, userdata = None\<rparr>,
          st0\<lparr>sftp_requests := Some [\<lparr>req_id = 256, registered = 0, userdata = None\<rparr>],
              sent := [0, 0, 0, 28, 6, 0, 0, 1, 0, 0, 0, 0, 3, 1, 2, 3,
                       0, 0, 0, 0, 0, 0, 0, 0, 0, 0, 0, 4, 9, 9, 9, 9]\<rparr>)"
proof -
  let ?r = "\<lparr>req_id = 256, registered = 0, userdata = None\<rparr>"
  let ?s1 = "st0\<lparr>sftp_requests := Some [?r]\<rparr>"
  have pk: "pkt_data handle_ex_pkt =
      [102, 0, 0, 1, 0] @ PUT_32BIT (of_nat (length [1, 2, 3 :: byte])) @ [1, 2, 3] @ []"
    by (simp add: handle_ex_pkt_def recv_pkt_def PUT_32BIT_def)
  have sp: "unat (pkt_savedpos handle_ex_pkt) = length [102, 0, 0, 1, 0 :: byte]"
    by (simp add: handle_ex_pkt_def recv_pkt_def)
  have ln: "unat (pkt_length handle_ex_pkt) = length (pkt_data handle_ex_pkt)"
    by (simp add: handle_ex_pkt_def recv_pkt_def)
  have ty: "pkt_type handle_ex_pkt = SSH_FXP_HANDLE"
    by (simp add: handle_ex_pkt_def recv_pkt_def SSH_FXP_HANDLE_def)
  have po: "length [1, 2, 3 :: byte] + length ([] :: byte list) < 2 ^ 31" by simp
  have hb: "length [1, 2, 3 :: byte] + 265 < 2 ^ 31" by simp
  have al: "sftp_alloc_request st0 = Inr (?r, ?s1)"
    by (simp add: sftp_alloc_request_def st0_def count234_def alloc_search.simps
        REQUEST_ID_OFFSET_def find234_def add234_def Let_def)
  from handle_round_trip [OF pk sp ln ty po hb al, of st0 "mk_req 256" 0 0 4 "[9, 9, 9, 9]"]
  obtain hd where
    o: "fxp_open_recv st0 handle_ex_pkt (mk_req 256) = Inr (Some hd, st0, Pkt_freed)"
    and h: "hstring hd = [1, 2, 3] @ [0]" "hlen hd = int (length [1, 2, 3 :: byte])"
    and c: "fxp_close_send st0 hd =
              Inr (?r, ?s1\<lparr>sent := sent st0 @ PUT_32BIT (of_nat (9 + length [1, 2, 3 :: byte])) @ [4] @
                     PUT_32BIT (req_id ?r) @ PUT_32BIT (of_nat (length [1, 2, 3 :: byte])) @ [1, 2, 3]\<rparr>)"
    and w: "4 \<le> length [9, 9, 9, 9 :: byte] \<and> length [1, 2, 3 :: byte] + 4 + 277 < (2 :: nat) ^ 31 \<longrightarrow>
            fxp_write_send st0 hd [9, 9, 9, 9] 0 (int 4) =
              Inr (?r, ?s1\<lparr>sent := sent st0 @ PUT_32BIT (of_nat (21 + length [1, 2, 3 :: byte] + 4)) @ [6] @
                     PUT_32BIT (req_id ?r) @ PUT_32BIT (of_nat (length [1, 2, 3 :: byte])) @ [1, 2, 3] @
                     PUT_32BIT (uint64_hi 0) @ PUT_32BIT (uint64_lo 0) @
                     PUT_32BIT (of_nat 4) @ take 4 [9, 9, 9, 9]\<rparr>)"
    by blast
  have hd: "hd = \<lparr>hstring = [1, 2, 3, 0], hlen = 3\<rparr>"
    using h by (cases hd) simp
  from o c w show ?thesis
    unfolding hd using pk sp ln ty al
    by (simp add: PUT_32BIT_def st0_def uint64_hi_def uint64_lo_def)
qed

subsection \<open>The download window\<close>

lemma heap_ok_append: "heap_ok h \<Longrightarrow> (case c of Req_cell r \<Rightarrow> 0 \<le> r_len r | _ \<Rightarrow> True) \<Longrightarrow> heap_ok (h @ [c])"
  by (auto simp: heap_ok_def)

lemma heap_ok_update:
  "heap_ok h \<Longrightarrow> (case c of Req_cell r \<Rightarrow> 0 \<le> r_len r | _ \<Rightarrow> True) \<Longrightarrow> heap_ok (h[a := c])"
  unfolding heap_ok_def by (metis insertE set_update_subset_insert subsetD)

lemma get_req_len: "heap_ok h \<Longrightarrow> get_req h a = Inr r \<Longrightarrow> 0 \<le> r_len r"
proof -
  assume ok: "heap_ok h" and g: "get_req h a = Inr r"
  from g have "a < length h" "h ! a = Req_cell r"
    by (auto simp: get_req_def heap_get_def split: if_splits cell.splits)
  then have "Req_cell r \<in> set h" by (metis nth_mem)
  with ok show ?thesis unfolding heap_ok_def by fastforce
qed

lemma heap_get_len: "heap_ok h \<Longrightarrow> heap_get h a = Req_cell r \<Longrightarrow> 0 \<le> r_len r"
proof -
  assume ok: "heap_ok h" and g: "heap_get h a = Req_cell r"
  from g have "a < length h" "h ! a = Req_cell r"
    by (auto simp: heap_get_def split: if_splits)
  then have "Req_cell r \<in> set h" by (metis nth_mem)
  with ok show ?thesis unfolding heap_ok_def by fastforce
qed

lemma queue_append_heap_ok:
  assumes "heap_ok h" "queue_append h x = Inr (h', a, hd', tl')"
  shows "heap_ok h'"
proof -
  let ?c = "Req_cell \<lparr>r_buffer = None, r_len = 0, r_retlen = 0, r_complete = 0,
                       r_offset = xfer_offset x, r_next = None, r_prev = None\<rparr>"
  have h1: "heap_ok (h @ [?c])" using assms(1) by (intro heap_ok_append) simp_all
  show ?thesis
  proof (cases "tail x")
    case None
    with assms(2) h1 show ?thesis by (auto simp: queue_append_def snew_def)
  next
    case (Some t)
    with assms(2) obtain tr rr where
      tr: "get_req (h @ [?c]) t = Inr tr"
      and rr: "get_req ((h @ [?c])[t := Req_cell (tr\<lparr>r_next := Some (length h)\<rparr>)]) (length h) = Inr rr"
      and h': "h' = ((h @ [?c])[t := Req_cell (tr\<lparr>r_next := Some (length h)\<rparr>)])
                      [length h := Req_cell (rr\<lparr>r_prev := Some t\<rparr>)]"
      by (auto simp: queue_append_def snew_def thenf_def Let_def split: sum.splits)
    have h2: "heap_ok ((h @ [?c])[t := Req_cell (tr\<lparr>r_next := Some (length h)\<rparr>)])"
      using get_req_len[OF h1 tr] by (intro heap_ok_update[OF h1]) simp
    show ?thesis unfolding h'
      using get_req_len[OF h2 rr] by (intro heap_ok_update[OF h2]) simp
  qed
qed

lemma queue_read_heap_ok:
  assumes "heap_ok h" "queue_read st h x = Inr (st', h', hd', tl')"
  shows "heap_ok h'"
proof -
  from assms(2) obtain h1 a rr where
    qa: "queue_append h x = Inr (h1, a, hd', tl')"
    and h': "h' = (h1 @ [Buf_cell (replicate 32768 0)])[a := Req_cell (rr\<lparr>r_len := 32768, r_buffer := Some (length h1)\<rparr>)]"
    by (auto simp: queue_read_def thenf_def snew_def Let_def split: sum.splits prod.splits)
  have "heap_ok h1" by (rule queue_append_heap_ok[OF assms(1) qa])
  then have "heap_ok (h1 @ [Buf_cell (replicate 32768 0)])" by (intro heap_ok_append) simp_all
  then show ?thesis unfolding h' by (intro heap_ok_update) simp_all
qed

lemma download_queue_inv:
  "xfer_download_queue st h x = Inr (st', h', x') \<Longrightarrow> heap_ok h \<Longrightarrow>
   req_totalsize x \<le> req_maxsize x + 32767 \<Longrightarrow>
   heap_ok h' \<and> req_maxsize x' = req_maxsize x \<and> req_totalsize x' \<le> req_maxsize x' + 32767"
proof (induction st h x arbitrary: st' h' x' rule: xfer_download_queue.induct)
  case (1 st h xfer)
  show ?case
  proof (cases "req_totalsize xfer < req_maxsize xfer \<and> eof xfer = 0 \<and> err xfer = 0")
    case False
    with "1.prems" show ?thesis by (simp add: xfer_download_queue.simps[of st h xfer])
  next
    case True
    with "1.prems"(1) obtain s1 h1 hd1 tl1 where
      q: "queue_read st h xfer = Inr (s1, h1, hd1, tl1)"
      and r: "xfer_download_queue s1 h1
               (xfer\<lparr>head := hd1, tail := tl1,
                     xfer_offset := uint64_add32 (xfer_offset xfer) 32768,
                     req_totalsize := req_totalsize xfer + 32768\<rparr>) = Inr (st', h', x')"
      by (auto simp: xfer_download_queue.simps[of st h xfer] split: sum.splits)
    have ok1: "heap_ok h1" by (rule queue_read_heap_ok[OF "1.prems"(2) q])
    let ?x1 = "xfer\<lparr>head := hd1, tail := tl1,
                     xfer_offset := uint64_add32 (xfer_offset xfer) 32768,
                     req_totalsize := req_totalsize xfer + 32768\<rparr>"
    have b1: "req_totalsize ?x1 \<le> req_maxsize ?x1 + 32767" using True by simp
    from "1.IH"[OF True q refl refl refl r ok1 b1] show ?thesis by simp
  qed
qed

lemma gotpkt_tail_inv:
  assumes "gotpkt_tail st h x a rr = (ret, st', h', x')" "heap_ok h" "0 \<le> r_len rr"
  shows "heap_ok h' \<and> req_maxsize x' = req_maxsize x \<and> req_totalsize x' = req_totalsize x"
proof -
  have "heap_ok (h[a := Req_cell (rr\<lparr>r_complete := 1\<rparr>)])"
    using assms(3) by (intro heap_ok_update[OF assms(2)]) simp
  with assms(1) show ?thesis
    by (auto simp: gotpkt_tail_def Let_def xfer_set_error_def split: if_splits)
qed

lemma read_recv_heap_ok:
  assumes "fxp_read_recv st h pk rq b l = Inr (ret, st', h', fate)" "heap_ok h"
  shows "heap_ok h'"
  using assms
  by (auto simp: fxp_read_recv_def thenf_def split: if_splits sum.splits prod.splits option.splits cell.splits
      intro!: heap_ok_update)

lemma download_gotpkt_inv:
  assumes g: "xfer_download_gotpkt st h x pktin = Inr (ret, st', h', x')" and ok: "heap_ok h"
  shows "heap_ok h' \<and> req_maxsize x' = req_maxsize x \<and> req_totalsize x' = req_totalsize x"
proof -
  from g obtain rreq st1 pkt1 fate ud where
    f: "sftp_find_request st pktin = Inr (rreq, st1, pkt1, fate)"
    and u: "fxp_get_userdata rreq = Inr ud"
    by (auto simp: xfer_download_gotpkt_def thenf_def split: sum.splits)
  show ?thesis
  proof (cases ud)
    case None
    with g f u ok show ?thesis by (simp add: xfer_download_gotpkt_def thenf_def)
  next
    case (Some a)
    with g f u obtain rr rq pk r2 st2 h2 fate2 where
      rr: "get_req h a = Inr rr"
      and rp: "rreq = Some rq" "pkt1 = Some pk"
      and rd: "fxp_read_recv st1 h pk rq (r_buffer rr) (r_len rr) = Inr (r2, st2, h2, fate2)"
      by (auto simp: xfer_download_gotpkt_def thenf_def split: sum.splits option.splits)
    have ok2: "heap_ok h2" by (rule read_recv_heap_ok[OF rd ok])
    have len: "0 \<le> r_len rr" by (rule get_req_len[OF ok rr])
    note unf = xfer_download_gotpkt_def thenf_def Let_def
    note facts = g f u Some rr rp rd
    show ?thesis
    proof (cases "(r2 < 0 \<and> fxp_error_type st2 = SSH_FX_EOF) \<or> r2 = 0")
      case True
      with facts
      have "gotpkt_tail st2 h2 (x\<lparr>eof := 1\<rparr>) a (rr\<lparr>r_retlen := r2, r_complete := - 1\<rparr>) = (ret, st', h', x')"
        by (simp add: unf)
      from gotpkt_tail_inv[OF this ok2] len show ?thesis by simp
    next
      case False
      show ?thesis
      proof (cases "r2 < 0")
        case True
        with False facts
        have "h' = h2[a := Req_cell (rr\<lparr>r_retlen := r2, r_complete := - 1\<rparr>)]"
          "x' = xfer_set_error x" by (auto simp: unf)
        moreover have "heap_ok (h2[a := Req_cell (rr\<lparr>r_retlen := r2, r_complete := - 1\<rparr>)])"
          using len by (intro heap_ok_update[OF ok2]) simp
        ultimately show ?thesis by (simp add: xfer_set_error_def)
      next
        case nneg: False
        with False facts
        have "gotpkt_tail st2 h2 x a (rr\<lparr>r_retlen := r2\<rparr>) = (ret, st', h', x')"
          by (simp add: unf)
        from gotpkt_tail_inv[OF this ok2] len show ?thesis by simp
      qed
    qed
  qed
qed

lemma pop_head_inv:
  assumes "pop_head h x rr = Inr (h1, x1)" "heap_ok h"
  shows "heap_ok h1 \<and> req_maxsize x1 = req_maxsize x \<and> req_totalsize x1 = req_totalsize x"
proof (cases "r_next rr")
  case None
  with assms show ?thesis by (auto simp: pop_head_def)
next
  case (Some n)
  with assms(1) obtain nr where nr: "get_req h n = Inr nr"
    and h1: "h1 = h[n := Req_cell (nr\<lparr>r_prev := None\<rparr>)]" and x1: "x1 = x\<lparr>head := Some n\<rparr>"
    by (auto simp: pop_head_def thenf_def split: sum.splits)
  have "heap_ok h1" unfolding h1
    using get_req_len[OF assms(2) nr] by (intro heap_ok_update[OF assms(2)]) simp
  then show ?thesis by (simp add: x1)
qed

lemma data_loop_inv:
  "download_data_loop h x rb rl = Inr (h', x', rb', rl') \<Longrightarrow> heap_ok h \<Longrightarrow>
   heap_ok h' \<and> req_maxsize x' = req_maxsize x \<and> req_totalsize x' \<le> req_totalsize x"
proof (induction h x rb rl arbitrary: h' x' rb' rl' rule: download_data_loop.induct)
  case (1 h xfer retbuf retlen)
  show ?case
  proof (cases "head xfer")
    case None
    with "1.prems" show ?thesis by (simp add: download_data_loop.simps[of h xfer])
  next
    case (Some a)
    show ?thesis
    proof (cases "heap_get h a")
      case Freed
      with Some "1.prems" show ?thesis by (simp add: download_data_loop.simps[of h xfer])
    next
      case (Buf_cell bs)
      with Some "1.prems" show ?thesis by (simp add: download_data_loop.simps[of h xfer])
    next
      case (Req_cell rr)
      show ?thesis
      proof (cases "r_complete rr \<noteq> 0 \<and> retbuf = None")
        case False
        with Some Req_cell "1.prems" show ?thesis
          by (auto simp: download_data_loop.simps[of h xfer])
      next
        case True
        with Some Req_cell "1.prems"(1) obtain h1 x1 where
          p: "pop_head h xfer rr = Inr (h1, x1)"
          and r: "download_data_loop (sfree h1 a)
                    (x1\<lparr>req_totalsize := req_totalsize x1 - r_len rr\<rparr>)
                    (if 0 < r_complete rr then r_buffer rr else retbuf)
                    (if 0 < r_complete rr then r_retlen rr else retlen) = Inr (h', x', rb', rl')"
          by (auto simp: download_data_loop.simps[of h xfer] split: sum.splits)
        from pop_head_inv[OF p "1.prems"(2)] have i1: "heap_ok h1" "req_maxsize x1 = req_maxsize xfer"
          "req_totalsize x1 = req_totalsize xfer" by simp_all
        have ok2: "heap_ok (sfree h1 a)" unfolding sfree_def by (intro heap_ok_update[OF i1(1)]) simp
        have len: "0 \<le> r_len rr" by (rule heap_get_len[OF "1.prems"(2) Req_cell])
        from "1.IH"[OF Some Req_cell True p refl r ok2] i1 len show ?thesis by simp
      qed
    qed
  qed
qed

lemma download_data_inv:
  assumes "xfer_download_data h x = Inr (ret, buf, len, h', x')" "heap_ok h"
  shows "heap_ok h' \<and> req_maxsize x' = req_maxsize x \<and> req_totalsize x' \<le> req_totalsize x"
proof -
  from assms(1) obtain rb rl where "download_data_loop h x None 0 = Inr (h', x', rb, rl)"
    by (auto simp: xfer_download_data_def thenf_def split: sum.splits if_splits)
  from data_loop_inv[OF this assms(2)] show ?thesis .
qed

lemma download_reach_inv:
  "download_reach st h x \<Longrightarrow>
   heap_ok h \<and> req_maxsize x = 1048576 \<and> req_totalsize x \<le> req_maxsize x + 32767"
proof (induction rule: download_reach.induct)
  case (init h0 s0 fh' off s h x)
  from init(2) have q: "xfer_download_queue s0 h0 ((xfer_init fh' off)\<lparr>eof := 0\<rparr>) = Inr (s, h, x)"
    by (simp add: xfer_download_init_def)
  have "req_totalsize ((xfer_init fh' off)\<lparr>eof := 0\<rparr>) \<le> req_maxsize ((xfer_init fh' off)\<lparr>eof := 0\<rparr>) + 32767"
    by (simp add: xfer_init_def)
  from download_queue_inv[OF q init(1) this] show ?case by (simp add: xfer_init_def)
next
  case (queue s h x s' h' x')
  from download_queue_inv[OF queue(2)] queue(3) show ?case by simp
next
  case (gotpkt s h x pktin ret s' h' x')
  from download_gotpkt_inv[OF gotpkt(2)] gotpkt(3) show ?case by simp
next
  case (data s h x ret buf len h' x')
  from download_data_inv[OF data(2)] data(3) show ?case by simp
qed

text \<open>
  C5. In every state of a download, that is after \<^verbatim>\<open>xfer_download_init\<close> and after
  every call of \<^verbatim>\<open>xfer_download_queue\<close>, \<^verbatim>\<open>xfer_download_gotpkt\<close> or
  \<^verbatim>\<open>xfer_download_data\<close>, \<open>req_maxsize\<close> is 1048576 and \<open>req_totalsize\<close> is at
  most \<open>req_maxsize + 32768 - 1\<close>.
\<close>

theorem download_window_invariant:
  assumes "download_reach st h x"
  shows "req_maxsize x = 1048576 \<and> req_totalsize x \<le> req_maxsize x + 32768 - 1"
  using download_reach_inv[OF assms] by simp

text \<open>
  \<^verbatim>\<open>xfer_download_init\<close> on the empty state and store returns, with 32 reads of
  32768 bytes in flight.
\<close>

lemma download_init_returns:
  "\<exists>st h x. xfer_download_init st0 [] hd3 0 = Inr (st, h, x) \<and> req_totalsize x = 1048576"
  by (simp add: xfer_download_init_def xfer_download_queue.simps queue_read_def queue_append_def
        snew_def get_req_def heap_get_def thenf_def xfer_init_def hd3_def st0_def fxp_read_send_def
        sftp_alloc_request_def count234_def alloc_search.simps index234_def REQUEST_ID_OFFSET_def
        find234_def add234_def Let_def handle_packet_def sftp_pkt_init_def sftp_pkt_addbyte_def
        sftp_pkt_adddata_def sftp_pkt_ensure_def sftp_pkt_adduint32_def sftp_pkt_adduint64_def
        sftp_pkt_addstring_start_def sftp_pkt_addstring_data_def memcpy_def sresize_def INT_MAX_def
        SSH_FXP_READ_def PUT_32BIT_def sftp_send_def sftp_senddata_def sftp_register_def
        fxp_set_userdata_def upd_request_def uint64_make_def uint64_hi_def uint64_lo_def
        uint64_add32_def)

theorem download_window_invariant_witness:
  "\<exists>st h x. xfer_download_init st0 [] hd3 0 = Inr (st, h, x) \<and> download_reach st h x \<and>
     req_totalsize x = 1048576 \<and> req_maxsize x = 1048576 \<and>
     req_totalsize x \<le> req_maxsize x + 32768 - 1"
proof -
  from download_init_returns obtain st h x where
    e: "xfer_download_init st0 [] hd3 0 = Inr (st, h, x)" and t: "req_totalsize x = 1048576"
    by blast
  have "heap_ok []" by (simp add: heap_ok_def)
  from download_reach.init[OF this e] have r: "download_reach st h x" .
  from download_window_invariant[OF r] e r t show ?thesis by blast
qed

subsection \<open>Arrival of a read reply\<close>

text \<open>
  The download with one read in flight is what the first round of
  \<^verbatim>\<open>xfer_download_queue\<close> makes of the empty state and store.
\<close>

lemma dl_state_queued:
  "queue_read st0 [] ((xfer_init hd3 0)\<lparr>eof := 0\<rparr>) = Inr (dl_st, dl_heap, Some 0, Some 0)"
  by (simp add: queue_read_def queue_append_def snew_def get_req_def heap_get_def thenf_def
        xfer_init_def hd3_def st0_def fxp_read_send_def sftp_alloc_request_def count234_def alloc_search.simps index234_def
        REQUEST_ID_OFFSET_def find234_def add234_def Let_def handle_packet_def sftp_pkt_init_def
        sftp_pkt_addbyte_def sftp_pkt_adddata_def sftp_pkt_ensure_def sftp_pkt_adduint32_def sftp_pkt_adduint64_def
        sftp_pkt_addstring_start_def sftp_pkt_addstring_data_def memcpy_def sresize_def
        INT_MAX_def SSH_FXP_READ_def PUT_32BIT_def sftp_send_def sftp_senddata_def sftp_register_def
        fxp_set_userdata_def upd_request_def uint64_make_def uint64_hi_def uint64_lo_def uint64_add32_def
        dl_st_def dl_heap_def dl_req_def)

text \<open>
  \<^verbatim>\<open>xfer_download_gotpkt\<close> once the reply has been correlated with the record
  \<open>rr\<close> at address \<open>a\<close> and \<^verbatim>\<open>fxp_read_recv\<close> has returned \<open>r\<close>, and what the
  part of the function after the error test returns.
\<close>

lemma gotpkt_after_read:
  assumes "sftp_find_request st pktin = Inr (Some rq, st1, Some pk, fate)"
    and "userdata rq = Some a"
    and "get_req h a = Inr rr"
    and "fxp_read_recv st1 h pk rq (r_buffer rr) (r_len rr) = Inr (r, st2, h2, fate2)"
  shows "xfer_download_gotpkt st h x pktin =
     (if (r < 0 \<and> fxp_error_type st2 = SSH_FX_EOF) \<or> r = 0
      then Inr (gotpkt_tail st2 h2 (x\<lparr>eof := 1\<rparr>) a (rr\<lparr>r_retlen := r, r_complete := - 1\<rparr>))
      else if r < 0
      then Inr (- 1, st2, h2[a := Req_cell (rr\<lparr>r_retlen := r, r_complete := - 1\<rparr>)], xfer_set_error x)
      else Inr (gotpkt_tail st2 h2 x a (rr\<lparr>r_retlen := r\<rparr>)))"
  using assms by (simp add: xfer_download_gotpkt_def thenf_def fxp_get_userdata_def Let_def)

lemma gotpkt_tail_shape:
  "\<exists>ret s'. gotpkt_tail st h x a rr = (ret, s', h[a := Req_cell (rr\<lparr>r_complete := 1\<rparr>)],
     (if 0 < ret then id else xfer_set_error)
       ((if 0 < r_retlen rr \<and> uint64_compare (furthestdata x) (r_offset rr) < 0
         then x\<lparr>furthestdata := r_offset rr\<rparr> else x)
        \<lparr>filesize := (if r_retlen rr < r_len rr
                      then min (filesize x) (uint64_add32 (r_offset rr) (word_of_int (max 0 (r_retlen rr))))
                      else filesize x)\<rparr>))"
  by (auto simp: gotpkt_tail_def Let_def uint64_compare_def min_def max_def xfer_set_error_def)


lemma get_req_nth: "get_req h a = Inr rr \<Longrightarrow> a < length h \<and> h ! a = Req_cell rr"
  by (auto simp: get_req_def heap_get_def split: if_splits cell.splits)

lemma read_recv_store:
  assumes "fxp_read_recv st h pk rq b l = Inr (r, st2, h2, f)"
  shows "length h2 = length h \<and> (\<forall>n nr. get_req h n = Inr nr \<longrightarrow> get_req h2 n = Inr nr)"
proof -
  from assms consider "h2 = h" | b' bs bs' where "h2 = h[b' := Buf_cell bs']" "heap_get h b' = Buf_cell bs"
    by (auto simp: fxp_read_recv_def thenf_def
        split: if_splits sum.splits prod.splits option.splits cell.splits)
  then show ?thesis
  proof cases
    case 1
    then show ?thesis by simp
  next
    case 2
    have "get_req (h[b' := Buf_cell bs']) n = Inr nr" if g: "get_req h n = Inr nr" for n nr
    proof -
      from g 2(2) have "n \<noteq> b'" by (auto simp: get_req_def)
      with get_req_nth[OF g] show ?thesis by (simp add: get_req_def heap_get_def)
    qed
    with 2(1) show ?thesis by simp
  qed
qed


lemma data_loop_picked:
  "download_data_loop h x (Some b) r =
     (case head x of
        None \<Rightarrow> Inr (h, x, Some b, r)
      | Some a \<Rightarrow> (case heap_get h a of Req_cell rr \<Rightarrow> Inr (h, x, Some b, r) | _ \<Rightarrow> Inl Bad_pointer))"
  by (simp add: download_data_loop.simps[of h x "Some b" r] split: option.splits cell.splits)

lemma data_loop_first:
  assumes "head x = Some a" "heap_get h a = Req_cell rr" "0 < r_complete rr"
    "pop_head h x rr = Inr (h1, x1)"
  shows "download_data_loop h x None 0 =
           download_data_loop (sfree h1 a) (x1\<lparr>req_totalsize := req_totalsize x1 - r_len rr\<rparr>)
             (r_buffer rr) (r_retlen rr)"
  using assms by (simp add: download_data_loop.simps[of h x None 0])

text \<open>
  C2. Let a reply be correlated with the record \<open>rr\<close> at address \<open>a\<close>, and let
  \<^verbatim>\<open>fxp_read_recv\<close> return \<open>r\<close> with the error \<^verbatim>\<open>SSH_FX_EOF\<close> or \<open>r = 0\<close>. Then
  \<^verbatim>\<open>xfer_download_gotpkt\<close> sets \<open>eof\<close>, but it leaves the record with
  \<open>complete = 1\<close>: the assignment \<^verbatim>\<open>rr->complete = -1\<close> of the end-of-file branch
  is overwritten by the \<^verbatim>\<open>rr->complete = 1\<close> that follows the test. With the record
  at the head of the queue (and its successor, if any, a record of the store),
  \<^verbatim>\<open>xfer_download_data\<close> then returns 1 and hands the buffer \<open>b\<close> of that record
  to the caller, with the length \<open>r\<close>.
\<close>

theorem download_eof_reply_handed_back:
  assumes f: "sftp_find_request st pktin = Inr (Some rq, st1, Some pk, fate)"
    and u: "userdata rq = Some a"
    and rr: "get_req h a = Inr rr"
    and rd: "fxp_read_recv st1 h pk rq (r_buffer rr) (r_len rr) = Inr (r, st2, h2, fate2)"
    and e: "(r < 0 \<and> fxp_error_type st2 = SSH_FX_EOF) \<or> r = 0"
    and hd: "head x = Some a"
    and b: "r_buffer rr = Some b"
    and nx: "case r_next rr of None \<Rightarrow> True | Some n \<Rightarrow> n \<noteq> a \<and> (\<exists>nr. get_req h n = Inr nr)"
  shows "\<exists>ret s' h' x' h'' x''.
           xfer_download_gotpkt st h x pktin = Inr (ret, s', h', x') \<and> eof x' = 1 \<and>
           get_req h' a = Inr (rr\<lparr>r_retlen := r, r_complete := 1\<rparr>) \<and>
           xfer_download_data h' x' = Inr (1, Some b, r, h'', x'')"
proof -
  define rr1 where "rr1 = rr\<lparr>r_retlen := r, r_complete := 1\<rparr>"
  define h' where "h' = h2[a := Req_cell rr1]"
  from gotpkt_tail_shape[of st2 h2 "x\<lparr>eof := 1\<rparr>" a "rr\<lparr>r_retlen := r, r_complete := - 1\<rparr>"]
  obtain ret s' x' where gt: "gotpkt_tail st2 h2 (x\<lparr>eof := 1\<rparr>) a (rr\<lparr>r_retlen := r, r_complete := - 1\<rparr>) =
      (ret, s', h', x')" and ex: "eof x' = 1" and hx: "head x' = Some a"
    using hd by (auto simp: h'_def rr1_def xfer_set_error_def)
  from gotpkt_after_read[OF f u rr rd, of x] e gt
  have g: "xfer_download_gotpkt st h x pktin = Inr (ret, s', h', x')" by simp
  from read_recv_store[OF rd] have len: "length h2 = length h"
    and keep: "\<And>n nr. get_req h n = Inr nr \<Longrightarrow> get_req h2 n = Inr nr" by blast+
  from get_req_nth[OF rr] len have al: "a < length h2" by simp
  then have ga: "get_req h' a = Inr rr1" and hga: "heap_get h' a = Req_cell rr1"
    by (simp_all add: h'_def get_req_def heap_get_def)
  have c1: "0 < r_complete rr1" and b1: "r_buffer rr1 = Some b" and r1: "r_retlen rr1 = r"
    and n1: "r_next rr1 = r_next rr"
    by (simp_all add: rr1_def b)
  have "\<exists>h'' x''. download_data_loop h' x' None 0 = Inr (h'', x'', Some b, r)"
  proof (cases "r_next rr")
    case None
    then have p: "pop_head h' x' rr1 = Inr (h', x'\<lparr>head := None, tail := None\<rparr>)"
      by (simp add: pop_head_def n1)
    show ?thesis
      unfolding data_loop_first[OF hx hga c1 p] b1 r1 by (simp add: data_loop_picked)
  next
    case (Some n)
    with nx obtain nr where na: "n \<noteq> a" and gn: "get_req h n = Inr nr" by auto
    from keep[OF gn] have gn2: "get_req h2 n = Inr nr" .
    from get_req_nth[OF gn2] have nl: "n < length h2" by simp
    from get_req_nth[OF gn2] na have gn': "get_req h' n = Inr nr"
      by (simp add: h'_def get_req_def heap_get_def)
    have p: "pop_head h' x' rr1 = Inr (h'[n := Req_cell (nr\<lparr>r_prev := None\<rparr>)], x'\<lparr>head := Some n\<rparr>)"
      by (simp add: pop_head_def n1 Some gn' thenf_def)
    have "heap_get (sfree (h'[n := Req_cell (nr\<lparr>r_prev := None\<rparr>)]) a) n = Req_cell (nr\<lparr>r_prev := None\<rparr>)"
      using na nl by (simp add: sfree_def heap_get_def h'_def)
    then show ?thesis
      unfolding data_loop_first[OF hx hga c1 p] b1 r1 by (simp add: data_loop_picked)
  qed
  then obtain h'' x'' where "download_data_loop h' x' None 0 = Inr (h'', x'', Some b, r)" by blast
  then have "xfer_download_data h' x' = Inr (1, Some b, r, h'', x'')"
    by (simp add: xfer_download_data_def thenf_def)
  with g ex ga show ?thesis unfolding rr1_def by blast
qed

theorem download_eof_reply_handed_back_witness:
  "\<exists>ret s' h' x' h'' x''.
     xfer_download_gotpkt dl_st dl_heap dl_xfer (Some (status_pkt [0, 0, 1, 0, 0, 0, 0, 1])) =
       Inr (ret, s', h', x') \<and> eof x' = 1 \<and>
     get_req h' 0 = Inr (dl_req\<lparr>r_retlen := - 1, r_complete := 1\<rparr>) \<and>
     xfer_download_data h' x' = Inr (1, Some 1, - 1, h'', x'')"
proof -
  have f: "sftp_find_request dl_st (Some (status_pkt [0, 0, 1, 0, 0, 0, 0, 1])) =
      Inr (Some \<lparr>req_id = 256, registered = 1, userdata = Some 0\<rparr>,
           dl_st\<lparr>sftp_requests := Some []\<rparr>,
           Some ((status_pkt [0, 0, 1, 0, 0, 0, 0, 1])\<lparr>pkt_savedpos := 5\<rparr>), Pkt_kept)"
    by (simp add: sftp_find_request_def sftp_pkt_getuint32_def status_pkt_def recv_pkt_def
        GET_32BIT_def be32_def dl_st_def find234_def)
  have u: "userdata \<lparr>req_id = 256, registered = 1, userdata = Some 0\<rparr> = Some 0" by simp
  have rr: "get_req dl_heap 0 = Inr dl_req"
    by (simp add: get_req_def heap_get_def dl_heap_def)
  have rd: "fxp_read_recv (dl_st\<lparr>sftp_requests := Some []\<rparr>) dl_heap
        ((status_pkt [0, 0, 1, 0, 0, 0, 0, 1])\<lparr>pkt_savedpos := 5\<rparr>)
        \<lparr>req_id = 256, registered = 1, userdata = Some 0\<rparr> (r_buffer dl_req) (r_len dl_req) =
      Inr (- 1, dl_st\<lparr>sftp_requests := Some [], fxp_error_message := ''end of file'',
                      fxp_errtype := 1\<rparr>, dl_heap, Pkt_freed)"
    by (simp add: fxp_read_recv_def fxp_got_status_def sftp_pkt_getuint32_def status_pkt_def
        recv_pkt_def GET_32BIT_def be32_def SSH_FXP_DATA_def SSH_FXP_STATUS_def thenf_def
        messages_def SSH_FX_OK_def SSH_FX_EOF_def Let_def)
  have e: "(- 1 < (0::int) \<and>
      fxp_error_type (dl_st\<lparr>sftp_requests := Some [], fxp_error_message := ''end of file'',
                            fxp_errtype := 1\<rparr>) = SSH_FX_EOF) \<or> - 1 = (0::int)"
    by (simp add: fxp_error_type_def SSH_FX_EOF_def)
  have hd: "head dl_xfer = Some 0" by (simp add: dl_xfer_def)
  have b: "r_buffer dl_req = Some 1" by (simp add: dl_req_def)
  have nx: "case r_next dl_req of None \<Rightarrow> True
            | Some n \<Rightarrow> n \<noteq> 0 \<and> (\<exists>nr. get_req dl_heap n = Inr nr)"
    by (simp add: dl_req_def)
  from download_eof_reply_handed_back[OF f u rr rd e hd b nx] show ?thesis .
qed


lemma filesize_unknown: "uint64_make ULONG_MAX ULONG_MAX = 18446744073709551615"
proof -
  have "uint64_make ULONG_MAX ULONG_MAX = - 1"
    unfolding uint64_make_def ULONG_MAX_def
    by (rule bit_word_eqI) (auto simp: bit_simps not_less)
  then show ?thesis by simp
qed

lemma gotpkt_tail_ret: "fst (gotpkt_tail st h x a rr) \<noteq> 0"
  by (simp add: gotpkt_tail_def Let_def)

text \<open>
  C4, as the claim states it, fails for a reply that is an error other than
  end of file. The read of request 256 asked for 32768 bytes at offset 0; the reply
  is a STATUS with the code 4, for which \<^verbatim>\<open>fxp_read_recv\<close> returns -1.
  \<^verbatim>\<open>xfer_download_gotpkt\<close> flags the error and returns -1 before it reaches the
  short-read test, and the believed file size stays 2^64 - 1, which is not at most
  0 + max(0, -1) = 0.
\<close>

theorem short_read_filesize_counterexample:
  "xfer_download_gotpkt dl_st dl_heap dl_xfer (Some (status_pkt [0, 0, 1, 0, 0, 0, 0, 4])) =
     Inr (- 1,
          dl_st\<lparr>sftp_requests := Some [], fxp_error_message := ''failure'', fxp_errtype := 4\<rparr>,
          dl_heap[0 := Req_cell (dl_req\<lparr>r_retlen := - 1, r_complete := - 1\<rparr>)],
          dl_xfer\<lparr>err := 1\<rparr>) \<and>
   get_req dl_heap 0 = Inr dl_req \<and> r_offset dl_req = 0 \<and> r_len dl_req = 32768 \<and>
   filesize (dl_xfer\<lparr>err := 1\<rparr>) = 18446744073709551615 \<and>
   \<not> filesize (dl_xfer\<lparr>err := 1\<rparr>) \<le> uint64_add32 (r_offset dl_req) (word_of_int (max 0 (- 1)))"
proof -
  have f: "sftp_find_request dl_st (Some (status_pkt [0, 0, 1, 0, 0, 0, 0, 4])) =
      Inr (Some \<lparr>req_id = 256, registered = 1, userdata = Some 0\<rparr>,
           dl_st\<lparr>sftp_requests := Some []\<rparr>,
           Some ((status_pkt [0, 0, 1, 0, 0, 0, 0, 4])\<lparr>pkt_savedpos := 5\<rparr>), Pkt_kept)"
    by (simp add: sftp_find_request_def sftp_pkt_getuint32_def status_pkt_def recv_pkt_def
        GET_32BIT_def be32_def dl_st_def find234_def)
  have u: "userdata \<lparr>req_id = 256, registered = 1, userdata = Some 0\<rparr> = Some 0" by simp
  have rr: "get_req dl_heap 0 = Inr dl_req"
    by (simp add: get_req_def heap_get_def dl_heap_def)
  have rd: "fxp_read_recv (dl_st\<lparr>sftp_requests := Some []\<rparr>) dl_heap
        ((status_pkt [0, 0, 1, 0, 0, 0, 0, 4])\<lparr>pkt_savedpos := 5\<rparr>)
        \<lparr>req_id = 256, registered = 1, userdata = Some 0\<rparr> (r_buffer dl_req) (r_len dl_req) =
      Inr (- 1, dl_st\<lparr>sftp_requests := Some [], fxp_error_message := ''failure'',
                      fxp_errtype := 4\<rparr>, dl_heap, Pkt_freed)"
    by (simp add: fxp_read_recv_def fxp_got_status_def sftp_pkt_getuint32_def status_pkt_def
        recv_pkt_def GET_32BIT_def be32_def SSH_FXP_DATA_def SSH_FXP_STATUS_def thenf_def
        messages_def SSH_FX_OK_def SSH_FX_EOF_def Let_def)
  have 1: "xfer_download_gotpkt dl_st dl_heap dl_xfer (Some (status_pkt [0, 0, 1, 0, 0, 0, 0, 4])) =
     Inr (- 1,
          dl_st\<lparr>sftp_requests := Some [], fxp_error_message := ''failure'', fxp_errtype := 4\<rparr>,
          dl_heap[0 := Req_cell (dl_req\<lparr>r_retlen := - 1, r_complete := - 1\<rparr>)],
          dl_xfer\<lparr>err := 1\<rparr>)"
    unfolding gotpkt_after_read[OF f u rr rd]
    by (simp add: fxp_error_type_def SSH_FX_EOF_def xfer_set_error_def)
  have 2: "filesize (dl_xfer\<lparr>err := 1\<rparr>) = 18446744073709551615"
    by (simp add: dl_xfer_def xfer_init_def filesize_unknown)
  have 3: "uint64_add32 (r_offset dl_req) (word_of_int (max 0 (- 1))) = 0"
    by (simp add: uint64_add32_def dl_req_def)
  have 4: "r_offset dl_req = 0 \<and> r_len dl_req = 32768" by (simp add: dl_req_def)
  from 1 rr 2 3 4 show ?thesis by simp
qed

text \<open>
  C4, amended. Let a reply be correlated with the record \<open>rr\<close> (offset
  \<open>r_offset rr\<close>, \<open>r_len rr\<close> bytes requested), and let \<^verbatim>\<open>fxp_read_recv\<close> return
  \<open>r < r_len rr\<close>, where \<open>r\<close> is not negative or the error is \<^verbatim>\<open>SSH_FX_EOF\<close>.
  Then \<^verbatim>\<open>xfer_download_gotpkt\<close> returns, and the believed file size is the
  minimum of its old value and \<open>r_offset rr + max 0 r\<close>, the sum taken in 64-bit unsigned
  arithmetic; so it is at most that sum.
\<close>

theorem short_read_filesize:
  assumes f: "sftp_find_request st pktin = Inr (Some rq, st1, Some pk, fate)"
    and u: "userdata rq = Some a"
    and rr: "get_req h a = Inr rr"
    and rd: "fxp_read_recv st1 h pk rq (r_buffer rr) (r_len rr) = Inr (r, st2, h2, fate2)"
    and short: "r < r_len rr"
    and ok: "0 \<le> r \<or> fxp_error_type st2 = SSH_FX_EOF"
  shows "\<exists>ret s' h' x'.
           xfer_download_gotpkt st h x pktin = Inr (ret, s', h', x') \<and>
           filesize x' = min (filesize x) (uint64_add32 (r_offset rr) (word_of_int (max 0 r))) \<and>
           filesize x' \<le> uint64_add32 (r_offset rr) (word_of_int (max 0 r))"
proof -
  have *: "\<exists>ret s' h' x'. gotpkt_tail st2 h2 y a (rr\<lparr>r_retlen := r, r_complete := c\<rparr>) = (ret, s', h', x') \<and>
      filesize x' = min (filesize y) (uint64_add32 (r_offset rr) (word_of_int (max 0 r)))" for y c
    using gotpkt_tail_shape[of st2 h2 y a "rr\<lparr>r_retlen := r, r_complete := c\<rparr>"] short
    by (auto simp: xfer_set_error_def)
  show ?thesis
  proof (cases "(r < 0 \<and> fxp_error_type st2 = SSH_FX_EOF) \<or> r = 0")
    case True
    from *[of "x\<lparr>eof := 1\<rparr>" "- 1"] obtain ret s' h' x' where
      "gotpkt_tail st2 h2 (x\<lparr>eof := 1\<rparr>) a (rr\<lparr>r_retlen := r, r_complete := - 1\<rparr>) = (ret, s', h', x')"
      "filesize x' = min (filesize x) (uint64_add32 (r_offset rr) (word_of_int (max 0 r)))"
      by auto
    with True gotpkt_after_read[OF f u rr rd, of x] show ?thesis by auto
  next
    case False
    with ok have nn: "\<not> r < 0" by auto
    from *[of x "r_complete rr"] obtain ret s' h' x' where
      "gotpkt_tail st2 h2 x a (rr\<lparr>r_retlen := r\<rparr>) = (ret, s', h', x')"
      "filesize x' = min (filesize x) (uint64_add32 (r_offset rr) (word_of_int (max 0 r)))"
      by auto
    with False nn gotpkt_after_read[OF f u rr rd, of x] show ?thesis by auto
  qed
qed

theorem short_read_filesize_witness:
  "\<exists>ret s' h' x'.
     xfer_download_gotpkt dl_st dl_heap dl_xfer
       (Some (recv_pkt 103 [0, 0, 1, 0, 0, 0, 0, 3, 7, 8, 9])) = Inr (ret, s', h', x') \<and>
     filesize x' = 3"
proof -
  let ?p = "recv_pkt 103 [0, 0, 1, 0, 0, 0, 0, 3, 7, 8, 9]"
  have f: "sftp_find_request dl_st (Some ?p) =
      Inr (Some \<lparr>req_id = 256, registered = 1, userdata = Some 0\<rparr>,
           dl_st\<lparr>sftp_requests := Some []\<rparr>, Some (?p\<lparr>pkt_savedpos := 5\<rparr>), Pkt_kept)"
    by (simp add: sftp_find_request_def sftp_pkt_getuint32_def recv_pkt_def
        GET_32BIT_def be32_def dl_st_def find234_def)
  have u: "userdata \<lparr>req_id = 256, registered = 1, userdata = Some 0\<rparr> = Some 0" by simp
  have rr: "get_req dl_heap 0 = Inr dl_req"
    by (simp add: get_req_def heap_get_def dl_heap_def)
  have rd: "fxp_read_recv (dl_st\<lparr>sftp_requests := Some []\<rparr>) dl_heap (?p\<lparr>pkt_savedpos := 5\<rparr>)
        \<lparr>req_id = 256, registered = 1, userdata = Some 0\<rparr> (r_buffer dl_req) (r_len dl_req) =
      Inr (3, dl_st\<lparr>sftp_requests := Some []\<rparr>,
           dl_heap[1 := Buf_cell ([7, 8, 9] @ replicate 32765 0)], Pkt_freed)"
    by (simp add: fxp_read_recv_def sftp_pkt_getstring_def recv_pkt_def GET_32BIT_def be32_def
        SSH_FXP_DATA_def thenf_def Let_def dl_req_def dl_heap_def heap_get_def memcpy_def)
  have short: "3 < r_len dl_req" by (simp add: dl_req_def)
  have ok: "(0::int) \<le> 3 \<or> fxp_error_type (dl_st\<lparr>sftp_requests := Some []\<rparr>) = SSH_FX_EOF" by simp
  have fs: "min (filesize dl_xfer) (uint64_add32 (r_offset dl_req) (word_of_int (max 0 3))) = 3"
    by (simp add: dl_xfer_def xfer_init_def filesize_unknown uint64_add32_def dl_req_def)
  from short_read_filesize[OF f u rr rd short ok, of dl_xfer] show ?thesis
    unfolding fs by blast
qed

text \<open>
  C9. When \<^verbatim>\<open>sftp_find_request\<close> returns \<^verbatim>\<open>NULL\<close>, both
  \<^verbatim>\<open>xfer_download_gotpkt\<close> and \<^verbatim>\<open>xfer_upload_gotpkt\<close> dereference it in
  \<^verbatim>\<open>fxp_get_userdata\<close>; this is what happens for a packet whose leading id is not in
  the registry, or names a request that is not registered. The result 0 ("this
  packet isn't ours") is reached only when \<^verbatim>\<open>sftp_find_request\<close> has returned a
  descriptor and the userdata of that descriptor is \<^verbatim>\<open>NULL\<close>.
\<close>

theorem gotpkt_requires_correlation:
  "(sftp_find_request st pktin = Inr (None, st1, pk1, fate) \<longrightarrow>
      xfer_download_gotpkt st h x pktin = Inl Null_deref \<and>
      xfer_upload_gotpkt st h x pktin = Inl Null_deref) \<and>
   (sftp_requests st = Some t \<and> sftp_pkt_getuint32 pk = Inr (Some (id', pk')) \<and>
    (find234 t id' = None \<or> (\<exists>rq. find234 t id' = Some rq \<and> registered rq = 0)) \<longrightarrow>
      xfer_download_gotpkt st h x (Some pk) = Inl Null_deref \<and>
      xfer_upload_gotpkt st h x (Some pk) = Inl Null_deref) \<and>
   (xfer_download_gotpkt st h x pktin = Inr (0, s', h', x') \<or>
    xfer_upload_gotpkt st h x pktin = Inr (0, s', h', x') \<longrightarrow>
      (\<exists>rq p f. sftp_find_request st pktin = Inr (Some rq, s', p, f) \<and> userdata rq = None))"
proof (intro conjI impI)
  assume "sftp_find_request st pktin = Inr (None, st1, pk1, fate)"
  then show "xfer_download_gotpkt st h x pktin = Inl Null_deref"
    "xfer_upload_gotpkt st h x pktin = Inl Null_deref"
    by (simp_all add: xfer_download_gotpkt_def xfer_upload_gotpkt_def thenf_def fxp_get_userdata_def)
next
  assume a: "sftp_requests st = Some t \<and> sftp_pkt_getuint32 pk = Inr (Some (id', pk')) \<and>
    (find234 t id' = None \<or> (\<exists>rq. find234 t id' = Some rq \<and> registered rq = 0))"
  then have "sftp_find_request st (Some pk) =
      Inr (None, fxp_internal_error st ''request ID mismatch\<newline>'', Some pk', Pkt_freed)"
    by (auto simp: sftp_find_request_def)
  then show "xfer_download_gotpkt st h x (Some pk) = Inl Null_deref"
    "xfer_upload_gotpkt st h x (Some pk) = Inl Null_deref"
    by (simp_all add: xfer_download_gotpkt_def xfer_upload_gotpkt_def thenf_def fxp_get_userdata_def)
next
  assume a: "xfer_download_gotpkt st h x pktin = Inr (0, s', h', x') \<or>
    xfer_upload_gotpkt st h x pktin = Inr (0, s', h', x')"
  show "\<exists>rq p f. sftp_find_request st pktin = Inr (Some rq, s', p, f) \<and> userdata rq = None"
  proof (cases "sftp_find_request st pktin")
    case (Inl e)
    with a show ?thesis
      by (simp add: xfer_download_gotpkt_def xfer_upload_gotpkt_def thenf_def)
  next
    case (Inr res)
    obtain rreq s1 p f where res: "res = (rreq, s1, p, f)" by (cases res) auto
    show ?thesis
    proof (cases rreq)
      case None
      with a Inr res show ?thesis
        by (simp add: xfer_download_gotpkt_def xfer_upload_gotpkt_def thenf_def fxp_get_userdata_def)
    next
      case (Some rq)
      show ?thesis
      proof (cases "userdata rq")
        case None
        with a Inr res Some show ?thesis
          by (auto simp: xfer_download_gotpkt_def xfer_upload_gotpkt_def thenf_def fxp_get_userdata_def)
      next
        case (Some ad)
        have d: "xfer_download_gotpkt st h x pktin \<noteq> Inr (0, s', h', x')"
        proof
          assume g: "xfer_download_gotpkt st h x pktin = Inr (0, s', h', x')"
          from g Inr res \<open>rreq = Some rq\<close> Some obtain rr pk2 r st2 h2 f2 where
            "get_req h ad = Inr rr" "p = Some pk2"
            "fxp_read_recv s1 h pk2 rq (r_buffer rr) (r_len rr) = Inr (r, st2, h2, f2)"
            by (auto simp: xfer_download_gotpkt_def thenf_def fxp_get_userdata_def
                split: sum.splits option.splits)
          note rd = this
          from Inr res \<open>rreq = Some rq\<close> \<open>p = Some pk2\<close>
          have fr: "sftp_find_request st pktin = Inr (Some rq, s1, Some pk2, f)" by simp
          have "case xfer_download_gotpkt st h x pktin of Inl e \<Rightarrow> True | Inr res \<Rightarrow> fst res \<noteq> 0"
            unfolding gotpkt_after_read[OF fr Some rd(1) rd(3), of x]
            by (simp add: gotpkt_tail_ret)
          with g show False by simp
        qed
        have up: "xfer_upload_gotpkt st h x pktin \<noteq> Inr (0, s', h', x')"
          using Inr res \<open>rreq = Some rq\<close> Some
          by (auto simp: xfer_upload_gotpkt_def thenf_def fxp_get_userdata_def
              split: sum.splits option.splits prod.splits)
        from a d up show ?thesis by simp
      qed
    qed
  qed
qed


theorem gotpkt_requires_correlation_witness:
  "xfer_download_gotpkt find_ex_st [] (xfer_init hd3 0)
     (Some (status_pkt [0, 0, 1, 1, 0, 0, 0, 0])) = Inl Null_deref \<and>
   xfer_upload_gotpkt find_ex_st [] (xfer_init hd3 0)
     (Some (status_pkt [0, 0, 1, 1, 0, 0, 0, 0])) = Inl Null_deref \<and>
   xfer_download_gotpkt find_ex_st [] (xfer_init hd3 0)
     (Some (status_pkt [0, 0, 1, 0, 0, 0, 0, 0])) =
     Inr (0, find_ex_st\<lparr>sftp_requests := Some []\<rparr>, [], xfer_init hd3 0) \<and>
   (\<exists>rq p f. sftp_find_request find_ex_st (Some (status_pkt [0, 0, 1, 0, 0, 0, 0, 0])) =
        Inr (Some rq, find_ex_st\<lparr>sftp_requests := Some []\<rparr>, p, f) \<and> userdata rq = None)"
proof -
  let ?p = "status_pkt [0, 0, 1, 1, 0, 0, 0, 0]"
  let ?q = "status_pkt [0, 0, 1, 0, 0, 0, 0, 0]"
  have a: "sftp_requests find_ex_st = Some [mk_req 256] \<and>
      sftp_pkt_getuint32 ?p = Inr (Some (257, ?p\<lparr>pkt_savedpos := 5\<rparr>)) \<and>
      (find234 [mk_req 256] 257 = None \<or>
       (\<exists>rq. find234 [mk_req 256] 257 = Some rq \<and> registered rq = 0))"
    by (simp add: find_ex_st_def st0_def sftp_pkt_getuint32_def status_pkt_def recv_pkt_def
        GET_32BIT_def be32_def find234_def mk_req_def)
  have z: "xfer_download_gotpkt find_ex_st [] (xfer_init hd3 0) (Some ?q) =
      Inr (0, find_ex_st\<lparr>sftp_requests := Some []\<rparr>, [], xfer_init hd3 0)"
    by (simp add: xfer_download_gotpkt_def sftp_find_request_def find_ex_st_def st0_def
        sftp_pkt_getuint32_def status_pkt_def recv_pkt_def GET_32BIT_def be32_def find234_def
        mk_req_def thenf_def fxp_get_userdata_def)
  note 1 = gotpkt_requires_correlation[where st = find_ex_st and t = "[mk_req 256]" and pk = ?p
      and id' = 257 and pk' = "?p\<lparr>pkt_savedpos := 5\<rparr>" and h = "[]" and x = "xfer_init hd3 0",
      THEN conjunct2, THEN conjunct1, THEN mp, OF a]
  note 2 = gotpkt_requires_correlation[where st = find_ex_st and pktin = "Some ?q" and h = "[]"
      and x = "xfer_init hd3 0" and s' = "find_ex_st\<lparr>sftp_requests := Some []\<rparr>" and h' = "[]"
      and x' = "xfer_init hd3 0", THEN conjunct2, THEN conjunct2, THEN mp, OF disjI1, OF z]
  from 1 z 2 show ?thesis by blast
qed

end
